(* ===== verification/Prelude.thy ===== *)
theory Prelude
  imports Main "HOL-Library.Char_ord" "HOL-Library.List_Lexorder" "HOL-Library.Multiset"
    "HOL-Library.AList"
begin

text \<open>
  Shared ground of the development: the fixed-width integers of Go, errors as values, the
  functions of the packages strings, fmt and slices that the modelled code calls, and the
  generic lemmas about lists and association lists that the components share.
\<close>

named_theorems str_defs \<open>unfolding rules of the string functions\<close>
named_theorems alist_simps \<open>rewrite rules of association lists\<close>

subsection \<open>Fixed-width integers\<close>

text \<open>
  A signed Go integer of width w is an int; a conversion or an operation that can leave the
  range is followed by the two's complement wrap.
\<close>

definition wrap :: "nat \<Rightarrow> int \<Rightarrow> int" where
  "wrap w x = (x + 2 ^ (w - 1)) mod 2 ^ w - 2 ^ (w - 1)"

definition in_range :: "nat \<Rightarrow> int \<Rightarrow> bool" where
  "in_range w x \<longleftrightarrow> - (2 ^ (w - 1)) \<le> x \<and> x < 2 ^ (w - 1)"

abbreviation wrap8 :: "int \<Rightarrow> int" where "wrap8 \<equiv> wrap 8"
abbreviation wrap16 :: "int \<Rightarrow> int" where "wrap16 \<equiv> wrap 16"
abbreviation wrap32 :: "int \<Rightarrow> int" where "wrap32 \<equiv> wrap 32"
abbreviation wrap64 :: "int \<Rightarrow> int" where "wrap64 \<equiv> wrap 64"

lemma wrap_in_range: "0 < w \<Longrightarrow> in_range w (wrap w x)"
proof -
  assume "0 < w"
  then have two: "(2::int) ^ w = 2 * 2 ^ (w - 1)"
    by (metis power_eq_if less_numeral_extra(3))
  have "0 \<le> (x + 2 ^ (w - 1)) mod 2 ^ w" "(x + 2 ^ (w - 1)) mod 2 ^ w < 2 ^ w"
    by simp_all
  then show ?thesis using two by (simp add: in_range_def wrap_def)
qed

lemma wrap_id: "0 < w \<Longrightarrow> in_range w x \<Longrightarrow> wrap w x = x"
proof -
  assume "0 < w" and r: "in_range w x"
  then have two: "(2::int) ^ w = 2 * 2 ^ (w - 1)"
    by (metis power_eq_if less_numeral_extra(3))
  have "(x + 2 ^ (w - 1)) mod 2 ^ w = x + 2 ^ (w - 1)"
    using r two by (intro mod_pos_pos_trivial) (auto simp: in_range_def)
  then show ?thesis by (simp add: wrap_def)
qed

lemma wrap_idem [simp]: "0 < w \<Longrightarrow> wrap w (wrap w x) = wrap w x"
  by (simp add: wrap_id wrap_in_range)

text \<open>Go's integer division and remainder truncate towards zero.\<close>

definition quot :: "int \<Rightarrow> int \<Rightarrow> int" where
  "quot a b = sgn a * sgn b * (\<bar>a\<bar> div \<bar>b\<bar>)"

definition rema :: "int \<Rightarrow> int \<Rightarrow> int" where
  "rema a b = a - b * quot a b"

subsection \<open>Errors as values\<close>

text \<open>
  A Go error is its text. The texts are kept to their fixed part and the text of the wrapped
  error, which is what the code inspects (with strings.Contains); the dump of the values
  involved is left out.
\<close>

type_synonym goerr = string

fun bindr :: "'e + 'a \<Rightarrow> ('a \<Rightarrow> 'e + 'b) \<Rightarrow> 'e + 'b" where
  "bindr (Inl e) f = Inl e"
| "bindr (Inr x) f = f x"

lemma bindr_Inr_conv: "bindr m f = Inr y \<longleftrightarrow> (\<exists>x. m = Inr x \<and> f x = Inr y)"
  by (cases m) auto

lemma bindr_Inl_conv: "bindr m f = Inl e \<longleftrightarrow> m = Inl e \<or> (\<exists>x. m = Inr x \<and> f x = Inl e)"
  by (cases m) auto

text \<open>Mapping a fallible function over a slice, stopping at the first error.\<close>

fun mapr :: "('a \<Rightarrow> 'e + 'b) \<Rightarrow> 'a list \<Rightarrow> 'e + 'b list" where
  "mapr f [] = Inr []"
| "mapr f (x # xs) =
     (case f x of Inl e \<Rightarrow> Inl e
      | Inr y \<Rightarrow> (case mapr f xs of Inl e \<Rightarrow> Inl e | Inr ys \<Rightarrow> Inr (y # ys)))"

lemma mapr_Inr_iff:
  "mapr f xs = Inr ys \<longleftrightarrow> list_all2 (\<lambda>x y. f x = Inr y) xs ys"
proof (induction xs arbitrary: ys)
  case (Cons x xs)
  show ?case
  proof (cases "f x")
    case (Inr y)
    then show ?thesis
      by (cases "mapr f xs"; cases ys) (auto simp flip: Cons.IH)
  qed (cases ys; simp)
qed auto

lemma mapr_length: "mapr f xs = Inr ys \<Longrightarrow> length ys = length xs"
  by (auto simp: mapr_Inr_iff dest: list_all2_lengthD)

lemma mapr_all_Inr: "(\<And>x. x \<in> set xs \<Longrightarrow> f x = Inr (g x)) \<Longrightarrow> mapr f xs = Inr (map g xs)"
  by (induction xs) auto

lemma mapr_Inr_map:
  "mapr f xs = Inr ys \<longleftrightarrow> (\<forall>x \<in> set xs. \<exists>y. f x = Inr y) \<and> ys = map (\<lambda>x. projr (f x)) xs"
proof (induction xs arbitrary: ys)
  case (Cons x xs)
  then show ?case by (cases "f x"; cases "mapr f xs") auto
qed auto

lemma mapr_permutation:
  assumes "mapr f xs = Inr ys" and "mset xs' = mset xs"
  shows "\<exists>ys'. mapr f xs' = Inr ys' \<and> mset ys' = mset ys"
proof -
  have "set xs' = set xs" using assms(2) by (metis set_mset_mset)
  then show ?thesis using assms unfolding mapr_Inr_map by (simp add: mset_map)
qed

text \<open>Folding a fallible step over a slice, stopping at the first error.\<close>

fun foldr_err :: "('s \<Rightarrow> 'a \<Rightarrow> 'e + 's) \<Rightarrow> 's \<Rightarrow> 'a list \<Rightarrow> 'e + 's" where
  "foldr_err f s [] = Inr s"
| "foldr_err f s (x # xs) = (case f s x of Inl e \<Rightarrow> Inl e | Inr s' \<Rightarrow> foldr_err f s' xs)"

lemma foldr_err_append:
  "foldr_err f s (xs @ ys) = bindr (foldr_err f s xs) (\<lambda>t. foldr_err f t ys)"
  by (induction xs arbitrary: s) (auto split: sum.splits)

lemma foldr_err_snoc: "foldr_err f s (xs @ [x]) = bindr (foldr_err f s xs) (\<lambda>t. f t x)"
  by (cases "foldr_err f s xs") (simp_all add: foldr_err_append split: sum.splits)

lemma foldr_err_inv:
  assumes "foldr_err f s xs = Inr t" and "P s"
    and "\<And>s x s'. x \<in> set xs \<Longrightarrow> P s \<Longrightarrow> f s x = Inr s' \<Longrightarrow> P s'"
  shows "P t"
  using assms
proof (induction xs arbitrary: s)
  case (Cons x xs)
  then obtain s' where s': "f s x = Inr s'" "foldr_err f s' xs = Inr t"
    by (auto split: sum.splits)
  have "P s'" using Cons.prems(2,3) s'(1) by auto
  then show ?case using Cons.IH [OF s'(2)] Cons.prems(3) by (meson list.set_intros(2))
qed simp

lemma foldr_err_decoded:
  assumes "mapr g xs = Inr ys"
  shows "foldr_err (\<lambda>s x. bindr (g x) (h s)) s xs = foldr_err h s ys"
  using assms
proof (induction xs arbitrary: ys s)
  case (Cons x xs)
  then obtain y zs where "g x = Inr y" "mapr g xs = Inr zs" "ys = y # zs"
    by (auto split: sum.splits)
  then show ?case using Cons.IH by (auto split: sum.splits)
qed simp

lemma foldr_err_total: "foldr_err (\<lambda>s x. Inr (f s x)) s xs = Inr (foldl f s xs)"
  by (induction xs arbitrary: s) auto

lemma foldr_err_undecoded:
  assumes "mapr g xs = Inl e"
  shows "\<exists>e. foldr_err (\<lambda>s x. bindr (g x) (h s)) s xs = Inl e"
  using assms
proof (induction xs arbitrary: s)
  case (Cons x xs)
  then show ?case
    by (cases "g x"; cases "mapr g xs") (auto split: sum.splits)
qed simp

subsection \<open>Association lists\<close>

lemma fold_delete: "fold AList.delete ks w = filter (\<lambda>(k, v). k \<notin> set ks) w"
proof (induction ks arbitrary: w)
  case (Cons k ks)
  have "AList.delete k w = filter (\<lambda>(k', v). k' \<noteq> k) w"
    by (auto simp: AList.delete_eq case_prod_beta' intro: filter_cong)
  then show ?case using Cons by (simp add: case_prod_beta' conj_commute)
qed (simp add: case_prod_beta')

lemma fold_delete_by: "fold (\<lambda>m w. AList.delete (f m) w) ms w = fold AList.delete (map f ms) w"
  by (induction ms arbitrary: w) auto

lemma mset_delete:
  assumes "distinct (map fst w)" and "map_of w k = Some v"
  shows "mset w = add_mset (k, v) (mset (AList.delete k w))"
  using assms
proof (induction w)
  case (Cons p w)
  obtain k' v' where p: "p = (k', v')" by (cases p)
  show ?case
  proof (cases "k' = k")
    case True
    then have "AList.delete k w = w" using Cons.prems p by (force simp: delete_id)
    then show ?thesis using True Cons.prems p by simp
  next
    case False
    then show ?thesis using Cons p by simp
  qed
qed simp

lemma mset_update:
  assumes "distinct (map fst w)" and "map_of w k = Some v"
  shows "mset (AList.update k v' w) = add_mset (k, v') (mset (AList.delete k w))"
  using assms
proof (induction w)
  case (Cons p w)
  obtain k1 v1 where p: "p = (k1, v1)" by (cases p)
  show ?case
  proof (cases "k1 = k")
    case True
    then have "AList.delete k w = w" using Cons.prems p by (force simp: delete_id)
    then show ?thesis using True Cons.prems p by simp
  next
    case False
    then show ?thesis using Cons p by simp
  qed
qed simp

lemma update_fresh: "k \<notin> fst ` set w \<Longrightarrow> AList.update k v w = w @ [(k, v)]"
  by (induction w) auto

lemma map_of_SomeD_fst: "map_of w k = Some v \<Longrightarrow> k \<in> fst ` set w"
  by (metis domI dom_map_of_conv_image_fst)

lemma distinct_fst_filter: "distinct (map fst w) \<Longrightarrow> distinct (map fst (filter P w))"
  by (induction w) auto

lemma map_of_filter_fst:
  "map_of (filter (\<lambda>(k, v). P k) w) k = (if P k then map_of w k else None)"
  by (induction w) auto

lemma distinct_iff_count_le: "distinct xs \<longleftrightarrow> (\<forall>a. count (mset xs) a \<le> 1)"
proof -
  have "count (mset xs) a = (if a \<in> set xs then 1 else 0) \<longleftrightarrow> count (mset xs) a \<le> 1" for a
  proof (cases "a \<in> set xs")
    case True
    then have "0 < count (mset xs) a" by (simp only: count_greater_zero_iff set_mset_mset)
    then show ?thesis using True by (metis One_nat_def Suc_leI le_antisym order_refl)
  next
    case False
    then have "count (mset xs) a = 0" by (metis count_eq_zero_iff set_mset_mset)
    then show ?thesis using False by (metis le0)
  qed
  then show ?thesis unfolding distinct_count_atmost_1 by simp
qed

lemma distinct_submset: "distinct ys \<Longrightarrow> mset xs \<subseteq># mset ys \<Longrightarrow> distinct xs"
  unfolding distinct_iff_count_le by (meson mset_subset_eq_count order_trans)

lemma image_mset_split:
  "image_mset f (mset xs) =
     image_mset f (mset (filter (\<lambda>x. \<not> P x) xs)) + image_mset f (mset (filter P xs))"
  by (induction xs) auto

lemma count_union_two: "x \<in># A \<Longrightarrow> x \<in># B \<Longrightarrow> 1 < count (A + B) x"
proof -
  assume "x \<in># A" "x \<in># B"
  then have "0 < count A x" "0 < count B x" by (simp_all only: count_greater_zero_iff)
  then show ?thesis unfolding count_union by linarith
qed

end
