(* ===== verification/Go_Sort.thy ===== *)
theory Go_Sort
  imports Prelude
begin

text \<open>
  The function slices.SortFunc of the Go library, which every component uses to order its
  slices, and the contract of the comparator passed to it as a locale. The library sorts in
  place and promises an ascending permutation when the comparator is a strict weak order; it
  leaves the order of equal elements open, and the model keeps them in their old order.
\<close>

fun insort_cmp :: "('a \<Rightarrow> 'a \<Rightarrow> int) \<Rightarrow> 'a \<Rightarrow> 'a list \<Rightarrow> 'a list" where
  "insort_cmp cmp x [] = [x]"
| "insort_cmp cmp x (y # ys) = (if cmp x y \<le> 0 then x # y # ys else y # insort_cmp cmp x ys)"

definition SortFunc :: "('a \<Rightarrow> 'a \<Rightarrow> int) \<Rightarrow> 'a list \<Rightarrow> 'a list" where
  "SortFunc cmp xs = foldr (insort_cmp cmp) xs []"

lemma mset_insort_cmp [simp]: "mset (insort_cmp cmp x xs) = add_mset x (mset xs)"
  by (induction xs) auto

lemma mset_SortFunc [simp]: "mset (SortFunc cmp xs) = mset xs"
  by (induction xs) (auto simp: SortFunc_def)

lemma set_SortFunc [simp]: "set (SortFunc cmp xs) = set xs"
  by (metis mset_SortFunc set_mset_mset)

lemma length_SortFunc [simp]: "length (SortFunc cmp xs) = length xs"
  by (metis mset_SortFunc size_mset)

lemma set_insort_cmp [simp]: "set (insort_cmp cmp x xs) = insert x (set xs)"
  by (induction xs) auto

lemma SortFunc_Nil [simp]: "SortFunc cmp [] = []"
  by (simp add: SortFunc_def)

lemma SortFunc_eq_Nil [simp]: "SortFunc cmp xs = [] \<longleftrightarrow> xs = []"
  by (metis length_0_conv length_SortFunc)

definition sorted_cmp :: "('a \<Rightarrow> 'a \<Rightarrow> int) \<Rightarrow> 'a list \<Rightarrow> bool" where
  "sorted_cmp cmp xs \<longleftrightarrow> sorted_wrt (\<lambda>x y. cmp x y \<le> 0) xs"

lemma sorted_cmp_Nil [simp]: "sorted_cmp cmp []"
  by (simp add: sorted_cmp_def)

lemma sorted_cmp_Cons:
  "sorted_cmp cmp (x # xs) \<longleftrightarrow> (\<forall>y \<in> set xs. cmp x y \<le> 0) \<and> sorted_cmp cmp xs"
  by (simp add: sorted_cmp_def)

lemma sorted_cmp_tl: "sorted_cmp cmp xs \<Longrightarrow> sorted_cmp cmp (tl xs)"
  by (cases xs) (auto simp: sorted_cmp_Cons)

lemma sorted_cmp_filter: "sorted_cmp cmp xs \<Longrightarrow> sorted_cmp cmp (filter P xs)"
  by (simp add: sorted_cmp_def sorted_wrt_filter)

text \<open>The contract of a comparator: a strict weak order given by the sign of the result.\<close>

locale comparator =
  fixes cmp :: "'a \<Rightarrow> 'a \<Rightarrow> int"
  assumes cmp_total: "0 < cmp x y \<Longrightarrow> cmp y x \<le> 0"
    and cmp_trans: "cmp x y \<le> 0 \<Longrightarrow> cmp y z \<le> 0 \<Longrightarrow> cmp x z \<le> 0"
begin

lemma sorted_insort: "sorted_cmp cmp xs \<Longrightarrow> sorted_cmp cmp (insort_cmp cmp x xs)"
proof (induction xs)
  case (Cons y ys)
  show ?case
  proof (cases "cmp x y \<le> 0")
    case True
    with Cons.prems show ?thesis
      by (auto simp: sorted_cmp_Cons intro: cmp_trans)
  next
    case False
    then have "cmp y x \<le> 0" using cmp_total by simp
    with False Cons show ?thesis by (auto simp: sorted_cmp_Cons)
  qed
qed (simp add: sorted_cmp_Cons)

lemma sorted_SortFunc: "sorted_cmp cmp (SortFunc cmp xs)"
  by (induction xs) (auto simp: SortFunc_def sorted_insort)

lemma cmp_refl: "cmp x x \<le> 0"
  using cmp_total [of x x] by linarith

lemma hd_least: "sorted_cmp cmp xs \<Longrightarrow> x \<in> set xs \<Longrightarrow> cmp (hd xs) x \<le> 0"
  by (cases xs) (auto simp: sorted_cmp_Cons intro: cmp_refl)

text \<open>Elements that compare equal are equal: then sorting has one possible outcome.\<close>

lemma sorted_unique:
  assumes "sorted_cmp cmp xs" and "sorted_cmp cmp ys" and "mset xs = mset ys"
    and "\<And>x y. x \<in> set xs \<Longrightarrow> y \<in> set xs \<Longrightarrow> cmp x y \<le> 0 \<Longrightarrow> cmp y x \<le> 0 \<Longrightarrow> x = y"
  shows "xs = ys"
  using assms
proof (induction xs arbitrary: ys)
  case (Cons x xs)
  then obtain y ys' where ys: "ys = y # ys'"
    by (cases ys) auto
  have sets: "set ys = set (x # xs)"
    using Cons.prems(3) by (metis set_mset_mset)
  have "cmp x y \<le> 0" using hd_least [OF Cons.prems(1), of y] sets ys by auto
  moreover have "cmp y x \<le> 0" using hd_least [OF Cons.prems(2), of x] sets ys by auto
  moreover have "y \<in> set (x # xs)" using sets ys by auto
  ultimately have "x = y" using Cons.prems(4) [of x y] by auto
  moreover from this have "xs = ys'"
    using Cons.prems ys by (intro Cons.IH) (auto simp: sorted_cmp_Cons)
  ultimately show ?case using ys by simp
qed simp

lemma SortFunc_permutation:
  assumes "mset xs = mset ys"
    and "\<And>x y. x \<in> set xs \<Longrightarrow> y \<in> set xs \<Longrightarrow> cmp x y \<le> 0 \<Longrightarrow> cmp y x \<le> 0 \<Longrightarrow> x = y"
  shows "SortFunc cmp xs = SortFunc cmp ys"
  by (rule sorted_unique) (use assms sorted_SortFunc in auto)

lemma SortFunc_sorted_id:
  assumes "sorted_cmp cmp xs"
  shows "SortFunc cmp xs = xs"
  using assms
proof (induction xs)
  case (Cons x xs)
  then have "SortFunc cmp xs = xs" by (simp add: sorted_cmp_Cons)
  then have "SortFunc cmp (x # xs) = insort_cmp cmp x xs" by (simp add: SortFunc_def)
  then show ?case using Cons.prems by (cases xs) (auto simp: sorted_cmp_Cons)
qed simp

end

text \<open>
  Most comparators order by a key: first component first. A comparator by a key into a linear
  order meets the contract, and so does its lexicographic refinement with cmp.Or.
\<close>

definition cmp_key :: "('a \<Rightarrow> 'k::linorder) \<Rightarrow> 'a \<Rightarrow> 'a \<Rightarrow> int" where
  "cmp_key k x y = (if k x < k y then -1 else if k y < k x then 1 else 0)"

interpretation key_cmp: comparator "cmp_key k" for k
  by unfold_locales (auto simp: cmp_key_def split: if_splits)

lemma cmp_key_le: "cmp_key k x y \<le> 0 \<longleftrightarrow> k x \<le> k y"
  by (auto simp: cmp_key_def)

lemma sorted_cmp_key: "sorted_cmp (cmp_key k) xs \<longleftrightarrow> sorted (map k xs)"
  by (induction xs) (auto simp: sorted_cmp_Cons cmp_key_le)

text \<open>cmp.Or: the first non-zero argument, else zero.\<close>

fun cmp_Or :: "int list \<Rightarrow> int" where
  "cmp_Or [] = 0"
| "cmp_Or (c # cs) = (if c \<noteq> 0 then c else cmp_Or cs)"

end
