(* ===== verification/Broker.thy ===== *)
theory Broker
  imports Go_Sort Go_Strings "HOL-Library.Sublist"
begin

text \<open>
  CapiMQ's in-memory message broker (pkg/capimq/message_broker.go): the queue Q, ordered by
  delivery time and id, the messages in progress Wip, and the operations that move messages
  between them. The clock is an argument (milliseconds) of every operation that reads it. The
  map Wip is an association list whose order is one iteration order of the Go map; a message
  pointer lives in one of the two heaps at a time, so the messages are values. Each method is
  the sequence of its critical sections (one per mutex), which the last section interleaves.
\<close>

subsection \<open>Data\<close>

record message =
  msg_Id :: string
  msg_Group :: string
  msg_Ts :: int
  msg_DeliverAfter :: int
  msg_Heartbeat :: int
  msg_ClaimComment :: string
  msg_Data :: string

record ext_message =
  ext_Id :: string
  ext_Group :: string
  ext_Data :: string

definition ToCapimqMessage :: "message \<Rightarrow> ext_message" where
  "ToCapimqMessage m = \<lparr>ext_Id = msg_Id m, ext_Group = msg_Group m, ext_Data = msg_Data m\<rparr>"

definition ToCapimqMessages :: "message list \<Rightarrow> ext_message list" where
  "ToCapimqMessages ms = map ToCapimqMessage ms"

definition DeliverEarlierThan :: "message \<Rightarrow> message \<Rightarrow> bool" where
  "DeliverEarlierThan m l =
     (if msg_DeliverAfter m \<noteq> msg_DeliverAfter l then msg_DeliverAfter m < msg_DeliverAfter l
      else msg_Id m < msg_Id l)"

datatype heap_type = HeapTypeQ | HeapTypeWip | HeapTypeUnknown

definition StringToHeapType :: "string \<Rightarrow> heap_type \<times> goerr option" where
  "StringToHeapType s =
     (if s = ''q'' then (HeapTypeQ, None)
      else if s = ''wip'' then (HeapTypeWip, None)
      else (HeapTypeUnknown, Some (''invalid heap type '' @ s)))"

datatype queue_read_type = QueueReadHead | QueueReadTail | QueueReadFilter | QueueReadUnknown

definition StringToQueueReadType :: "string \<Rightarrow> queue_read_type \<times> goerr option" where
  "StringToQueueReadType s =
     (if s = ''head'' then (QueueReadHead, None)
      else if s = ''tail'' then (QueueReadTail, None)
      else if s = ''filter'' then (QueueReadFilter, None)
      else (QueueReadUnknown, Some (''invalid head/tail '' @ s)))"

record broker =
  Q :: "message list"
  Wip :: "(string \<times> message) list"
  MaxMessages :: int

definition NewMessageBroker :: "int \<Rightarrow> broker" where
  "NewMessageBroker maxMessages = \<lparr>Q = [], Wip = [], MaxMessages = maxMessages\<rparr>"

subsection \<open>Operations\<close>

definition msg_cmp :: "message \<Rightarrow> message \<Rightarrow> int" where
  "msg_cmp l r =
     (if DeliverEarlierThan l r then -1 else if DeliverEarlierThan r l then 1 else 0)"

definition sortQ :: "broker \<Rightarrow> broker" where
  "sortQ mb = mb\<lparr>Q := SortFunc msg_cmp (Q mb)\<rparr>"

text \<open>ReturnDead: the section under WipMutex, then the section under QMutex.\<close>

definition dead_take_wip :: "int \<Rightarrow> broker \<Rightarrow> message list \<times> broker" where
  "dead_take_wip latest mb =
     (let msgs = map snd (filter (\<lambda>(k, m). msg_Heartbeat m < latest) (Wip mb))
      in (msgs, mb\<lparr>Wip := fold (\<lambda>m w. AList.delete (msg_Id m) w) msgs (Wip mb)\<rparr>))"

definition q_append_sort :: "message list \<Rightarrow> broker \<Rightarrow> broker" where
  "q_append_sort msgs mb = sortQ (mb\<lparr>Q := Q mb @ msgs\<rparr>)"

definition ReturnDead :: "int \<Rightarrow> int \<Rightarrow> broker \<Rightarrow> string list \<times> broker" where
  "ReturnDead now deadTimeoutMillis mb =
     (let latest = wrap64 (now - deadTimeoutMillis);
          (msgs, mb1) = dead_take_wip latest mb
      in if msgs = [] then ([], mb1)
         else (map (\<lambda>m. msg_Id m @ '' '' @ msg_Group m @ '' '' @
                        int_str (wrap64 (latest - msg_Heartbeat m))) msgs,
               q_append_sort msgs mb1))"

definition QBulk :: "int \<Rightarrow> message list \<Rightarrow> broker \<Rightarrow> goerr + broker" where
  "QBulk now msgs mb =
     (if int (length msgs) + int (length (Q mb)) > MaxMessages mb then Inl ''max_messages exceeded''
      else Inr (sortQ (mb\<lparr>Q := Q mb @
             map (\<lambda>m. m\<lparr>msg_Ts := now, msg_DeliverAfter := now, msg_Heartbeat := 0\<rparr>) msgs\<rparr>)))"

text \<open>Claim: the section under QMutex, then the section under WipMutex.\<close>

definition claim_take_q :: "int \<Rightarrow> broker \<Rightarrow> message option \<times> broker" where
  "claim_take_q now mb =
     (case Q mb of
        [] \<Rightarrow> (None, mb)
      | m # q \<Rightarrow> (if msg_DeliverAfter m > now then (None, mb) else (Some m, mb\<lparr>Q := q\<rparr>)))"

definition claim_stamp :: "int \<Rightarrow> string \<Rightarrow> message \<Rightarrow> message" where
  "claim_stamp now comment m = m\<lparr>msg_Heartbeat := now, msg_ClaimComment := comment\<rparr>"

definition claim_put_wip :: "message \<Rightarrow> broker \<Rightarrow> broker" where
  "claim_put_wip m mb = mb\<lparr>Wip := AList.update (msg_Id m) m (Wip mb)\<rparr>"

definition Claim :: "int \<Rightarrow> string \<Rightarrow> broker \<Rightarrow> message option \<times> broker" where
  "Claim now claimComment mb =
     (case claim_take_q now mb of
        (None, mb1) \<Rightarrow> (None, mb1)
      | (Some m, mb1) \<Rightarrow>
          (let m1 = claim_stamp now claimComment m in (Some m1, claim_put_wip m1 mb1)))"

definition Ack :: "string \<Rightarrow> broker \<Rightarrow> goerr + broker" where
  "Ack mid mb =
     (case map_of (Wip mb) mid of
        None \<Rightarrow> Inl ''cannot ack, message not found in wip''
      | Some _ \<Rightarrow> Inr (mb\<lparr>Wip := AList.delete mid (Wip mb)\<rparr>))"

definition Heartbeat :: "int \<Rightarrow> string \<Rightarrow> broker \<Rightarrow> goerr + broker" where
  "Heartbeat now mid mb =
     (case map_of (Wip mb) mid of
        None \<Rightarrow> Inl ''cannot heartbeat, message not found in wip''
      | Some m \<Rightarrow> Inr (mb\<lparr>Wip := AList.update mid (m\<lparr>msg_Heartbeat := now\<rparr>) (Wip mb)\<rparr>))"

text \<open>Return: the section under WipMutex, then the section under QMutex.\<close>

definition return_take_wip :: "string \<Rightarrow> broker \<Rightarrow> goerr + message \<times> broker" where
  "return_take_wip mid mb =
     (case map_of (Wip mb) mid of
        None \<Rightarrow> Inl ''cannot return, message not found in wip''
      | Some m \<Rightarrow> Inr (m\<lparr>msg_ClaimComment := ''''\<rparr>, mb\<lparr>Wip := AList.delete mid (Wip mb)\<rparr>))"

definition return_put_q :: "int \<Rightarrow> message \<Rightarrow> broker \<Rightarrow> broker" where
  "return_put_q newDeliverAfter m mb =
     (if length (msg_Group m) = 0 then
        mb\<lparr>Q := Q mb @ [m\<lparr>msg_DeliverAfter := newDeliverAfter\<rparr>]\<rparr>
      else sortQ (mb\<lparr>Q := map (\<lambda>x. if msg_Group x = msg_Group m
                                   then x\<lparr>msg_DeliverAfter := newDeliverAfter\<rparr> else x)
                            (Q mb @ [m])\<rparr>))"

definition Return :: "int \<Rightarrow> string \<Rightarrow> int \<Rightarrow> broker \<Rightarrow> goerr + broker" where
  "Return now mid delay mb =
     (case return_take_wip mid mb of
        Inl e \<Rightarrow> Inl e
      | Inr (m, mb1) \<Rightarrow> Inr (return_put_q (wrap64 (now + delay)) m mb1))"

definition group_matches :: "string \<Rightarrow> message \<Rightarrow> bool" where
  "group_matches p m \<longleftrightarrow> p = '''' \<or> HasPrefix (msg_Group m) p"

definition Count :: "heap_type \<Rightarrow> string \<Rightarrow> broker \<Rightarrow> nat" where
  "Count h p mb =
     (case h of
        HeapTypeQ \<Rightarrow> length (filter (group_matches p) (Q mb))
      | HeapTypeWip \<Rightarrow> length (filter (\<lambda>(k, m). group_matches p m) (Wip mb))
      | HeapTypeUnknown \<Rightarrow> 0)"

text \<open>The loop of Delete over the queue: after a removal at i the index still moves on.\<close>

function delete_q_loop :: "string \<Rightarrow> nat \<Rightarrow> nat \<Rightarrow> message list \<Rightarrow> nat \<times> message list" where
  "delete_q_loop p i cnt q =
     (if i < length q then
        (if group_matches p (q ! i)
         then delete_q_loop p (i + 1) (cnt + 1) (take i q @ drop (i + 1) q)
         else delete_q_loop p (i + 1) cnt q)
      else (cnt, q))"
  by pat_completeness auto
termination
  by (relation "measure (\<lambda>(p, i, cnt, q). length q - i)") auto

declare delete_q_loop.simps [simp del]

definition Delete :: "heap_type \<Rightarrow> string \<Rightarrow> broker \<Rightarrow> nat \<times> broker" where
  "Delete h p mb =
     (case h of
        HeapTypeQ \<Rightarrow> (let (cnt, q) = delete_q_loop p 0 0 (Q mb) in (cnt, mb\<lparr>Q := q\<rparr>))
      | HeapTypeWip \<Rightarrow>
          (let ids = map fst (filter (\<lambda>(k, m). group_matches p m) (Wip mb))
           in (length ids, mb\<lparr>Wip := fold AList.delete ids (Wip mb)\<rparr>))
      | HeapTypeUnknown \<Rightarrow> (0, mb))"

text \<open>The loop \<open>for range count\<close> of HeadTail: n iterations at most, from index i by inc.\<close>

fun head_tail_loop :: "nat \<Rightarrow> int \<Rightarrow> int \<Rightarrow> message list \<Rightarrow> message list" where
  "head_tail_loop 0 i inc q = []"
| "head_tail_loop (Suc n) i inc q =
     (if i < 0 \<or> i \<ge> int (length q) then [] else q ! nat i # head_tail_loop n (i + inc) inc q)"

definition head_tail_of :: "queue_read_type \<Rightarrow> int \<Rightarrow> int \<Rightarrow> message list \<Rightarrow> message list" where
  "head_tail_of r from cnt q =
     (if r = QueueReadTail then head_tail_loop (nat cnt) (int (length q) - 1 - from) (-1) q
      else head_tail_loop (nat cnt) from 1 q)"

definition HeadTail :: "heap_type \<Rightarrow> queue_read_type \<Rightarrow> int \<Rightarrow> int \<Rightarrow> broker \<Rightarrow> message list" where
  "HeadTail h r from cnt mb =
     (case h of
        HeapTypeQ \<Rightarrow> head_tail_of r from cnt (Q mb)
      | HeapTypeWip \<Rightarrow> head_tail_of r from cnt (SortFunc msg_cmp (map snd (Wip mb)))
      | HeapTypeUnknown \<Rightarrow> [])"

definition Filter :: "heap_type \<Rightarrow> string \<Rightarrow> broker \<Rightarrow> message list" where
  "Filter h p mb =
     (case h of
        HeapTypeQ \<Rightarrow>
          (if p \<noteq> '''' then filter (\<lambda>m. HasPrefix (msg_Group m) p) (Q mb) else [])
      | HeapTypeWip \<Rightarrow>
          (if p \<noteq> '''' then filter (\<lambda>m. HasPrefix (msg_Group m) p) (map snd (Wip mb)) else [])
      | HeapTypeUnknown \<Rightarrow> [])"

subsection \<open>The order of the queue\<close>

interpretation msg_order: comparator msg_cmp
  by unfold_locales (auto simp: msg_cmp_def DeliverEarlierThan_def split: if_splits)

lemma msg_cmp_le:
  "msg_cmp l r \<le> 0 \<longleftrightarrow>
     msg_DeliverAfter l < msg_DeliverAfter r \<or>
     msg_DeliverAfter l = msg_DeliverAfter r \<and> msg_Id l \<le> msg_Id r"
  by (auto simp: msg_cmp_def DeliverEarlierThan_def)

lemma msg_cmp_antisym: "msg_cmp l r \<le> 0 \<Longrightarrow> msg_cmp r l \<le> 0 \<Longrightarrow> msg_Id l = msg_Id r"
  by (auto simp: msg_cmp_le)

definition q_sorted :: "broker \<Rightarrow> bool" where
  "q_sorted mb \<longleftrightarrow> sorted_cmp msg_cmp (Q mb)"

lemma sortQ_sel [simp]:
  "Wip (sortQ mb) = Wip mb" "MaxMessages (sortQ mb) = MaxMessages mb"
  "mset (Q (sortQ mb)) = mset (Q mb)" "set (Q (sortQ mb)) = set (Q mb)"
  by (simp_all add: sortQ_def)

lemma q_sorted_sortQ [simp]: "q_sorted (sortQ mb)"
  by (simp add: q_sorted_def sortQ_def msg_order.sorted_SortFunc)

lemma q_sorted_update_wip [simp]: "q_sorted (mb\<lparr>Wip := w\<rparr>) = q_sorted mb"
  by (simp add: q_sorted_def)

subsection \<open>Well-formedness and conservation of messages\<close>

text \<open>
  Ids are unique over both heaps and the keys of Wip are the ids of its messages. The core of a
  message is what no operation on a queued message may change; the multiset of the cores of
  all messages held by the broker is what the movements conserve.
\<close>

definition wip_msgs :: "broker \<Rightarrow> message list" where
  "wip_msgs mb = map snd (Wip mb)"

definition wf_broker :: "broker \<Rightarrow> bool" where
  "wf_broker mb \<longleftrightarrow> (\<forall>p \<in> set (Wip mb). fst p = msg_Id (snd p)) \<and>
     distinct (map msg_Id (Q mb @ wip_msgs mb))"

definition msg_core :: "message \<Rightarrow> string \<times> string \<times> int \<times> string" where
  "msg_core m = (msg_Id m, msg_Group m, msg_Ts m, msg_Data m)"

definition held :: "broker \<Rightarrow> (string \<times> string \<times> int \<times> string) multiset" where
  "held mb = image_mset msg_core (mset (Q mb) + mset (wip_msgs mb))"

lemma wf_brokerD:
  assumes "wf_broker mb"
  shows "distinct (map fst (Wip mb))"
    and "distinct (map msg_Id (Q mb))"
    and "p \<in> set (Wip mb) \<Longrightarrow> fst p = msg_Id (snd p)"
proof -
  have "map fst (Wip mb) = map msg_Id (wip_msgs mb)"
    using assms by (simp add: wf_broker_def wip_msgs_def)
  then show "distinct (map fst (Wip mb))" using assms by (simp add: wf_broker_def)
qed (use assms in \<open>auto simp: wf_broker_def\<close>)

lemma wf_broker_key: "wf_broker mb \<Longrightarrow> map_of (Wip mb) k = Some m \<Longrightarrow> msg_Id m = k"
  by (auto simp: wf_broker_def dest!: map_of_SomeD)

text \<open>Ids are part of the core: a broker that holds no more cores is again well formed.\<close>

lemma image_fst_held: "image_mset fst (held mb) = mset (map msg_Id (Q mb @ wip_msgs mb))"
  by (simp add: held_def msg_core_def multiset.map_comp comp_def)

lemma wf_broker_transfer:
  assumes "wf_broker mb" and "held mb' \<subseteq># held mb"
    and "\<And>p. p \<in> set (Wip mb') \<Longrightarrow> fst p = msg_Id (snd p)"
  shows "wf_broker mb'"
proof -
  have "image_mset fst (held mb') \<subseteq># image_mset fst (held mb)"
    using assms(2) by (rule image_mset_subseteq_mono)
  then have "distinct (map msg_Id (Q mb' @ wip_msgs mb'))"
    using assms(1) unfolding wf_broker_def image_fst_held by (blast intro: distinct_submset)
  then show ?thesis using assms(3) by (simp add: wf_broker_def)
qed

text \<open>The effect of each critical section on what is held.\<close>

lemma held_sortQ [simp]: "held (sortQ mb) = held mb"
  by (simp add: held_def wip_msgs_def)

lemma held_q_update: "held (mb\<lparr>Q := q\<rparr>) + image_mset msg_core (mset (Q mb)) =
    held mb + image_mset msg_core (mset q)"
  by (simp add: held_def wip_msgs_def ac_simps)

lemma msg_core_upd [simp]:
  "msg_core (m\<lparr>msg_DeliverAfter := a\<rparr>) = msg_core m"
  "msg_core (m\<lparr>msg_Heartbeat := h\<rparr>) = msg_core m"
  "msg_core (m\<lparr>msg_ClaimComment := c\<rparr>) = msg_core m"
  "msg_core (claim_stamp now c m) = msg_core m"
  by (simp_all add: msg_core_def claim_stamp_def)

lemma held_wip_delete:
  assumes "distinct (map fst (Wip mb))" and "map_of (Wip mb) k = Some m"
  shows "held mb = add_mset (msg_core m) (held (mb\<lparr>Wip := AList.delete k (Wip mb)\<rparr>))"
proof -
  have "mset (wip_msgs mb) = add_mset m (image_mset snd (mset (AList.delete k (Wip mb))))"
    using mset_delete [OF assms] by (simp add: wip_msgs_def)
  then show ?thesis by (simp add: held_def wip_msgs_def)
qed

lemma held_wip_update:
  assumes "distinct (map fst (Wip mb))" and "map_of (Wip mb) k = Some m"
    and "msg_core m' = msg_core m"
  shows "held (mb\<lparr>Wip := AList.update k m' (Wip mb)\<rparr>) = held mb"
  using mset_delete [OF assms(1,2)] mset_update [OF assms(1,2), of m'] assms(3)
  by (simp add: held_def wip_msgs_def)

lemma held_dead_take_wip:
  assumes "wf_broker mb" and "dead_take_wip latest mb = (msgs, mb')"
  shows "held mb = held mb' + image_mset msg_core (mset msgs)"
    and "Wip mb' = filter (\<lambda>(k, m). \<not> msg_Heartbeat m < latest) (Wip mb)"
    and "msgs = map snd (filter (\<lambda>(k, m). msg_Heartbeat m < latest) (Wip mb))"
    and "Q mb' = Q mb" "MaxMessages mb' = MaxMessages mb"
proof -
  let ?P = "\<lambda>(k, m). msg_Heartbeat m < latest" and ?W = "Wip mb"
  have msgs: "msgs = map snd (filter ?P ?W)"
    and mb': "mb' = mb\<lparr>Wip := fold (\<lambda>m w. AList.delete (msg_Id m) w) msgs ?W\<rparr>"
    using assms(2) by (auto simp: dead_take_wip_def Let_def)
  have keys: "map msg_Id msgs = map fst (filter ?P ?W)"
    using assms(1) by (auto simp: msgs wf_broker_def)
  have inj: "fst p \<in> fst ` set (filter ?P ?W) \<longleftrightarrow> ?P p" if "p \<in> set ?W" for p
    using wf_brokerD(1) [OF assms(1)] that by (force dest: eq_key_imp_eq_value)
  have "fold (\<lambda>m w. AList.delete (msg_Id m) w) msgs ?W =
      filter (\<lambda>(k, v). k \<notin> set (map fst (filter ?P ?W))) ?W"
    using fold_delete_by [of msg_Id msgs ?W] fold_delete [of "map fst (filter ?P ?W)" ?W]
    unfolding keys by (rule trans)
  also have "\<dots> = filter (\<lambda>p. \<not> ?P p) ?W"
    by (rule filter_cong [OF refl]) (use inj in \<open>auto simp: case_prod_beta'\<close>)
  finally have w: "Wip mb' = filter (\<lambda>p. \<not> ?P p) ?W" by (simp add: mb')
  then show "Wip mb' = filter (\<lambda>(k, m). \<not> msg_Heartbeat m < latest) ?W"
    by (simp add: case_prod_beta')
  have "image_mset (msg_core \<circ> snd) (mset ?W) =
      image_mset (msg_core \<circ> snd) (mset (Wip mb')) + image_mset msg_core (mset msgs)"
    unfolding w msgs using image_mset_split [of "msg_core \<circ> snd" ?W ?P]
    by (simp add: multiset.map_comp)
  then show "held mb = held mb' + image_mset msg_core (mset msgs)"
    by (simp add: held_def wip_msgs_def mb' multiset.map_comp)
qed (use assms(2) in \<open>auto simp: dead_take_wip_def Let_def\<close>)

lemma wip_delete_wf:
  assumes "wf_broker mb"
  shows "p \<in> set (AList.delete k (Wip mb)) \<Longrightarrow> fst p = msg_Id (snd p)"
  using assms by (auto simp: AList.delete_eq wf_broker_def)

lemma wip_update_wf:
  assumes "wf_broker mb" and "msg_Id m = k"
    and "p \<in> set (AList.update k m (Wip mb))"
  shows "fst p = msg_Id (snd p)"
proof -
  have "distinct (map fst (AList.update k m (Wip mb)))"
    by (rule distinct_update [OF wf_brokerD(1) [OF assms(1)]])
  then have "map_of (AList.update k m (Wip mb)) (fst p) = Some (snd p)"
    using assms(3) by (metis map_of_is_SomeI prod.collapse)
  then show ?thesis
    using assms(2) wf_broker_key [OF assms(1), of "fst p" "snd p"]
    by (auto simp: update_conv split: if_splits)
qed

lemma Claim_SomeD:
  assumes "Claim now c mb = (Some m', mb')"
  obtains m q where "Q mb = m # q" "msg_DeliverAfter m \<le> now" "m' = claim_stamp now c m"
    "mb' = mb\<lparr>Q := q, Wip := AList.update (msg_Id m) m' (Wip mb)\<rparr>"
  using assms
  by (auto simp: Claim_def claim_take_q_def claim_put_wip_def claim_stamp_def Let_def
      split: list.splits if_splits)

lemma Claim_None: "Claim now c mb = (None, mb') \<Longrightarrow> mb' = mb"
  by (auto simp: Claim_def claim_take_q_def Let_def split: list.splits if_splits)

lemma held_put_wip:
  assumes "msg_Id m \<notin> fst ` set (Wip mb)"
  shows "held (claim_put_wip m mb) = add_mset (msg_core m) (held mb)"
  using assms by (simp add: claim_put_wip_def held_def wip_msgs_def update_fresh)

lemma Claim_wf_held:
  assumes wf: "wf_broker mb" and c: "Claim now c mb = (r, mb')"
  shows "wf_broker mb' \<and> held mb' = held mb"
proof (cases r)
  case None
  then show ?thesis using assms Claim_None by blast
next
  case (Some m')
  with c obtain m q where Q: "Q mb = m # q" and m': "m' = claim_stamp now c m"
    and mb': "mb' = mb\<lparr>Q := q, Wip := AList.update (msg_Id m) m' (Wip mb)\<rparr>"
    by (metis Claim_SomeD)
  have mid: "msg_Id m' = msg_Id m" by (simp add: m' claim_stamp_def)
  have fresh: "msg_Id m \<notin> fst ` set (Wip mb)"
    using wf Q by (force simp: wf_broker_def wip_msgs_def)
  have h: "held mb' = held mb"
    using fresh by (simp add: mb' held_def wip_msgs_def update_fresh Q m')
  have "wf_broker mb'"
    by (rule wf_broker_transfer [OF wf])
      (use wip_update_wf [OF wf mid] h mb' in auto)
  with h show ?thesis by simp
qed

lemma Ack_wf_held:
  assumes wf: "wf_broker mb" and a: "Ack k mb = Inr mb'"
  obtains m where "map_of (Wip mb) k = Some m" "wf_broker mb'"
    "held mb = add_mset (msg_core m) (held mb')"
    "mb' = mb\<lparr>Wip := AList.delete k (Wip mb)\<rparr>"
proof -
  from a obtain m where m: "map_of (Wip mb) k = Some m"
    and mb': "mb' = mb\<lparr>Wip := AList.delete k (Wip mb)\<rparr>"
    by (auto simp: Ack_def split: option.splits)
  have h: "held mb = add_mset (msg_core m) (held mb')"
    using held_wip_delete [OF wf_brokerD(1) [OF wf] m] by (simp add: mb')
  have sub: "held mb' \<subseteq># held mb" by (simp add: h)
  have "Wip mb' = AList.delete k (Wip mb)" by (simp add: mb')
  then have "wf_broker mb'"
    using wip_delete_wf [OF wf, of _ k] by (intro wf_broker_transfer [OF wf sub]) metis
  with that m h mb' show thesis by blast
qed

lemma Heartbeat_wf_held:
  assumes wf: "wf_broker mb" and a: "Heartbeat now k mb = Inr mb'"
  shows "wf_broker mb' \<and> held mb' = held mb \<and> Q mb' = Q mb"
proof -
  from a obtain m where m: "map_of (Wip mb) k = Some m"
    and mb': "mb' = mb\<lparr>Wip := AList.update k (m\<lparr>msg_Heartbeat := now\<rparr>) (Wip mb)\<rparr>"
    by (auto simp: Heartbeat_def split: option.splits)
  have h: "held mb' = held mb"
    unfolding mb' by (rule held_wip_update [OF wf_brokerD(1) [OF wf] m]) simp
  have "wf_broker mb'"
    by (rule wf_broker_transfer [OF wf])
      (use wip_update_wf [OF wf, of "m\<lparr>msg_Heartbeat := now\<rparr>" k] wf_broker_key [OF wf m] h mb'
        in auto)
  with h show ?thesis by (simp add: mb')
qed

lemma held_return_put_q: "held (return_put_q t m mb) = add_mset (msg_core m) (held mb)"
proof -
  have "image_mset (\<lambda>x. msg_core (if P x then x\<lparr>msg_DeliverAfter := t\<rparr> else x)) M =
      image_mset msg_core M" for P M
    by (rule image_mset_cong) auto
  then show ?thesis
    by (simp add: return_put_q_def held_def wip_msgs_def multiset.map_comp comp_def)
qed

lemma Return_wf_held:
  assumes wf: "wf_broker mb" and a: "Return now k delay mb = Inr mb'"
  shows "wf_broker mb' \<and> held mb' = held mb \<and> Wip mb' = AList.delete k (Wip mb)"
proof -
  from a obtain m where m: "map_of (Wip mb) k = Some m"
    and mb': "mb' = return_put_q (wrap64 (now + delay)) (m\<lparr>msg_ClaimComment := ''''\<rparr>)
      (mb\<lparr>Wip := AList.delete k (Wip mb)\<rparr>)"
    by (auto simp: Return_def return_take_wip_def split: option.splits)
  have h: "held mb' = held mb"
    using held_wip_delete [OF wf_brokerD(1) [OF wf] m] by (simp add: mb' held_return_put_q)
  have w: "Wip mb' = AList.delete k (Wip mb)"
    by (simp add: mb' return_put_q_def)
  have sub: "held mb' \<subseteq># held mb" by (simp add: h)
  have "wf_broker mb'"
    using wip_delete_wf [OF wf, of _ k] w by (intro wf_broker_transfer [OF wf sub]) metis
  with h w show ?thesis by simp
qed

lemma held_q_append_sort: "held (q_append_sort ms mb) = held mb + image_mset msg_core (mset ms)"
  by (simp add: q_append_sort_def held_def wip_msgs_def)

lemma ReturnDead_wf_held:
  assumes wf: "wf_broker mb" and a: "ReturnDead now dead mb = (descs, mb')"
  shows "wf_broker mb' \<and> held mb' = held mb"
proof -
  let ?l = "wrap64 (now - dead)"
  obtain msgs mb1 where d: "dead_take_wip ?l mb = (msgs, mb1)" by force
  have mb': "mb' = (if msgs = [] then mb1 else q_append_sort msgs mb1)"
    using a by (auto simp: ReturnDead_def d Let_def split: if_splits)
  have h: "held mb' = held mb"
    using held_dead_take_wip(1) [OF wf d] by (simp add: mb' held_q_append_sort)
  have "Wip mb' = filter (\<lambda>(k, m). \<not> msg_Heartbeat m < ?l) (Wip mb)"
    using held_dead_take_wip(2) [OF wf d] by (simp add: mb' q_append_sort_def)
  then have "wf_broker mb'"
    using wf h by (intro wf_broker_transfer [OF wf]) (auto simp: wf_broker_def)
  with h show ?thesis by simp
qed

lemma QBulk_wf_held:
  assumes wf: "wf_broker mb" and a: "QBulk now msgs mb = Inr mb'"
    and fresh: "distinct (map msg_Id msgs)"
      "set (map msg_Id msgs) \<inter> set (map msg_Id (Q mb @ wip_msgs mb)) = {}"
  shows "wf_broker mb'"
    and "held mb' = held mb + image_mset (\<lambda>m. msg_core (m\<lparr>msg_Ts := now\<rparr>)) (mset msgs)"
proof -
  let ?st = "\<lambda>m. m\<lparr>msg_Ts := now, msg_DeliverAfter := now, msg_Heartbeat := 0\<rparr>"
  have mb': "mb' = sortQ (mb\<lparr>Q := Q mb @ map ?st msgs\<rparr>)"
    using a by (auto simp: QBulk_def split: if_splits)
  show "held mb' = held mb + image_mset (\<lambda>m. msg_core (m\<lparr>msg_Ts := now\<rparr>)) (mset msgs)"
    by (simp add: mb' held_def wip_msgs_def multiset.map_comp comp_def msg_core_def)
  have "distinct (map msg_Id (Q mb @ map ?st msgs @ wip_msgs mb))"
    using wf fresh by (auto simp: wf_broker_def comp_def)
  moreover have "mset (map msg_Id (Q mb' @ wip_msgs mb')) =
      mset (map msg_Id (Q mb @ map ?st msgs @ wip_msgs mb))"
    by (simp add: mb' wip_msgs_def multiset.map_comp)
  ultimately have "distinct (map msg_Id (Q mb' @ wip_msgs mb'))"
    by (metis distinct_submset subset_mset.order_refl)
  then show "wf_broker mb'" using wf by (simp add: wf_broker_def mb')
qed

subsection \<open>Order of delivery\<close>

lemma q_sorted_QBulk: "QBulk now msgs mb = Inr mb' \<Longrightarrow> q_sorted mb'"
  by (auto simp: QBulk_def split: if_splits)

lemma q_sorted_Claim: "q_sorted mb \<Longrightarrow> Claim now c mb = (r, mb') \<Longrightarrow> q_sorted mb'"
  by (auto simp: Claim_def claim_take_q_def claim_put_wip_def q_sorted_def sorted_cmp_Cons Let_def
      split: list.splits if_splits)

lemma q_sorted_ReturnDead: "q_sorted mb \<Longrightarrow> ReturnDead now d mb = (r, mb') \<Longrightarrow> q_sorted mb'"
  by (auto simp: ReturnDead_def dead_take_wip_def q_append_sort_def Let_def split: if_splits)

lemma q_sorted_Return:
  assumes "Return now k delay mb = Inr mb'" and "map_of (Wip mb) k = Some m" and "msg_Group m \<noteq> ''''"
  shows "q_sorted mb'"
  using assms by (auto simp: Return_def return_take_wip_def return_put_q_def)

subsection \<open>Deletion by group prefix\<close>

text \<open>What the index loop does to the queue: a removal also skips the next message.\<close>

fun delete_skip :: "string \<Rightarrow> message list \<Rightarrow> message list" where
  "delete_skip p [] = []"
| "delete_skip p [m] = (if group_matches p m then [] else [m])"
| "delete_skip p (m # x # q) =
     (if group_matches p m then x # delete_skip p q else m # delete_skip p (x # q))"

lemma delete_q_loop_skip:
  "delete_q_loop p (length a) n (a @ q) = (n + (length q - length (delete_skip p q)), a @ delete_skip p q)
   \<and> length (delete_skip p q) \<le> length q"
proof (induction p q arbitrary: a n rule: delete_skip.induct)
  case (1 p)
  then show ?case by (simp add: delete_q_loop.simps)
next
  case (2 p m)
  then show ?case
    by (simp add: delete_q_loop.simps [of p "length a" n "a @ [m]"]
        delete_q_loop.simps [of p "Suc (length a)" _ _])
next
  case (3 p m x q)
  show ?case
  proof (cases "group_matches p m")
    case True
    have "delete_q_loop p (length a) n (a @ m # x # q) =
        delete_q_loop p (length (a @ [x])) (n + 1) ((a @ [x]) @ q)"
      using True by (simp add: delete_q_loop.simps [of p "length a" n "a @ m # x # q"])
    then show ?thesis using "3.IH"(1) [OF True, of "a @ [x]" "n + 1"] True
      by (simp add: Suc_diff_le)
  next
    case False
    have "delete_q_loop p (length a) n (a @ m # x # q) =
        delete_q_loop p (length (a @ [m])) n ((a @ [m]) @ x # q)"
      using False by (simp add: delete_q_loop.simps [of p "length a" n "a @ m # x # q"])
    then show ?thesis using "3.IH"(2) [OF False, of "a @ [m]" n] False
      by (simp add: Suc_diff_le)
  qed
qed

lemma Delete_q:
  "Delete HeapTypeQ p mb =
     (length (Q mb) - length (delete_skip p (Q mb)), mb\<lparr>Q := delete_skip p (Q mb)\<rparr>)"
  using delete_q_loop_skip [of p "[]" 0 "Q mb"] by (simp add: Delete_def)

lemma subseq_delete_skip: "subseq (delete_skip p q) q"
  by (induction p q rule: delete_skip.induct) auto

lemma delete_skip_unmatched: "m \<in> set q \<Longrightarrow> \<not> group_matches p m \<Longrightarrow> m \<in> set (delete_skip p q)"
  by (induction p q rule: delete_skip.induct) auto

lemma subseq_set_le: "subseq xs ys \<Longrightarrow> set xs \<subseteq> set ys"
  by (induction rule: list_emb.induct) auto

lemma subseq_mset: "subseq xs ys \<Longrightarrow> mset xs \<subseteq># mset ys"
  by (induction rule: list_emb.induct) (auto intro: subset_mset.order_trans)

lemma sorted_wrt_subseq: "subseq xs ys \<Longrightarrow> sorted_wrt R ys \<Longrightarrow> sorted_wrt R xs"
  by (induction rule: list_emb.induct) (auto dest: subseq_set_le)

lemma q_sorted_Delete: "q_sorted mb \<Longrightarrow> Delete h p mb = (n, mb') \<Longrightarrow> q_sorted mb'"
proof (cases h)
  case HeapTypeQ
  assume "q_sorted mb" "Delete h p mb = (n, mb')"
  then show ?thesis using HeapTypeQ
    by (auto simp: Delete_q q_sorted_def sorted_cmp_def intro: sorted_wrt_subseq [OF subseq_delete_skip])
qed (auto simp: Delete_def Let_def)

subsection \<open>The properties\<close>

text \<open>C2: on an ordered queue Claim finds nothing exactly when no message is due, and otherwise
  moves the message that comes first in delivery order to Wip, stamped with the time and the
  comment of the claim; the rest of the queue stays as it is.\<close>

theorem claim_delivers_earliest:
  assumes "q_sorted mb" and "Claim now c mb = (r, mb')"
  shows "(r = None \<longleftrightarrow> (\<forall>m \<in> set (Q mb). now < msg_DeliverAfter m)) \<and>
    (\<forall>m'. r = Some m' \<longrightarrow> (\<exists>m \<in> set (Q mb). m' = claim_stamp now c m \<and> msg_DeliverAfter m \<le> now \<and>
       (\<forall>x \<in> set (Q mb). msg_cmp m x \<le> 0) \<and> Q mb = m # Q mb' \<and>
       map_of (Wip mb') (msg_Id m) = Some m'))"
proof -
  have least: "msg_cmp (hd (Q mb)) x \<le> 0" if "x \<in> set (Q mb)" for x
    using msg_order.hd_least assms(1) that by (simp add: q_sorted_def)
  have none: "r = None \<longleftrightarrow> (\<forall>m \<in> set (Q mb). now < msg_DeliverAfter m)"
  proof (cases "Q mb")
    case Nil
    then show ?thesis using assms(2) by (auto simp: Claim_def claim_take_q_def)
  next
    case (Cons m q)
    then have "\<forall>x \<in> set (Q mb). msg_DeliverAfter m \<le> msg_DeliverAfter x"
      using least by (fastforce simp: msg_cmp_le)
    moreover have "r = None \<longleftrightarrow> now < msg_DeliverAfter m"
      using assms(2) Cons by (auto simp: Claim_def claim_take_q_def Let_def split: if_splits)
    ultimately show ?thesis using Cons by auto
  qed
  have "\<exists>m \<in> set (Q mb). m' = claim_stamp now c m \<and> msg_DeliverAfter m \<le> now \<and>
       (\<forall>x \<in> set (Q mb). msg_cmp m x \<le> 0) \<and> Q mb = m # Q mb' \<and>
       map_of (Wip mb') (msg_Id m) = Some m'" if "r = Some m'" for m'
    using assms(2) that least by (auto elim!: Claim_SomeD simp: update_conv)
  with none show ?thesis by blast
qed

definition ex_msg :: "string \<Rightarrow> string \<Rightarrow> int \<Rightarrow> message" where
  "ex_msg i g t = \<lparr>msg_Id = i, msg_Group = g, msg_Ts = t, msg_DeliverAfter = t, msg_Heartbeat = 0,
     msg_ClaimComment = '''', msg_Data = ''''\<rparr>"

definition ex_broker :: "message list \<Rightarrow> message list \<Rightarrow> broker" where
  "ex_broker q w = \<lparr>Q = q, Wip = map (\<lambda>m. (msg_Id m, m)) w, MaxMessages = 10\<rparr>"

theorem claim_delivers_earliest_witness:
  "\<exists>m' mb'. Claim 6 ''w'' (ex_broker [ex_msg ''a'' ''g'' 5, ex_msg ''b'' ''g'' 7] []) = (Some m', mb') \<and>
     Q mb' = [ex_msg ''b'' ''g'' 7]"
proof -
  let ?mb = "ex_broker [ex_msg ''a'' ''g'' 5, ex_msg ''b'' ''g'' 7] []"
  have s: "q_sorted ?mb"
    by (simp add: q_sorted_def ex_broker_def ex_msg_def sorted_cmp_Cons msg_cmp_le)
  obtain r mb' where c: "Claim 6 ''w'' ?mb = (r, mb')" by force
  note C = claim_delivers_earliest [OF s c]
  have "r \<noteq> None" using C by (simp add: ex_broker_def ex_msg_def)
  then obtain m' where "r = Some m'" by blast
  with C c show ?thesis by (auto simp: ex_broker_def)
qed


text \<open>C3: the delivery order of the queue is an invariant of every operation but the Return of a
  message without a wait-retry group.\<close>

theorem broker_operations_keep_order:
  assumes "q_sorted mb"
  shows "(\<forall>mb'. QBulk now msgs mb = Inr mb' \<longrightarrow> q_sorted mb') \<and>
    q_sorted (snd (Claim now c mb)) \<and> q_sorted (snd (ReturnDead now d mb)) \<and>
    (\<forall>mb'. Ack k mb = Inr mb' \<longrightarrow> q_sorted mb') \<and>
    (\<forall>mb'. Heartbeat now k mb = Inr mb' \<longrightarrow> q_sorted mb') \<and>
    q_sorted (snd (Delete h p mb)) \<and>
    (\<forall>m mb'. map_of (Wip mb) k = Some m \<longrightarrow> msg_Group m \<noteq> '''' \<longrightarrow>
       Return now k delay mb = Inr mb' \<longrightarrow> q_sorted mb')"
proof (intro conjI allI impI)
  show "q_sorted (snd (Claim now c mb))" "q_sorted (snd (ReturnDead now d mb))"
    "q_sorted (snd (Delete h p mb))"
    using assms by (metis q_sorted_Claim q_sorted_ReturnDead q_sorted_Delete prod.collapse)+
qed (use assms in \<open>auto simp: Ack_def Heartbeat_def split: option.splits
  dest: q_sorted_QBulk q_sorted_Return\<close>)

theorem broker_operations_keep_order_witness:
  "q_sorted (snd (Claim 6 ''w'' (ex_broker [ex_msg ''a'' ''g'' 5, ex_msg ''b'' ''g'' 7] [])))"
proof -
  have s: "q_sorted (ex_broker [ex_msg ''a'' ''g'' 5, ex_msg ''b'' ''g'' 7] [])"
    by (simp add: q_sorted_def ex_broker_def ex_msg_def sorted_cmp_Cons msg_cmp_le)
  show ?thesis using broker_operations_keep_order [OF s] by blast
qed



lemma head_tail_loop_up:
  "head_tail_loop n (int i) 1 q = take n (drop i q)"
proof (induction n arbitrary: i)
  case (Suc n)
  have "int i + 1 = int (Suc i)" by simp
  then have "head_tail_loop n (int i + 1) 1 q = take n (drop (Suc i) q)"
    using Suc by metis
  then show ?case
    by (cases "i < length q") (auto simp: Cons_nth_drop_Suc [symmetric])
qed simp

lemma head_tail_loop_down:
  "i < length q \<Longrightarrow> head_tail_loop n (int i) (-1) q = take n (rev (take (Suc i) q))"
proof (induction n arbitrary: i)
  case (Suc n)
  show ?case
  proof (cases i)
    case 0
    then show ?thesis using Suc.prems by (cases n) (auto simp: take_Suc_conv_app_nth)
  next
    case (Suc j)
    then have "head_tail_loop n (int i + - 1) (- 1) q = take n (rev (take (Suc j) q))"
      using Suc.prems Suc.IH [of j] by simp
    then show ?thesis using Suc.prems Suc
      by (simp add: take_Suc_conv_app_nth nat_add_distrib)
  qed
qed simp

text \<open>HeadTail pages through the heap: from the head it is the count elements after the first
  from elements of the delivery order, from the tail the same of the reversed order (for the map
  Wip the delivery order is the one it sorts its messages into).\<close>

theorem head_tail_pages:
  assumes "0 \<le> from"
  shows "HeadTail HeapTypeQ r from n mb =
      take (nat n) (drop (nat from) (if r = QueueReadTail then rev (Q mb) else Q mb)) \<and>
    HeadTail HeapTypeWip r from n mb = take (nat n) (drop (nat from)
      ((if r = QueueReadTail then rev else id) (SortFunc msg_cmp (wip_msgs mb))))"
proof -
  have page: "head_tail_of r from n q =
      take (nat n) (drop (nat from) (if r = QueueReadTail then rev q else q))" for q
  proof (cases "r = QueueReadTail")
    case True
    show ?thesis
    proof (cases "nat from < length q")
      case lt: True
      have i: "int (length q) - 1 - from = int (length q - 1 - nat from)" using lt assms by linarith
      have "drop (nat from) (rev q) = rev (take (Suc (length q - 1 - nat from)) q)"
        using lt by (simp add: drop_rev Suc_diff_Suc)
      then show ?thesis using True lt head_tail_loop_down [of "length q - 1 - nat from" q]
        unfolding head_tail_of_def i by simp
    next
      case False
      then show ?thesis using True assms
        by (cases "nat n") (auto simp: head_tail_of_def)
    qed
  next
    case False
    then show ?thesis using head_tail_loop_up [of "nat n" "nat from" q] assms
      by (simp add: head_tail_of_def)
  qed
  then show ?thesis by (simp add: HeadTail_def page wip_msgs_def)
qed

theorem head_tail_pages_witness:
  "HeadTail HeapTypeQ QueueReadTail 0 1 (ex_broker [ex_msg ''a'' ''g'' 5, ex_msg ''b'' ''g'' 7] []) =
     [ex_msg ''b'' ''g'' 7]"
  using head_tail_pages [of 0 QueueReadTail 1 "ex_broker [ex_msg ''a'' ''g'' 5, ex_msg ''b'' ''g'' 7] []"]
  by (simp add: ex_broker_def)

subsection \<open>Leases: the contract of Ack and Return\<close>

text \<open>
  A consumer that has claimed a message ends its lease with Ack or Return. Both keep the same
  contract: the operation succeeds exactly when the lease is held, and ends this lease only.
\<close>

locale lease =
  fixes leased :: "'s \<Rightarrow> 'k \<Rightarrow> bool" and inv :: "'s \<Rightarrow> bool"
    and release :: "'k \<Rightarrow> 's \<Rightarrow> 'e + 's"
  assumes release_missing: "inv s \<Longrightarrow> \<not> leased s k \<Longrightarrow> \<exists>e. release k s = Inl e"
    and release_held: "inv s \<Longrightarrow> leased s k \<Longrightarrow>
      \<exists>s'. release k s = Inr s' \<and> inv s' \<and> (\<forall>k'. leased s' k' \<longleftrightarrow> leased s k' \<and> k' \<noteq> k)"
begin

lemma release_Inr:
  assumes "inv s" and "release k s = Inr s'"
  shows "leased s k" and "inv s'" and "leased s' k' \<longleftrightarrow> leased s k' \<and> k' \<noteq> k"
proof -
  show k: "leased s k" using assms release_missing by (metis Inl_Inr_False)
  show "inv s'" "leased s' k' \<longleftrightarrow> leased s k' \<and> k' \<noteq> k"
    using release_held [OF assms(1) k] assms(2) by auto
qed

lemma release_twice: "inv s \<Longrightarrow> release k s = Inr s' \<Longrightarrow> \<exists>e. release k s' = Inl e"
  using release_Inr release_missing by blast

lemma release_all:
  assumes "inv s" and "distinct ks" and "\<forall>k \<in> set ks. leased s k"
  shows "\<exists>s'. foldr_err (\<lambda>s k. release k s) s ks = Inr s' \<and> inv s' \<and>
    (\<forall>k. leased s' k \<longleftrightarrow> leased s k \<and> k \<notin> set ks)"
  using assms
proof (induction ks arbitrary: s)
  case (Cons k ks)
  then obtain s1 where s1: "release k s = Inr s1" "inv s1"
    "\<forall>k'. leased s1 k' \<longleftrightarrow> leased s k' \<and> k' \<noteq> k"
    using release_held by (metis list.set_intros(1))
  then have "\<forall>k' \<in> set ks. leased s1 k'" using Cons.prems by auto
  then obtain s2 where "foldr_err (\<lambda>s k. release k s) s1 ks = Inr s2" "inv s2"
    "\<forall>k'. leased s2 k' \<longleftrightarrow> leased s1 k' \<and> k' \<notin> set ks"
    using Cons.IH [OF s1(2)] Cons.prems(2) by auto
  then show ?case using s1 by auto
qed simp

end

definition in_wip :: "broker \<Rightarrow> string \<Rightarrow> bool" where
  "in_wip mb k \<longleftrightarrow> map_of (Wip mb) k \<noteq> None"

lemma in_wip_delete: "in_wip (mb\<lparr>Wip := AList.delete k w\<rparr>) k' \<longleftrightarrow> map_of w k' \<noteq> None \<and> k' \<noteq> k"
  by (simp add: in_wip_def delete_conv')

interpretation ack_lease: lease in_wip wf_broker Ack
proof
  fix s k
  assume "wf_broker s" "\<not> in_wip s k"
  then show "\<exists>e. Ack k s = Inl e" by (auto simp: Ack_def in_wip_def)
next
  fix s k
  assume wf: "wf_broker s" and "in_wip s k"
  then obtain s' where a: "Ack k s = Inr s'" by (auto simp: Ack_def in_wip_def)
  from Ack_wf_held [OF wf a] show "\<exists>s'. Ack k s = Inr s' \<and> wf_broker s' \<and>
      (\<forall>k'. in_wip s' k' \<longleftrightarrow> in_wip s k' \<and> k' \<noteq> k)"
    using a by (metis in_wip_def in_wip_delete)
qed

interpretation return_lease: lease in_wip wf_broker "\<lambda>k. Return now k delay" for now delay
proof
  fix s k
  assume "wf_broker s" "\<not> in_wip s k"
  then show "\<exists>e. Return now k delay s = Inl e" by (auto simp: Return_def return_take_wip_def in_wip_def)
next
  fix s k
  assume wf: "wf_broker s" and "in_wip s k"
  then obtain s' where a: "Return now k delay s = Inr s'"
    by (auto simp: Return_def return_take_wip_def in_wip_def)
  from Return_wf_held [OF wf a] show "\<exists>s'. Return now k delay s = Inr s' \<and> wf_broker s' \<and>
      (\<forall>k'. in_wip s' k' \<longleftrightarrow> in_wip s k' \<and> k' \<noteq> k)"
    using a by (auto simp: in_wip_def delete_conv')
qed

text \<open>C4: a consumer can end its lease once: after an Ack or a Return of a message succeeded, both
  an Ack and a Return of the same message fail and leave the broker as it is, while every other
  lease is still held.\<close>

theorem lease_ends_once:
  assumes "wf_broker mb" and "Ack k mb = Inr mb' \<or> Return now k delay mb = Inr mb'"
  shows "(\<exists>e. Ack k mb' = Inl e) \<and> (\<exists>e. Return now' k delay' mb' = Inl e) \<and>
    (\<forall>k'. k' \<noteq> k \<longrightarrow> in_wip mb' k' = in_wip mb k')"
proof -
  have wf: "wf_broker mb'" and w: "in_wip mb' k' \<longleftrightarrow> in_wip mb k' \<and> k' \<noteq> k" for k'
    using assms(2) ack_lease.release_Inr(2,3) [OF assms(1)]
      return_lease.release_Inr(2,3) [OF assms(1)] by metis+
  then have "\<not> in_wip mb' k" by simp
  then show ?thesis
    using ack_lease.release_missing [OF wf] return_lease.release_missing [OF wf] w by simp
qed

theorem lease_ends_once_witness:
  "\<exists>mb'. Ack ''b'' (ex_broker [] [ex_msg ''b'' ''g'' 5]) = Inr mb' \<and> (\<exists>e. Ack ''b'' mb' = Inl e)"
proof -
  let ?mb = "ex_broker [] [ex_msg ''b'' ''g'' 5]"
  have wf: "wf_broker ?mb" by (simp add: wf_broker_def wip_msgs_def ex_broker_def ex_msg_def)
  obtain mb' where a: "Ack ''b'' ?mb = Inr mb'"
    by (simp add: Ack_def ex_broker_def ex_msg_def)
  have "\<exists>e. Ack ''b'' mb' = Inl e"
    by (rule conjunct1 [OF lease_ends_once [OF wf disjI1 [OF a]]])
  with a show ?thesis by blast
qed

subsection \<open>Interleaving of the critical sections\<close>

text \<open>
  The methods run concurrently: Claim, Return and ReturnDead give up one mutex before they take
  the other, and in between the messages they move are in neither heap. A step of the system is
  one critical section of one call; the messages on their way are part of the state. The counters
  of enqueued and of finished messages (acked or deleted) are there to state the property. The ids
  of enqueued messages are new, as the producer's UUIDs are.
\<close>

record bsys =
  sys_mb :: broker
  sys_claimed :: "message list"
  sys_returned :: "(int \<times> message) list"
  sys_dead :: "message list list"
  sys_enq :: "(string \<times> string \<times> int \<times> string) multiset"
  sys_done :: "(string \<times> string \<times> int \<times> string) multiset"

definition sys_init :: "int \<Rightarrow> bsys" where
  "sys_init n = \<lparr>sys_mb = NewMessageBroker n, sys_claimed = [], sys_returned = [], sys_dead = [],
     sys_enq = {#}, sys_done = {#}\<rparr>"

inductive bstep :: "bsys \<Rightarrow> bsys \<Rightarrow> bool" where
  enqueue: "QBulk now msgs (sys_mb s) = Inr mb \<Longrightarrow> distinct (map msg_Id msgs) \<Longrightarrow>
    set (map msg_Id msgs) \<inter> fst ` set_mset (sys_enq s) = {} \<Longrightarrow>
    bstep s (s\<lparr>sys_mb := mb,
      sys_enq := sys_enq s + image_mset (\<lambda>m. msg_core (m\<lparr>msg_Ts := now\<rparr>)) (mset msgs)\<rparr>)"
| claim_q: "claim_take_q now (sys_mb s) = (Some m, mb) \<Longrightarrow>
    bstep s (s\<lparr>sys_mb := mb, sys_claimed := claim_stamp now c m # sys_claimed s\<rparr>)"
| claim_wip: "sys_claimed s = xs @ m # ys \<Longrightarrow>
    bstep s (s\<lparr>sys_mb := claim_put_wip m (sys_mb s), sys_claimed := xs @ ys\<rparr>)"
| ack: "Ack k (sys_mb s) = Inr mb \<Longrightarrow>
    bstep s (s\<lparr>sys_mb := mb, sys_done := sys_done s + (held (sys_mb s) - held mb)\<rparr>)"
| heartbeat: "Heartbeat now k (sys_mb s) = Inr mb \<Longrightarrow> bstep s (s\<lparr>sys_mb := mb\<rparr>)"
| return_wip: "return_take_wip k (sys_mb s) = Inr (m, mb) \<Longrightarrow>
    bstep s (s\<lparr>sys_mb := mb, sys_returned := (wrap64 (now + delay), m) # sys_returned s\<rparr>)"
| return_q: "sys_returned s = xs @ (t, m) # ys \<Longrightarrow>
    bstep s (s\<lparr>sys_mb := return_put_q t m (sys_mb s), sys_returned := xs @ ys\<rparr>)"
| dead_wip: "dead_take_wip latest (sys_mb s) = (msgs, mb) \<Longrightarrow>
    bstep s (s\<lparr>sys_mb := mb, sys_dead := msgs # sys_dead s\<rparr>)"
| dead_q: "sys_dead s = xs @ msgs # ys \<Longrightarrow>
    bstep s (s\<lparr>sys_mb := (if msgs = [] then sys_mb s else q_append_sort msgs (sys_mb s)),
      sys_dead := xs @ ys\<rparr>)"
| delete: "Delete h p (sys_mb s) = (n, mb) \<Longrightarrow>
    bstep s (s\<lparr>sys_mb := mb, sys_done := sys_done s + (held (sys_mb s) - held mb)\<rparr>)"

inductive breach :: "int \<Rightarrow> bsys \<Rightarrow> bool" for n where
  init: "breach n (sys_init n)"
| step: "breach n s \<Longrightarrow> bstep s t \<Longrightarrow> breach n t"

definition sys_moving :: "bsys \<Rightarrow> (string \<times> string \<times> int \<times> string) multiset" where
  "sys_moving s = image_mset msg_core
     (mset (sys_claimed s @ map snd (sys_returned s) @ concat (sys_dead s)))"

definition sys_inv :: "bsys \<Rightarrow> bool" where
  "sys_inv s \<longleftrightarrow> sys_enq s = held (sys_mb s) + sys_moving s + sys_done s \<and>
     (\<forall>i. count (image_mset fst (sys_enq s)) i \<le> 1) \<and>
     (\<forall>p \<in> set (Wip (sys_mb s)). fst p = msg_Id (snd p))"

lemma sys_inv_init: "sys_inv (sys_init n)"
  by (simp add: sys_inv_def sys_init_def sys_moving_def held_def wip_msgs_def NewMessageBroker_def)

text \<open>The broker of a state that satisfies the invariant is well formed.\<close>

lemma sys_inv_wf:
  assumes "sys_inv s"
  shows "wf_broker (sys_mb s)"
proof -
  have "held (sys_mb s) \<subseteq># sys_enq s" using assms by (simp add: sys_inv_def)
  then have "image_mset fst (held (sys_mb s)) \<subseteq># image_mset fst (sys_enq s)"
    by (rule image_mset_subseteq_mono)
  then have "\<forall>i. count (mset (map msg_Id (Q (sys_mb s) @ wip_msgs (sys_mb s)))) i \<le> 1"
    unfolding image_fst_held [symmetric] using assms
    by (meson sys_inv_def mset_subset_eq_count order_trans)
  then have "distinct (map msg_Id (Q (sys_mb s) @ wip_msgs (sys_mb s)))"
    unfolding distinct_iff_count_le .
  then show ?thesis using assms by (simp add: wf_broker_def sys_inv_def)
qed

lemma sys_inv_distinct:
  assumes "sys_inv s"
  shows "\<forall>i. count (image_mset fst (held (sys_mb s) + sys_moving s)) i \<le> 1"
proof -
  have "image_mset fst (held (sys_mb s) + sys_moving s) \<subseteq># image_mset fst (sys_enq s)"
    using assms by (intro image_mset_subseteq_mono) (simp add: sys_inv_def)
  then show ?thesis using assms unfolding sys_inv_def
    by (meson mset_subset_eq_count order_trans)
qed

text \<open>Steps that move messages between the heaps and the calls keep the sum.\<close>

lemma sys_inv_move:
  assumes "sys_inv s" and "sys_enq t = sys_enq s" and "sys_done t = sys_done s"
    and "held (sys_mb t) + sys_moving t = held (sys_mb s) + sys_moving s"
    and "\<And>p. p \<in> set (Wip (sys_mb t)) \<Longrightarrow> fst p = msg_Id (snd p)"
  shows "sys_inv t"
  using assms by (auto simp: sys_inv_def)

lemma Wip_put_q [simp]:
  "Wip (return_put_q t m mb) = Wip mb" "Wip (q_append_sort ms mb) = Wip mb"
  by (simp_all add: return_put_q_def q_append_sort_def)

lemma sys_inv_keys: "sys_inv s \<Longrightarrow> p \<in> set (Wip (sys_mb s)) \<Longrightarrow> fst p = msg_Id (snd p)"
  by (simp add: sys_inv_def)

lemma sys_inv_finish:
  assumes "sys_inv s" and "held mb \<subseteq># held (sys_mb s)"
    and "\<And>p. p \<in> set (Wip mb) \<Longrightarrow> fst p = msg_Id (snd p)"
  shows "sys_inv (s\<lparr>sys_mb := mb, sys_done := sys_done s + (held (sys_mb s) - held mb)\<rparr>)"
proof -
  have "held mb + (held (sys_mb s) - held mb) = held (sys_mb s)"
    using assms(2) by (simp add: subset_mset.add_diff_inverse)
  then have "held (sys_mb s) + sys_moving s + sys_done s =
      held mb + sys_moving s + (sys_done s + (held (sys_mb s) - held mb))"
    by (metis (no_types, lifting) add.assoc add.commute)
  then show ?thesis using assms by (auto simp: sys_inv_def sys_moving_def)
qed

lemma held_Delete:
  assumes "wf_broker mb" and "Delete h p mb = (n, mb')"
  shows "held mb' \<subseteq># held mb" and "set (Wip mb') \<subseteq> set (Wip mb)"
proof -
  have "held mb' \<subseteq># held mb \<and> set (Wip mb') \<subseteq> set (Wip mb)"
  proof (cases h)
    case HeapTypeQ
    have "mset (delete_skip p (Q mb)) \<subseteq># mset (Q mb)"
      by (rule subseq_mset [OF subseq_delete_skip])
    then show ?thesis using assms HeapTypeQ
      by (auto simp: Delete_q held_def wip_msgs_def image_mset_subseteq_mono)
  next
    case HeapTypeWip
    then have "mb' = mb\<lparr>Wip := filter (\<lambda>(k, m). k \<notin> set (map fst (filter (\<lambda>(k, m). group_matches p m) (Wip mb)))) (Wip mb)\<rparr>"
      using assms by (auto simp: Delete_def fold_delete Let_def)
    then show ?thesis
      by (auto simp: held_def wip_msgs_def intro!: image_mset_subseteq_mono)
  next
    case HeapTypeUnknown
    then show ?thesis using assms by (simp add: Delete_def)
  qed
  then show "held mb' \<subseteq># held mb" "set (Wip mb') \<subseteq> set (Wip mb)" by auto
qed

lemma bstep_inv: "bstep s t \<Longrightarrow> sys_inv s \<Longrightarrow> sys_inv t"
proof (induction rule: bstep.induct)
  case (enqueue now msgs s mb)
  let ?new = "image_mset (\<lambda>m. msg_core (m\<lparr>msg_Ts := now\<rparr>)) (mset msgs)"
  have mb: "held mb = held (sys_mb s) + ?new" "Wip mb = Wip (sys_mb s)"
    using enqueue(1) by (auto simp: QBulk_def held_def wip_msgs_def multiset.map_comp comp_def
        msg_core_def split: if_splits)
  have ids: "image_mset fst ?new = mset (map msg_Id msgs)"
    by (simp add: multiset.map_comp comp_def msg_core_def)
  have "count (image_mset fst (sys_enq s) + mset (map msg_Id msgs)) i \<le> 1" for i
  proof (cases "i \<in> set (map msg_Id msgs)")
    case True
    then have "count (image_mset fst (sys_enq s)) i = 0"
      using enqueue(3) by (auto simp: count_eq_zero_iff)
    then show ?thesis using enqueue(2)
      by (metis add_0 count_union distinct_iff_count_le)
  next
    case False
    then have "count (mset (map msg_Id msgs)) i = 0" by (metis count_eq_zero_iff set_mset_mset)
    moreover have "count (image_mset fst (sys_enq s)) i \<le> 1"
      using enqueue(4) unfolding sys_inv_def by blast
    ultimately show ?thesis by (simp only: count_union)
  qed
  then show ?case using enqueue(4) mb
    by (simp add: sys_inv_def sys_moving_def ids ac_simps)
next
  case (claim_q now s m mb c)
  then obtain q where "Q (sys_mb s) = m # q" "mb = (sys_mb s)\<lparr>Q := q\<rparr>"
    by (auto simp: claim_take_q_def split: list.splits if_splits)
  then show ?case using claim_q(2)
    by (intro sys_inv_move [OF claim_q(2)])
      (auto simp: sys_moving_def held_def wip_msgs_def sys_inv_def)
next
  case (claim_wip s xs m ys)
  have "msg_Id m \<notin> fst ` set (Wip (sys_mb s))"
  proof
    assume "msg_Id m \<in> fst ` set (Wip (sys_mb s))"
    then have "msg_Id m \<in># image_mset fst (held (sys_mb s))"
      using claim_wip(2) by (auto simp: image_fst_held wip_msgs_def sys_inv_def)
    moreover have "msg_Id m \<in># image_mset fst (sys_moving s)"
      using claim_wip(1) by (simp add: sys_moving_def msg_core_def)
    ultimately have "1 < count (image_mset fst (held (sys_mb s) + sys_moving s)) (msg_Id m)"
      unfolding image_mset_union by (rule count_union_two)
    then show False using sys_inv_distinct [OF claim_wip(2)] by (metis not_less)
  qed
  note h = held_put_wip [OF this] and w = update_fresh [OF this]
  let ?t = "s\<lparr>sys_mb := claim_put_wip m (sys_mb s), sys_claimed := xs @ ys\<rparr>"
  show ?case
  proof (rule sys_inv_move [OF claim_wip(2)])
    show "held (sys_mb ?t) + sys_moving ?t = held (sys_mb s) + sys_moving s"
      by (simp add: h sys_moving_def claim_wip(1))
    show "fst p = msg_Id (snd p)" if "p \<in> set (Wip (sys_mb ?t))" for p
      using that claim_wip(2) by (auto simp: claim_put_wip_def w sys_inv_def)
  qed simp_all
next
  case (ack k s mb)
  from Ack_wf_held [OF sys_inv_wf [OF ack(2)] ack(1)]
  obtain m where "wf_broker mb" "held (sys_mb s) = add_mset (msg_core m) (held mb)" by metis
  then show ?case by (intro sys_inv_finish [OF ack(2)]) (auto dest: wf_brokerD(3))
next
  case (heartbeat now k s mb)
  from Heartbeat_wf_held [OF sys_inv_wf [OF heartbeat(2)] heartbeat(1)]
  have h: "wf_broker mb" "held mb = held (sys_mb s)" by auto
  show ?case
    by (rule sys_inv_move [OF heartbeat(2)]) (use h in \<open>auto simp: sys_moving_def dest: wf_brokerD(3)\<close>)
next
  case (return_wip k s m mb now delay)
  then obtain m0 where m0: "map_of (Wip (sys_mb s)) k = Some m0" "m = m0\<lparr>msg_ClaimComment := ''''\<rparr>"
    and mb: "mb = (sys_mb s)\<lparr>Wip := AList.delete k (Wip (sys_mb s))\<rparr>"
    by (auto simp: return_take_wip_def split: option.splits)
  have wf: "wf_broker (sys_mb s)" using sys_inv_wf return_wip(2) .
  have h: "held (sys_mb s) = add_mset (msg_core m) (held mb)"
    using held_wip_delete [OF wf_brokerD(1) [OF wf] m0(1)] mb m0(2) by simp
  let ?t = "s\<lparr>sys_mb := mb, sys_returned := (wrap64 (now + delay), m) # sys_returned s\<rparr>"
  show ?case
  proof (rule sys_inv_move [OF return_wip(2)])
    show "held (sys_mb ?t) + sys_moving ?t = held (sys_mb s) + sys_moving s"
      by (simp add: h sys_moving_def)
    show "fst p = msg_Id (snd p)" if "p \<in> set (Wip (sys_mb ?t))" for p
      using that wip_delete_wf [OF wf, of p k] by (simp add: mb)
  qed simp_all
next
  case (return_q s xs t m ys)
  then show ?case using sys_inv_keys [OF return_q(2)]
    by (intro sys_inv_move [OF return_q(2)]) (simp_all add: sys_moving_def held_return_put_q)
next
  case (dead_wip latest s msgs mb)
  have wf: "wf_broker (sys_mb s)" using sys_inv_wf dead_wip(2) .
  note d = held_dead_take_wip(1,2) [OF wf dead_wip(1)]
  show ?case using sys_inv_keys [OF dead_wip(2)]
    by (intro sys_inv_move [OF dead_wip(2)]) (auto simp: sys_moving_def d)
next
  case (dead_q s xs msgs ys)
  then show ?case using sys_inv_keys [OF dead_q(2)]
    by (intro sys_inv_move [OF dead_q(2)])
      (simp_all add: sys_moving_def held_q_append_sort split: if_splits)
next
  case (delete h p s n mb)
  have wf: "wf_broker (sys_mb s)" using sys_inv_wf delete(2) .
  show ?case
    using held_Delete [OF wf delete(1)] wf_brokerD(3) [OF wf]
    by (intro sys_inv_finish [OF delete(2)]) auto
qed

lemma breach_inv: "breach n s \<Longrightarrow> sys_inv s"
  by (induction rule: breach.induct) (auto intro: sys_inv_init bstep_inv)

text \<open>C1: under every interleaving of the critical sections of concurrent calls no message is lost
  and none is in two places: what was enqueued is at every moment what the two heaps hold, what
  the calls in progress carry and what was acked or deleted, and an id occurs once in all of it.\<close>

theorem broker_never_loses_messages:
  assumes "breach n s"
  shows "sys_enq s = held (sys_mb s) + sys_moving s + sys_done s \<and>
    distinct (map msg_Id (Q (sys_mb s) @ wip_msgs (sys_mb s) @ sys_claimed s @
      map snd (sys_returned s) @ concat (sys_dead s)))"
proof -
  have inv: "sys_inv s" using breach_inv [OF assms] .
  have "image_mset fst (held (sys_mb s) + sys_moving s) =
      mset (map msg_Id (Q (sys_mb s) @ wip_msgs (sys_mb s) @ sys_claimed s @
        map snd (sys_returned s) @ concat (sys_dead s)))"
    by (simp add: held_def sys_moving_def msg_core_def multiset.map_comp comp_def)
  then show ?thesis
    using sys_inv_distinct [OF inv] inv unfolding distinct_iff_count_le sys_inv_def by metis
qed

theorem broker_never_loses_messages_witness:
  "\<exists>s. breach 10 s \<and> length (sys_claimed s) = 1 \<and>
     sys_enq s = held (sys_mb s) + sys_moving s + sys_done s"
proof -
  let ?s0 = "sys_init 10" and ?m = "ex_msg ''a'' ''g'' 0"
  let ?b1 = "(NewMessageBroker 10)\<lparr>Q := [?m]\<rparr>"
  have q: "QBulk 0 [?m] (sys_mb ?s0) = Inr ?b1"
    by (simp add: QBulk_def sys_init_def NewMessageBroker_def sortQ_def SortFunc_def ex_msg_def)
  have "breach 10 (?s0\<lparr>sys_mb := ?b1,
      sys_enq := sys_enq ?s0 + image_mset (\<lambda>m. msg_core (m\<lparr>msg_Ts := 0\<rparr>)) (mset [?m])\<rparr>)"
    (is "breach 10 ?s1")
    by (rule breach.step [OF breach.init bstep.enqueue [OF q]]) (simp_all add: sys_init_def)
  moreover have "claim_take_q 1 (sys_mb ?s1) = (Some ?m, ?b1\<lparr>Q := []\<rparr>)"
    by (simp add: claim_take_q_def ex_msg_def)
  ultimately have r: "breach 10 (?s1\<lparr>sys_mb := ?b1\<lparr>Q := []\<rparr>,
      sys_claimed := claim_stamp 1 ''w'' ?m # sys_claimed ?s1\<rparr>)"
    by (rule breach.step [OF _ bstep.claim_q])
  show ?thesis using broker_never_loses_messages [OF r] r
    by (intro exI conjI) (auto simp: sys_init_def)
qed

end
