(* ===== verification/Values.thy ===== *)
theory Values
  imports Go_Strings
begin

text \<open>
  Dynamically typed Go values (the type any) as far as the code stores them in rows, variables
  and expressions. The carriers of float64 and of the decimal package are parameters of the
  development; times are nanoseconds since the Unix epoch.
\<close>

datatype ('f, 'd) gval =
    VNil
  | VInt int | VInt8 int | VInt16 int | VInt32 int | VInt64 int
  | VFloat32 'f | VFloat64 'f
  | VDec 'd
  | VBool bool
  | VStr string
  | VTime int
  | VBytes string
  | VOther string

text \<open>The types of table fields (pkg/evalcapi/eval_capi_types.go).\<close>

datatype field_type =
  FieldTypeString | FieldTypeInt | FieldTypeFloat | FieldTypeBool | FieldTypeDecimal2 |
  FieldTypeDateTime | FieldTypeUnknown

definition IsValidFieldType :: "field_type \<Rightarrow> bool" where
  "IsValidFieldType t \<longleftrightarrow> t \<noteq> FieldTypeUnknown"

definition field_type_str :: "field_type \<Rightarrow> string" where
  "field_type_str t =
     (case t of FieldTypeString \<Rightarrow> ''string'' | FieldTypeInt \<Rightarrow> ''int'' | FieldTypeFloat \<Rightarrow> ''float''
      | FieldTypeBool \<Rightarrow> ''bool'' | FieldTypeDecimal2 \<Rightarrow> ''decimal2'' | FieldTypeDateTime \<Rightarrow> ''datetime''
      | FieldTypeUnknown \<Rightarrow> ''unknown'')"

text \<open>A row read from the database, and the variables of an expression by table and field.\<close>

type_synonym ('f, 'd) row = "string \<Rightarrow> ('f, 'd) gval option"
type_synonym ('f, 'd) var_values = "string \<Rightarrow> ('f, 'd) row option"

type_synonym gotime = int

text \<open>The zero value of time.Time is midnight, January 1 of year 1; \<open>time.Unix(0, 0)\<close> is 0.\<close>

definition zero_time :: gotime where
  "zero_time = - 62135596800 * 1000000000"

definition Unix :: "gotime \<Rightarrow> int" where
  "Unix t = t div 1000000000"

end
