(* ===== verification/Wfmodel.thy ===== *)
theory Wfmodel
  imports Values Go_Sort "HOL-Library.Product_Lexorder"
begin

text \<open>
  The workflow model (pkg/wfmodel): the events of batches, nodes and runs read from the
  workflow tables, and the functions that fold event histories into statuses. A row is a map
  from column names to values; int16 and int8 columns are ints; a Go map that is iterated over
  is an association list in one iteration order.
\<close>

subsection \<open>Statuses\<close>

definition NodeBatchNone :: int where [simp]: "NodeBatchNone = 0"
definition NodeBatchStart :: int where [simp]: "NodeBatchStart = 1"
definition NodeBatchSuccess :: int where [simp]: "NodeBatchSuccess = 2"
definition NodeBatchFail :: int where [simp]: "NodeBatchFail = 3"
definition NodeBatchRunStopReceived :: int where [simp]: "NodeBatchRunStopReceived = 104"

definition NodeBatchStatusToString :: "int \<Rightarrow> string" where
  "NodeBatchStatusToString s =
     (if s = NodeBatchNone then ''none''
      else if s = NodeBatchStart then ''start''
      else if s = NodeBatchSuccess then ''success''
      else if s = NodeBatchFail then ''fail''
      else if s = NodeBatchRunStopReceived then ''stopreceived''
      else ''unknown'')"

definition RunNone :: int where [simp]: "RunNone = 0"
definition RunStart :: int where [simp]: "RunStart = 1"
definition RunComplete :: int where [simp]: "RunComplete = 2"
definition RunStop :: int where [simp]: "RunStop = 3"

definition RunStatusToString :: "int \<Rightarrow> string" where
  "RunStatusToString s =
     (if s = RunNone then ''none''
      else if s = RunStart then ''start''
      else if s = RunComplete then ''complete''
      else if s = RunStop then ''stop''
      else ''unknown'')"

subsection \<open>Reading the columns of a row\<close>

definition ReadTimeFromRow :: "string \<Rightarrow> ('f, 'd) row \<Rightarrow> goerr + gotime" where
  "ReadTimeFromRow f r =
     (case r f of Some (VTime t) \<Rightarrow> Inr t | _ \<Rightarrow> Inl (''cannot read time '' @ f))"

definition ReadInt16FromRow :: "string \<Rightarrow> ('f, 'd) row \<Rightarrow> goerr + int" where
  "ReadInt16FromRow f r =
     (case r f of
        Some (VInt i) \<Rightarrow> Inr (wrap16 i)
      | Some (VInt8 i) \<Rightarrow> Inr (wrap16 i)
      | Some (VInt16 i) \<Rightarrow> Inr (wrap16 i)
      | Some (VInt32 i) \<Rightarrow> Inr (wrap16 i)
      | Some (VInt64 i) \<Rightarrow> Inr (wrap16 i)
      | _ \<Rightarrow> Inl (''cannot read int16 '' @ f))"

definition ReadInt64FromRow :: "string \<Rightarrow> ('f, 'd) row \<Rightarrow> goerr + int" where
  "ReadInt64FromRow f r =
     (case r f of Some (VInt64 i) \<Rightarrow> Inr i | _ \<Rightarrow> Inl (''cannot read int64 '' @ f))"

definition ReadRunStatusFromRow :: "string \<Rightarrow> ('f, 'd) row \<Rightarrow> goerr + int" where
  "ReadRunStatusFromRow f r =
     (case r f of Some (VInt8 i) \<Rightarrow> Inr i | _ \<Rightarrow> Inl (''cannot read run status '' @ f))"

definition ReadStringFromRow :: "string \<Rightarrow> ('f, 'd) row \<Rightarrow> goerr + string" where
  "ReadStringFromRow f r =
     (case r f of Some (VStr s) \<Rightarrow> Inr s | _ \<Rightarrow> Inl (''cannot read string '' @ f))"

definition ReadNodeBatchStatusFromRow :: "string \<Rightarrow> ('f, 'd) row \<Rightarrow> goerr + int" where
  "ReadNodeBatchStatusFromRow f r =
     (case r f of Some (VInt8 i) \<Rightarrow> Inr i | _ \<Rightarrow> Inl (''cannot read node/batch status '' @ f))"

text \<open>Setting a field of the result with a value read, or stopping with the error.\<close>

definition set_field :: "goerr + 'a \<Rightarrow> ('a \<Rightarrow> 'b) \<Rightarrow> goerr + 'b" where
  "set_field m upd = bindr m (\<lambda>v. Inr (upd v))"

subsection \<open>Batch history\<close>

record batch_event =
  be_Ts :: gotime
  be_RunId :: int
  be_ScriptNode :: string
  be_BatchIdx :: int
  be_BatchesTotal :: int
  be_Status :: int
  be_FirstToken :: int
  be_LastToken :: int
  be_Instance :: string
  be_Thread :: int
  be_Comment :: string

definition empty_batch_event :: batch_event where
  "empty_batch_event = \<lparr>be_Ts = zero_time, be_RunId = 0, be_ScriptNode = '''', be_BatchIdx = 0,
     be_BatchesTotal = 0, be_Status = 0, be_FirstToken = 0, be_LastToken = 0, be_Instance = '''',
     be_Thread = 0, be_Comment = ''''\<rparr>"

definition BatchHistoryEventAllFields :: "string list" where
  "BatchHistoryEventAllFields =
     [''ts'', ''run_id'', ''script_node'', ''batch_idx'', ''batches_total'', ''status'',
      ''first_token'', ''last_token'', ''instance'', ''thread'', ''comment'']"

definition batch_event_field ::
  "('f, 'd) row \<Rightarrow> batch_event \<Rightarrow> string \<Rightarrow> goerr + batch_event" where
  "batch_event_field r e f =
     (if f = ''ts'' then set_field (ReadTimeFromRow f r) (\<lambda>v. e\<lparr>be_Ts := v\<rparr>)
      else if f = ''run_id'' then set_field (ReadInt16FromRow f r) (\<lambda>v. e\<lparr>be_RunId := v\<rparr>)
      else if f = ''script_node'' then set_field (ReadStringFromRow f r) (\<lambda>v. e\<lparr>be_ScriptNode := v\<rparr>)
      else if f = ''batch_idx'' then set_field (ReadInt16FromRow f r) (\<lambda>v. e\<lparr>be_BatchIdx := v\<rparr>)
      else if f = ''batches_total'' then
        set_field (ReadInt16FromRow f r) (\<lambda>v. e\<lparr>be_BatchesTotal := v\<rparr>)
      else if f = ''status'' then
        set_field (ReadNodeBatchStatusFromRow f r) (\<lambda>v. e\<lparr>be_Status := v\<rparr>)
      else if f = ''first_token'' then
        set_field (ReadInt64FromRow f r) (\<lambda>v. e\<lparr>be_FirstToken := v\<rparr>)
      else if f = ''last_token'' then set_field (ReadInt64FromRow f r) (\<lambda>v. e\<lparr>be_LastToken := v\<rparr>)
      else if f = ''instance'' then set_field (ReadStringFromRow f r) (\<lambda>v. e\<lparr>be_Instance := v\<rparr>)
      else if f = ''thread'' then set_field (ReadInt64FromRow f r) (\<lambda>v. e\<lparr>be_Thread := v\<rparr>)
      else if f = ''comment'' then set_field (ReadStringFromRow f r) (\<lambda>v. e\<lparr>be_Comment := v\<rparr>)
      else Inl (''unknown wf_batch_history field '' @ f))"

definition NewBatchHistoryEventFromMap ::
  "('f, 'd) row \<Rightarrow> string list \<Rightarrow> goerr + batch_event" where
  "NewBatchHistoryEventFromMap r fs = foldr_err (batch_event_field r) empty_batch_event fs"

definition row_error :: "string \<Rightarrow> goerr + 'a \<Rightarrow> goerr + 'a" where
  "row_error what m = (case m of Inl e \<Rightarrow> Inl (what @ '': '' @ e) | Inr x \<Rightarrow> Inr x)"

definition ts_cmp :: "('e \<Rightarrow> gotime) \<Rightarrow> 'e \<Rightarrow> 'e \<Rightarrow> int" where
  "ts_cmp ts l r = (if ts l < ts r then -1 else if ts l > ts r then 1 else 0)"

definition BatchHistoryRowsToEvents :: "('f, 'd) row list \<Rightarrow> goerr + batch_event list" where
  "BatchHistoryRowsToEvents rows =
     bindr (mapr (\<lambda>r. row_error ''cannot deserialize batch history row''
                (NewBatchHistoryEventFromMap r BatchHistoryEventAllFields)) rows)
       (\<lambda>evs. Inr (SortFunc (ts_cmp be_Ts) evs))"

text \<open>The loop bodies of the two status functions; the accumulator holds the locals.\<close>

definition last_batch_status_event :: "int \<times> gotime \<Rightarrow> batch_event \<Rightarrow> int \<times> gotime" where
  "last_batch_status_event st rec =
     (case st of (lastStatus, lastTs) \<Rightarrow>
        if be_Ts rec > lastTs \<or> be_Ts rec = lastTs \<and> be_Status rec > lastStatus
        then (be_Status rec, be_Ts rec) else (lastStatus, lastTs))"

definition last_batch_status_step ::
  "string list \<Rightarrow> int \<times> gotime \<Rightarrow> ('f, 'd) row \<Rightarrow> goerr + int \<times> gotime" where
  "last_batch_status_step fs st r =
     bindr (row_error ''cannot deserialize batch history row'' (NewBatchHistoryEventFromMap r fs))
       (\<lambda>rec. Inr (last_batch_status_event st rec))"

definition SingleBatchHistoryRowsToLastBatchStatus ::
  "('f, 'd) row list \<Rightarrow> string list \<Rightarrow> goerr + int \<times> gotime" where
  "SingleBatchHistoryRowsToLastBatchStatus rows fs =
     foldr_err (last_batch_status_step fs) (NodeBatchNone, 0) rows"

record node_status_acc =
  ns_total :: int
  ns_in_progress :: "int list"
  ns_fail :: bool
  ns_stop :: bool

definition node_status_event :: "node_status_acc \<Rightarrow> batch_event \<Rightarrow> goerr + node_status_acc" where
  "node_status_event a rec =
     (if ns_total a \<noteq> -1 \<and> be_BatchesTotal rec \<noteq> ns_total a
      then Inl ''conflicting batches total value''
      else
        let a1 = (if ns_total a = -1
                  then a\<lparr>ns_total := be_BatchesTotal rec,
                         ns_in_progress := List.union (ns_in_progress a) [0..be_BatchesTotal rec - 1]\<rparr>
                  else a)
        in if be_BatchIdx rec \<ge> be_BatchesTotal rec \<or> be_BatchesTotal rec < 0 \<or>
              be_BatchesTotal rec \<le> 0
           then Inl ''invalid batch idx/total''
           else
             let a2 = (if be_Status rec = NodeBatchSuccess \<or> be_Status rec = NodeBatchFail \<or>
                          be_Status rec = NodeBatchRunStopReceived
                       then a1\<lparr>ns_in_progress := removeAll (be_BatchIdx rec) (ns_in_progress a1)\<rparr>
                       else a1)
             in Inr (if be_Status rec = NodeBatchFail then a2\<lparr>ns_fail := True\<rparr>
                     else if be_Status rec = NodeBatchRunStopReceived then a2\<lparr>ns_stop := True\<rparr>
                     else a2))"

definition node_status_step ::
  "string list \<Rightarrow> node_status_acc \<Rightarrow> ('f, 'd) row \<Rightarrow> goerr + node_status_acc" where
  "node_status_step fs a r =
     bindr (row_error ''cannot deserialize batch history row'' (NewBatchHistoryEventFromMap r fs))
       (node_status_event a)"

definition node_status_init :: node_status_acc where
  "node_status_init = \<lparr>ns_total = -1, ns_in_progress = [], ns_fail = False, ns_stop = False\<rparr>"

definition AllBatchHistoryRowsToNodeStatus ::
  "('f, 'd) row list \<Rightarrow> string list \<Rightarrow> goerr + int \<times> nat \<times> int" where
  "AllBatchHistoryRowsToNodeStatus rows fs =
     bindr (foldr_err (node_status_step fs) node_status_init rows)
       (\<lambda>a. Inr
         (if length (ns_in_progress a) = 0 then
            (if ns_fail a then NodeBatchFail
             else if ns_stop a then NodeBatchRunStopReceived else NodeBatchSuccess,
             length (ns_in_progress a), ns_total a)
          else (NodeBatchStart, length (ns_in_progress a), ns_total a)))"

subsection \<open>What the batch statuses mean\<close>

text \<open>The events of the rows, or an error where one does not decode.\<close>

definition batch_events :: "('f, 'd) row list \<Rightarrow> string list \<Rightarrow> goerr + batch_event list" where
  "batch_events rows fs =
     mapr (\<lambda>r. row_error ''cannot deserialize batch history row'' (NewBatchHistoryEventFromMap r fs)) rows"

definition batch_terminal :: "int \<Rightarrow> bool" where
  "batch_terminal s \<longleftrightarrow> s \<in> {NodeBatchSuccess, NodeBatchFail, NodeBatchRunStopReceived}"

definition batch_pending :: "batch_event set \<Rightarrow> int \<Rightarrow> int set" where
  "batch_pending E tot =
     {i. 0 \<le> i \<and> i < tot \<and> \<not> (\<exists>e \<in> E. be_BatchIdx e = i \<and> batch_terminal (be_Status e))}"

definition batch_ok :: "int \<Rightarrow> batch_event \<Rightarrow> bool" where
  "batch_ok tot e \<longleftrightarrow> be_BatchesTotal e = tot \<and> 0 < tot \<and> be_BatchIdx e < tot"

definition node_status_of :: "batch_event set \<Rightarrow> int \<Rightarrow> int" where
  "node_status_of E tot =
     (if batch_pending E tot \<noteq> {} then NodeBatchStart
      else if NodeBatchFail \<in> be_Status ` E then NodeBatchFail
      else if NodeBatchRunStopReceived \<in> be_Status ` E then NodeBatchRunStopReceived
      else NodeBatchSuccess)"

abbreviation after_events :: "node_status_acc \<Rightarrow> batch_event set \<Rightarrow> node_status_acc" where
  "after_events a E \<equiv>
     a\<lparr>ns_in_progress := filter (\<lambda>i. \<not> (\<exists>e \<in> E. be_BatchIdx e = i \<and> batch_terminal (be_Status e)))
         (ns_in_progress a),
       ns_fail := (ns_fail a \<or> NodeBatchFail \<in> be_Status ` E),
       ns_stop := (ns_stop a \<or> NodeBatchRunStopReceived \<in> be_Status ` E)\<rparr>"

lemma after_events_insert: "after_events (after_events a {e}) E = after_events a (insert e E)"
proof -
  have "filter (\<lambda>i. \<not> (\<exists>e \<in> E. be_BatchIdx e = i \<and> batch_terminal (be_Status e)))
      (filter (\<lambda>i. \<not> (\<exists>e \<in> {e}. be_BatchIdx e = i \<and> batch_terminal (be_Status e))) (ns_in_progress a)) =
    filter (\<lambda>i. \<not> (\<exists>e \<in> insert e E. be_BatchIdx e = i \<and> batch_terminal (be_Status e)))
      (ns_in_progress a)"
    by (auto intro!: filter_cong)
  then show ?thesis by auto
qed

lemma node_status_event_known:
  assumes "ns_total a = tot" and "0 < tot"
  shows "batch_ok tot e \<Longrightarrow> node_status_event a e = Inr (after_events a {e})"
    and "\<not> batch_ok tot e \<Longrightarrow> \<exists>x. node_status_event a e = Inl x"
  using assms
  by (auto simp: node_status_event_def batch_ok_def batch_terminal_def Let_def removeAll_filter_not_eq
      intro!: filter_cong)

lemma node_status_fold_ok:
  assumes "ns_total a = tot" and "0 < tot" and "\<forall>e \<in> set evs. batch_ok tot e"
  shows "foldr_err node_status_event a evs = Inr (after_events a (set evs))"
  using assms
proof (induction evs arbitrary: a)
  case (Cons e evs)
  have "foldr_err node_status_event a (e # evs) = foldr_err node_status_event (after_events a {e}) evs"
    using Cons.prems by (simp add: node_status_event_known(1) [of a tot] del: bex_simps image_insert)
  also have "\<dots> = Inr (after_events (after_events a {e}) (set evs))"
    using Cons.prems by (intro Cons.IH) auto
  finally show ?case by (simp only: after_events_insert list.set)
qed simp

lemma node_status_fold_bad:
  assumes "ns_total a = tot" and "0 < tot" and "\<exists>e \<in> set evs. \<not> batch_ok tot e"
  shows "\<exists>x. foldr_err node_status_event a evs = Inl x"
  using assms
proof (induction evs arbitrary: a)
  case (Cons e evs)
  show ?case
  proof (cases "batch_ok tot e")
    case True
    have "\<exists>x. foldr_err node_status_event (after_events a {e}) evs = Inl x"
      using Cons.prems True by (intro Cons.IH) auto
    moreover have "foldr_err node_status_event a (e # evs) =
        foldr_err node_status_event (after_events a {e}) evs"
      using Cons.prems True by (simp add: node_status_event_known(1) [of a tot] del: bex_simps image_insert)
    ultimately show ?thesis by simp
  next
    case False
    then show ?thesis using node_status_event_known(2) [OF Cons.prems(1,2) False] by auto
  qed
qed simp

lemma node_status_rows:
  assumes "batch_events rows fs = Inr (e0 # evs)"
  defines "tot \<equiv> be_BatchesTotal e0" and "E \<equiv> set (e0 # evs)"
  shows "\<forall>e \<in> E. batch_ok tot e \<Longrightarrow> AllBatchHistoryRowsToNodeStatus rows fs =
      Inr (node_status_of E tot, card (batch_pending E tot), tot)"
    and "\<exists>e \<in> E. \<not> batch_ok tot e \<Longrightarrow> \<exists>x. AllBatchHistoryRowsToNodeStatus rows fs = Inl x"
proof -
  let ?a0 = "node_status_init\<lparr>ns_total := tot, ns_in_progress := [0..tot - 1]\<rparr>"
  have dec: "foldr_err (node_status_step fs) node_status_init rows =
      foldr_err node_status_event node_status_init (e0 # evs)"
    unfolding node_status_step_def using assms(1)
    by (intro foldr_err_decoded) (simp add: batch_events_def)
  have dec': "foldr_err (node_status_step fs) node_status_init rows =
      foldr_err node_status_event ?a0 (e0 # evs)" if "0 < tot"
  proof -
    have "node_status_event node_status_init e0 = node_status_event ?a0 e0"
      using that by (simp add: node_status_event_def node_status_init_def tot_def [symmetric]
          List.union_def)
    then show ?thesis using dec by simp
  qed
  let ?L = "filter (\<lambda>i. \<not> (\<exists>e \<in> E. be_BatchIdx e = i \<and> batch_terminal (be_Status e))) [0..tot - 1]"
  have set: "set ?L = batch_pending E tot" by (auto simp: batch_pending_def)
  have "distinct ?L" by simp
  then have card: "length ?L = card (batch_pending E tot)"
    unfolding set [symmetric] by (rule distinct_card [symmetric])
  have empty: "?L = [] \<longleftrightarrow> batch_pending E tot = {}"
    unfolding set [symmetric] by (simp only: set_empty)
  {
    assume all: "\<forall>e \<in> E. batch_ok tot e"
    then have pos: "0 < tot" by (simp add: E_def batch_ok_def)
    have "foldr_err (node_status_step fs) node_status_init rows = Inr (after_events ?a0 E)"
      unfolding E_def dec' [OF pos]
      using all pos by (intro node_status_fold_ok) (auto simp: E_def)
    then show "AllBatchHistoryRowsToNodeStatus rows fs =
        Inr (node_status_of E tot, card (batch_pending E tot), tot)"
      using card empty
      by (simp add: AllBatchHistoryRowsToNodeStatus_def node_status_of_def node_status_init_def
          del: filter_empty_conv)
  }
  {
    assume bad: "\<exists>e \<in> E. \<not> batch_ok tot e"
    have "\<exists>x. foldr_err (node_status_step fs) node_status_init rows = Inl x"
    proof (cases "0 < tot")
      case True
      then show ?thesis unfolding dec' [OF True]
        using bad by (intro node_status_fold_bad) (auto simp: E_def)
    next
      case False
      then have "\<exists>x. node_status_event node_status_init e0 = Inl x"
        by (auto simp: node_status_event_def node_status_init_def tot_def Let_def)
      then show ?thesis using dec by auto
    qed
    then show "\<exists>x. AllBatchHistoryRowsToNodeStatus rows fs = Inl x"
      by (auto simp: AllBatchHistoryRowsToNodeStatus_def)
  }
qed

subsection \<open>The last status of one batch\<close>

text \<open>The status function keeps the lexicographic maximum of time stamp and status.\<close>

lemma last_batch_status_fold:
  "foldl last_batch_status_event (s, t) evs =
     (case Max (insert (t, s) ((\<lambda>e. (be_Ts e, be_Status e)) ` set evs)) of (t', s') \<Rightarrow> (s', t'))"
proof (induction evs arbitrary: s t)
  case (Cons e evs)
  let ?K = "(\<lambda>e. (be_Ts e, be_Status e)) ` set evs"
  let ?m = "max (t, s) (be_Ts e, be_Status e)"
  have m: "last_batch_status_event (s, t) e = (snd ?m, fst ?m)"
    by (auto simp: last_batch_status_event_def max_def less_eq_prod_def)
  have "Max (insert (t, s) (insert (be_Ts e, be_Status e) ?K)) = Max (insert ?m ?K)"
  proof (cases "?K = {}")
    case False
    then show ?thesis by (simp add: max.assoc)
  qed simp
  then show ?case using Cons.IH [of "snd ?m" "fst ?m"] m by simp
qed simp

lemma SingleBatch_events:
  assumes "batch_events rows fs = Inr evs"
  shows "SingleBatchHistoryRowsToLastBatchStatus rows fs =
    Inr (foldl last_batch_status_event (NodeBatchNone, 0) evs)"
  unfolding SingleBatchHistoryRowsToLastBatchStatus_def last_batch_status_step_def
  using foldr_err_decoded [OF assms [unfolded batch_events_def],
      of "\<lambda>st rec. Inr (last_batch_status_event st rec)"]
  by (simp add: foldr_err_total)

subsection \<open>Run history\<close>

record run_event =
  re_Ts :: gotime
  re_RunId :: int
  re_Status :: int
  re_Comment :: string

definition RunHistoryEventAllFields :: "string list" where
  "RunHistoryEventAllFields = [''ts'', ''run_id'', ''status'', ''comment'']"

definition run_event_field :: "('f, 'd) row \<Rightarrow> run_event \<Rightarrow> string \<Rightarrow> goerr + run_event" where
  "run_event_field r e f =
     (if f = ''ts'' then set_field (ReadTimeFromRow f r) (\<lambda>v. e\<lparr>re_Ts := v\<rparr>)
      else if f = ''run_id'' then set_field (ReadInt16FromRow f r) (\<lambda>v. e\<lparr>re_RunId := v\<rparr>)
      else if f = ''status'' then set_field (ReadRunStatusFromRow f r) (\<lambda>v. e\<lparr>re_Status := v\<rparr>)
      else if f = ''comment'' then set_field (ReadStringFromRow f r) (\<lambda>v. e\<lparr>re_Comment := v\<rparr>)
      else Inl (''unknown '' @ f @ '' field wf_run_history''))"

definition NewRunHistoryEventFromMap :: "('f, 'd) row \<Rightarrow> string list \<Rightarrow> goerr + run_event" where
  "NewRunHistoryEventFromMap r fs =
     foldr_err (run_event_field r)
       \<lparr>re_Ts = zero_time, re_RunId = 0, re_Status = 0, re_Comment = ''''\<rparr> fs"

record run_lifespan =
  ls_RunId :: int
  ls_StartTs :: gotime
  ls_StartComment :: string
  ls_FinalStatus :: int
  ls_CompletedTs :: gotime
  ls_CompletedComment :: string
  ls_StoppedTs :: gotime
  ls_StoppedComment :: string

definition run_status_map_step :: "(int \<Rightarrow> int option) \<Rightarrow> run_event \<Rightarrow> int \<Rightarrow> int option" where
  "run_status_map_step m e =
     (case m (re_RunId e) of
        None \<Rightarrow> m(re_RunId e \<mapsto> re_Status e)
      | Some cur \<Rightarrow>
          (if re_Status e = RunStop then m(re_RunId e \<mapsto> RunStop)
           else if re_Status e = RunComplete \<and> cur \<noteq> RunStop then m(re_RunId e \<mapsto> RunComplete)
           else if re_Status e = RunStart \<and> cur \<noteq> RunStop \<and> cur \<noteq> RunComplete
           then m(re_RunId e \<mapsto> RunStart)
           else m))"

definition RunHistoryEventsToRunStatusMap :: "run_event list \<Rightarrow> int \<Rightarrow> int option" where
  "RunHistoryEventsToRunStatusMap es = foldl run_status_map_step (\<lambda>_. None) es"

definition RunHistoryRowsToEvents :: "('f, 'd) row list \<Rightarrow> goerr + run_event list" where
  "RunHistoryRowsToEvents rows =
     bindr (mapr (\<lambda>r. row_error ''cannot deserialize run history row''
                (NewRunHistoryEventFromMap r RunHistoryEventAllFields)) rows)
       (\<lambda>evs. Inr (SortFunc (ts_cmp re_Ts) evs))"

definition new_lifespan :: "run_event \<Rightarrow> run_lifespan" where
  "new_lifespan e = \<lparr>ls_RunId = re_RunId e, ls_StartTs = re_Ts e, ls_StartComment = re_Comment e,
     ls_FinalStatus = RunStart, ls_CompletedTs = zero_time, ls_CompletedComment = '''',
     ls_StoppedTs = zero_time, ls_StoppedComment = ''''\<rparr>"

definition lifespan_event :: "run_lifespan \<Rightarrow> run_event \<Rightarrow> run_lifespan" where
  "lifespan_event ls e =
     (if re_Status e = RunComplete \<and> Unix (ls_CompletedTs ls) = Unix zero_time then
        (let ls1 = ls\<lparr>ls_CompletedTs := re_Ts e, ls_CompletedComment := re_Comment e\<rparr>
         in if Unix (ls_StoppedTs ls1) = Unix zero_time then ls1\<lparr>ls_FinalStatus := RunComplete\<rparr>
            else ls1)
      else if re_Status e = RunStop \<and> Unix (ls_StoppedTs ls) = Unix zero_time then
        ls\<lparr>ls_StoppedTs := re_Ts e, ls_StoppedComment := re_Comment e, ls_FinalStatus := RunStop\<rparr>
      else ls)"

definition lifespan_step ::
  "(int \<Rightarrow> run_lifespan option) \<Rightarrow> run_event \<Rightarrow> goerr + (int \<Rightarrow> run_lifespan option)" where
  "lifespan_step m e =
     (if re_Status e = RunStart then Inr (m(re_RunId e \<mapsto> new_lifespan e))
      else (case m (re_RunId e) of
              None \<Rightarrow> Inl ''unexpected sequence of run status events''
            | Some ls \<Rightarrow> Inr (m(re_RunId e \<mapsto> lifespan_event ls e))))"

definition RunHistoryEventsToLifespanMap ::
  "run_event list \<Rightarrow> goerr + (int \<Rightarrow> run_lifespan option)" where
  "RunHistoryEventsToLifespanMap es = foldr_err lifespan_step (\<lambda>_. None) es"

definition run_status_event :: "int \<times> gotime \<Rightarrow> run_event \<Rightarrow> int \<times> gotime" where
  "run_status_event st rec =
     (case st of (lastStatus, lastTs) \<Rightarrow>
        if re_Ts rec > lastTs then (re_Status rec, re_Ts rec) else (lastStatus, lastTs))"

definition RunHistoryRowsToStatus :: "('f, 'd) row list \<Rightarrow> goerr + int" where
  "RunHistoryRowsToStatus rows =
     bindr (foldr_err (\<lambda>st r.
         bindr (row_error ''cannot deserialize status from run history row''
                  (NewRunHistoryEventFromMap r [''ts'', ''status'']))
           (\<lambda>rec. Inr (run_status_event st rec))) (RunNone, 0) rows)
       (\<lambda>(lastStatus, lastTs). Inr lastStatus)"

definition run_statuses :: "int \<Rightarrow> run_event list \<Rightarrow> int set" where
  "run_statuses r es = re_Status ` {e \<in> set es. re_RunId e = r}"

lemma run_statuses_simps:
  "run_statuses r [] = {}"
  "run_statuses r (e # es) =
     (if re_RunId e = r then insert (re_Status e) (run_statuses r es) else run_statuses r es)"
  by (auto simp: run_statuses_def)

lemma finite_run_statuses [simp]: "finite (run_statuses r es)"
  by (simp add: run_statuses_def)

lemma run_status_map_same:
  assumes "m r = Some s" and "re_RunId e = r"
    and "0 \<le> s \<and> s \<le> RunStop" and "0 \<le> re_Status e \<and> re_Status e \<le> RunStop"
  shows "run_status_map_step m e r = Some (max s (re_Status e))"
proof -
  have "s = 0 \<or> s = 1 \<or> s = 2 \<or> s = 3" using assms(3) unfolding RunStop_def by arith
  moreover have "re_Status e = 0 \<or> re_Status e = 1 \<or> re_Status e = 2 \<or> re_Status e = 3"
    using assms(4) unfolding RunStop_def by arith
  ultimately show ?thesis using assms(1,2)
    by (elim disjE) (simp_all add: run_status_map_step_def)
qed

lemma run_status_map_other: "re_RunId e \<noteq> r \<Longrightarrow> run_status_map_step m e r = m r"
  by (auto simp: run_status_map_step_def split: option.splits)

lemma Max_insert_max:
  fixes a b :: int
  assumes "finite A"
  shows "Max (insert (max a b) A) = Max (insert a (insert b A))"
proof (cases "A = {}")
  case False
  then show ?thesis using assms by (simp add: max.assoc)
qed simp

text \<open>The map holds the maximum of the status it had and the statuses of the run's events.\<close>

lemma run_status_map_fold_Some:
  assumes "\<forall>e \<in> set es. 0 \<le> re_Status e \<and> re_Status e \<le> RunStop"
    and "m r = Some s" and "0 \<le> s \<and> s \<le> RunStop"
  shows "foldl run_status_map_step m es r = Some (Max (insert s (run_statuses r es)))"
  using assms
proof (induction es arbitrary: m s)
  case (Cons e es)
  show ?case
  proof (cases "re_RunId e = r")
    case True
    have "run_status_map_step m e r = Some (max s (re_Status e))"
      using Cons.prems True by (intro run_status_map_same) auto
    moreover have "0 \<le> max s (re_Status e) \<and> max s (re_Status e) \<le> RunStop"
      using Cons.prems by (auto simp: max_def)
    ultimately have "foldl run_status_map_step m (e # es) r =
        Some (Max (insert (max s (re_Status e)) (run_statuses r es)))"
      using Cons.prems(1) by (simp only: foldl.simps, intro Cons.IH) auto
    then show ?thesis using True by (simp only: Max_insert_max finite_run_statuses)
        (simp only: run_statuses_simps if_True refl)
  next
    case False
    then have "run_status_map_step m e r = Some s" using Cons.prems run_status_map_other by simp
    then show ?thesis using Cons.IH [of "run_status_map_step m e" s] Cons.prems False
      by (simp add: run_statuses_simps)
  qed
qed (simp add: run_statuses_simps)

lemma run_status_map_fold:
  assumes "\<forall>e \<in> set es. 0 \<le> re_Status e \<and> re_Status e \<le> RunStop" and "m r = None"
  shows "foldl run_status_map_step m es r =
    (if run_statuses r es = {} then None else Some (Max (run_statuses r es)))"
  using assms
proof (induction es arbitrary: m)
  case (Cons e es)
  show ?case
  proof (cases "re_RunId e = r")
    case True
    then have "run_status_map_step m e r = Some (re_Status e)"
      using Cons.prems(2) by (simp add: run_status_map_step_def)
    moreover have "0 \<le> re_Status e \<and> re_Status e \<le> RunStop" using Cons.prems(1) by simp
    ultimately show ?thesis
      using run_status_map_fold_Some [of es "run_status_map_step m e" r "re_Status e"]
        Cons.prems(1) True by (simp add: run_statuses_simps)
  next
    case False
    then have "run_status_map_step m e r = None" using Cons.prems run_status_map_other by simp
    then show ?thesis using Cons.IH [of "run_status_map_step m e"] Cons.prems False
      by (simp add: run_statuses_simps)
  qed
qed (simp add: run_statuses_simps)

text \<open>
  A life span is consistent: it is stopped exactly when a stop was recorded, and complete
  exactly when a completion but no stop was recorded.
\<close>

definition lifespan_ok :: "run_lifespan \<Rightarrow> bool" where
  "lifespan_ok ls \<longleftrightarrow>
     (ls_FinalStatus ls = RunStop \<longleftrightarrow> Unix (ls_StoppedTs ls) \<noteq> Unix zero_time) \<and>
     (ls_FinalStatus ls = RunComplete \<longleftrightarrow>
        Unix (ls_StoppedTs ls) = Unix zero_time \<and> Unix (ls_CompletedTs ls) \<noteq> Unix zero_time) \<and>
     ls_FinalStatus ls \<in> {RunStart, RunComplete, RunStop}"

lemma lifespan_ok_new: "lifespan_ok (new_lifespan e)"
  by (simp add: lifespan_ok_def new_lifespan_def)

lemma lifespan_ok_event:
  "lifespan_ok ls \<Longrightarrow> Unix (re_Ts e) \<noteq> Unix zero_time \<Longrightarrow> lifespan_ok (lifespan_event ls e)"
  by (auto simp: lifespan_ok_def lifespan_event_def Let_def)

lemma lifespan_step_ok:
  assumes "\<forall>r ls. m r = Some ls \<longrightarrow> ls_RunId ls = r \<and> lifespan_ok ls"
    and "lifespan_step m e = Inr m'" and "Unix (re_Ts e) \<noteq> Unix zero_time"
  shows "\<forall>r ls. m' r = Some ls \<longrightarrow> ls_RunId ls = r \<and> lifespan_ok ls"
proof (intro allI impI)
  fix r ls
  assume r: "m' r = Some ls"
  have id: "ls_RunId (lifespan_event x e) = ls_RunId x" for x
    by (simp add: lifespan_event_def Let_def)
  show "ls_RunId ls = r \<and> lifespan_ok ls"
  proof (cases "re_RunId e = r")
    case True
    show ?thesis
    proof (cases "re_Status e = RunStart")
      case st: True
      then have "ls = new_lifespan e" using assms(2) r True by (auto simp: lifespan_step_def)
      then show ?thesis using True lifespan_ok_new [of e] by (simp add: new_lifespan_def)
    next
      case False
      then obtain x where "m r = Some x" "ls = lifespan_event x e"
        using assms(2) r True by (auto simp: lifespan_step_def split: option.splits)
      then show ?thesis using assms(1,3) lifespan_ok_event id by metis
    qed
  next
    case False
    then have "m r = Some ls"
      using assms(2) r by (auto simp: lifespan_step_def split: if_splits option.splits)
    then show ?thesis using assms(1) by blast
  qed
qed

lemma lifespan_map_ok:
  assumes "RunHistoryEventsToLifespanMap es = Inr m"
    and "\<forall>e \<in> set es. Unix (re_Ts e) \<noteq> Unix zero_time"
  shows "\<forall>r ls. m r = Some ls \<longrightarrow> ls_RunId ls = r \<and> lifespan_ok ls"
  using assms unfolding RunHistoryEventsToLifespanMap_def
  by (elim foldr_err_inv) (use lifespan_step_ok in blast)+

text \<open>A sequence is accepted exactly when the first event of every run is its start.\<close>

fun starts_first :: "int set \<Rightarrow> run_event list \<Rightarrow> bool" where
  "starts_first R [] = True"
| "starts_first R (e # es) \<longleftrightarrow>
     (re_Status e = RunStart \<or> re_RunId e \<in> R) \<and> starts_first (insert (re_RunId e) R) es"

lemma lifespan_step_cases:
  "re_Status e = RunStart \<or> re_RunId e \<in> dom m \<Longrightarrow>
     \<exists>ls. lifespan_step m e = Inr (m(re_RunId e \<mapsto> ls))"
  "\<not> (re_Status e = RunStart \<or> re_RunId e \<in> dom m) \<Longrightarrow> \<exists>x. lifespan_step m e = Inl x"
  by (auto simp: lifespan_step_def split: option.splits)

lemma lifespan_fold_accepts:
  "starts_first (dom m) es \<Longrightarrow>
     \<exists>m'. foldr_err lifespan_step m es = Inr m' \<and> dom m' = dom m \<union> re_RunId ` set es"
proof (induction es arbitrary: m)
  case (Cons e es)
  then obtain ls where ls: "lifespan_step m e = Inr (m(re_RunId e \<mapsto> ls))"
    using lifespan_step_cases(1) [of e m] by auto
  have "starts_first (dom (m(re_RunId e \<mapsto> ls))) es" using Cons.prems by simp
  from Cons.IH [OF this] obtain m' where m': "foldr_err lifespan_step (m(re_RunId e \<mapsto> ls)) es = Inr m'"
    "dom m' = dom (m(re_RunId e \<mapsto> ls)) \<union> re_RunId ` set es" by blast
  have "foldr_err lifespan_step m (e # es) = Inr m'" using ls m'(1) by simp
  moreover have "dom m' = dom m \<union> re_RunId ` set (e # es)" using m'(2) by auto
  ultimately show ?case by blast
qed simp

lemma lifespan_fold_rejects:
  "\<not> starts_first (dom m) es \<Longrightarrow> \<exists>x. foldr_err lifespan_step m es = Inl x"
proof (induction es arbitrary: m)
  case (Cons e es)
  show ?case
  proof (cases "re_Status e = RunStart \<or> re_RunId e \<in> dom m")
    case True
    then obtain ls where ls: "lifespan_step m e = Inr (m(re_RunId e \<mapsto> ls))"
      using lifespan_step_cases(1) by blast
    have "\<not> starts_first (dom (m(re_RunId e \<mapsto> ls))) es" using Cons.prems True by auto
    from Cons.IH [OF this] show ?thesis by (simp only: foldr_err.simps ls sum.case)
  qed (use lifespan_step_cases(2) [of e m] in auto)
qed simp

subsection \<open>Node history\<close>

record node_event =
  ne_Ts :: gotime
  ne_RunId :: int
  ne_ScriptNode :: string
  ne_WrittenByBatchIdx :: int
  ne_Status :: int
  ne_Comment :: string

definition NodeHistoryEventAllFields :: "string list" where
  "NodeHistoryEventAllFields =
     [''ts'', ''run_id'', ''script_node'', ''written_by_batch_idx'', ''status'', ''comment'']"

definition node_event_field :: "('f, 'd) row \<Rightarrow> node_event \<Rightarrow> string \<Rightarrow> goerr + node_event" where
  "node_event_field r e f =
     (if f = ''ts'' then set_field (ReadTimeFromRow f r) (\<lambda>v. e\<lparr>ne_Ts := v\<rparr>)
      else if f = ''run_id'' then set_field (ReadInt16FromRow f r) (\<lambda>v. e\<lparr>ne_RunId := v\<rparr>)
      else if f = ''script_node'' then set_field (ReadStringFromRow f r) (\<lambda>v. e\<lparr>ne_ScriptNode := v\<rparr>)
      else if f = ''written_by_batch_idx'' then
        set_field (ReadInt16FromRow f r) (\<lambda>v. e\<lparr>ne_WrittenByBatchIdx := v\<rparr>)
      else if f = ''status'' then
        set_field (ReadNodeBatchStatusFromRow f r) (\<lambda>v. e\<lparr>ne_Status := v\<rparr>)
      else if f = ''comment'' then set_field (ReadStringFromRow f r) (\<lambda>v. e\<lparr>ne_Comment := v\<rparr>)
      else Inl (''unknown '' @ f @ '' field wf_node_history''))"

definition NewNodeHistoryEventFromMap :: "('f, 'd) row \<Rightarrow> string list \<Rightarrow> goerr + node_event" where
  "NewNodeHistoryEventFromMap r fs =
     foldr_err (node_event_field r)
       \<lparr>ne_Ts = zero_time, ne_RunId = 0, ne_ScriptNode = '''', ne_WrittenByBatchIdx = 0,
        ne_Status = 0, ne_Comment = ''''\<rparr> fs"

text \<open>A map from run ids to maps from node names to events.\<close>

type_synonym node_map = "(int \<times> (string \<times> node_event) list) list"

definition appendNodeEventsFromMap :: "node_map \<Rightarrow> node_event list \<Rightarrow> node_event list" where
  "appendNodeEventsFromMap m evs = evs @ concat (map (\<lambda>(r, nm). map snd nm) m)"

definition event_to_node_map :: "(node_event \<Rightarrow> bool) \<Rightarrow> node_event \<Rightarrow> node_map \<Rightarrow> node_map" where
  "event_to_node_map replaced rec m =
     (let m1 = (if map_of m (ne_RunId rec) = None then AList.update (ne_RunId rec) [] m else m);
          inner = the (map_of m1 (ne_RunId rec));
          put = AList.update (ne_RunId rec) (AList.update (ne_ScriptNode rec) rec inner) m1
      in case map_of inner (ne_ScriptNode rec) of
           None \<Rightarrow> put
         | Some old \<Rightarrow> (if replaced old then put else m1))"

definition earliestEventToNodeMap :: "node_event \<Rightarrow> node_map \<Rightarrow> node_map" where
  "earliestEventToNodeMap rec m = event_to_node_map (\<lambda>old. ne_Ts old > ne_Ts rec) rec m"

definition lastEventToNodeMap :: "node_event \<Rightarrow> node_map \<Rightarrow> node_map" where
  "lastEventToNodeMap rec m = event_to_node_map (\<lambda>old. ne_Ts old < ne_Ts rec) rec m"

record node_maps =
  nm_start :: node_map
  nm_success :: node_map
  nm_fail :: node_map
  nm_stop :: node_map

definition node_history_event :: "node_maps \<Rightarrow> node_event \<Rightarrow> node_maps" where
  "node_history_event ms rec =
     (if ne_Status rec = NodeBatchStart then
        ms\<lparr>nm_start := earliestEventToNodeMap rec (nm_start ms)\<rparr>
      else if ne_Status rec = NodeBatchSuccess then
        ms\<lparr>nm_success := lastEventToNodeMap rec (nm_success ms)\<rparr>
      else if ne_Status rec = NodeBatchFail then
        ms\<lparr>nm_fail := lastEventToNodeMap rec (nm_fail ms)\<rparr>
      else if ne_Status rec = NodeBatchRunStopReceived then
        ms\<lparr>nm_stop := lastEventToNodeMap rec (nm_stop ms)\<rparr>
      else ms)"

definition node_event_cmp :: "node_event \<Rightarrow> node_event \<Rightarrow> int" where
  "node_event_cmp l r = cmp_Or
     [cmp_key ne_Ts l r, cmp_key ne_RunId l r, cmp_key ne_WrittenByBatchIdx l r,
      cmp_key ne_ScriptNode l r, cmp_key ne_Status l r]"

definition collect_node_events :: "node_maps \<Rightarrow> node_event list" where
  "collect_node_events ms =
     appendNodeEventsFromMap (nm_stop ms) (appendNodeEventsFromMap (nm_fail ms)
       (appendNodeEventsFromMap (nm_success ms) (appendNodeEventsFromMap (nm_start ms) [])))"

definition NodeHistoryRowsToEvents :: "('f, 'd) row list \<Rightarrow> goerr + node_event list" where
  "NodeHistoryRowsToEvents rows =
     bindr (foldr_err (\<lambda>ms r.
         bindr (row_error ''cannot deserialize node history row''
                  (NewNodeHistoryEventFromMap r NodeHistoryEventAllFields))
           (\<lambda>rec. Inr (node_history_event ms rec)))
         \<lparr>nm_start = [], nm_success = [], nm_fail = [], nm_stop = []\<rparr> rows)
       (\<lambda>ms. Inr (SortFunc node_event_cmp (collect_node_events ms)))"

definition figure_step ::
  "int \<Rightarrow> (string \<times> int) list \<Rightarrow> node_event \<Rightarrow> (string \<times> int) list" where
  "figure_step runId m e =
     (if ne_RunId e \<noteq> runId then m
      else case map_of m (ne_ScriptNode e) of
        None \<Rightarrow> AList.update (ne_ScriptNode e) (ne_Status e) m
      | Some soFar \<Rightarrow>
          (let m1 = (if soFar \<noteq> NodeBatchRunStopReceived
                     then AList.update (ne_ScriptNode e) (ne_Status e) m else m)
           in if ne_Status e = NodeBatchRunStopReceived \<and> soFar \<noteq> NodeBatchRunStopReceived
              then AList.update (ne_ScriptNode e) NodeBatchRunStopReceived m1
              else if ne_Status e = NodeBatchFail \<and> soFar \<noteq> NodeBatchFail \<and>
                soFar \<noteq> NodeBatchRunStopReceived
              then AList.update (ne_ScriptNode e) NodeBatchFail m1
              else if ne_Status e = NodeBatchSuccess \<and> soFar \<noteq> NodeBatchSuccess \<and>
                soFar \<noteq> NodeBatchFail \<and> soFar \<noteq> NodeBatchRunStopReceived
              then AList.update (ne_ScriptNode e) NodeBatchSuccess m1
              else if ne_Status e = NodeBatchStart \<and> soFar \<noteq> NodeBatchStart \<and>
                soFar \<noteq> NodeBatchSuccess \<and> soFar \<noteq> NodeBatchFail \<and>
                soFar \<noteq> NodeBatchRunStopReceived
              then AList.update (ne_ScriptNode e) NodeBatchStart m1
              else m1))"

definition FigureOutRunStatusAndAffectedNodesStatusesFromNodeEvents ::
  "node_event list \<Rightarrow> int \<Rightarrow> string list \<Rightarrow> int \<times> (string \<times> int) list" where
  "FigureOutRunStatusAndAffectedNodesStatusesFromNodeEvents sortedNodeEvents runId affectedNodes =
     (let m0 = foldl (\<lambda>m n. AList.update n NodeBatchNone m) [] affectedNodes;
          m = foldl (figure_step runId) m0 sortedNodeEvents;
          highest = foldl (\<lambda>h (n, s). if s > h then s else h) NodeBatchNone m;
          lowest = foldl (\<lambda>l (n, s). if s < l then s else l) NodeBatchRunStopReceived m
      in if lowest > NodeBatchStart then (highest, m) else (lowest, m))"

subsection \<open>Run properties\<close>

record run_properties =
  rp_RunId :: int
  rp_StartNodes :: string
  rp_AffectedNodes :: string
  rp_ScriptUrl :: string
  rp_ScriptParamsUrl :: string
  rp_RunDescription :: string

definition RunPropertiesAllFields :: "string list" where
  "RunPropertiesAllFields =
     [''run_id'', ''start_nodes'', ''affected_nodes'', ''script_url'', ''script_params_url'',
      ''run_description'']"

definition run_properties_field ::
  "('f, 'd) row \<Rightarrow> run_properties \<Rightarrow> string \<Rightarrow> goerr + run_properties" where
  "run_properties_field r e f =
     (if f = ''run_id'' then set_field (ReadInt16FromRow f r) (\<lambda>v. e\<lparr>rp_RunId := v\<rparr>)
      else if f = ''start_nodes'' then set_field (ReadStringFromRow f r) (\<lambda>v. e\<lparr>rp_StartNodes := v\<rparr>)
      else if f = ''affected_nodes'' then
        set_field (ReadStringFromRow f r) (\<lambda>v. e\<lparr>rp_AffectedNodes := v\<rparr>)
      else if f = ''script_url'' then set_field (ReadStringFromRow f r) (\<lambda>v. e\<lparr>rp_ScriptUrl := v\<rparr>)
      else if f = ''script_params_url'' then
        set_field (ReadStringFromRow f r) (\<lambda>v. e\<lparr>rp_ScriptParamsUrl := v\<rparr>)
      else if f = ''run_description'' then
        set_field (ReadStringFromRow f r) (\<lambda>v. e\<lparr>rp_RunDescription := v\<rparr>)
      else Inl (''unknown '' @ f @ '' field wf_run_properties''))"

definition NewRunPropertiesFromMap :: "('f, 'd) row \<Rightarrow> string list \<Rightarrow> goerr + run_properties" where
  "NewRunPropertiesFromMap r fs =
     foldr_err (run_properties_field r)
       \<lparr>rp_RunId = 0, rp_StartNodes = '''', rp_AffectedNodes = '''', rp_ScriptUrl = '''',
        rp_ScriptParamsUrl = '''', rp_RunDescription = ''''\<rparr> fs"

text \<open>The set \<open>map1\<close> loses every string it has given to the result.\<close>

fun intersect_from :: "string set \<Rightarrow> string list \<Rightarrow> string list" where
  "intersect_from M [] = []"
| "intersect_from M (v # vs) =
     (if v \<in> M then v # intersect_from (M - {v}) vs else intersect_from M vs)"

definition intersectTwoSlicesOfStrings :: "string list \<Rightarrow> string list \<Rightarrow> string list" where
  "intersectTwoSlicesOfStrings slice1 slice2 = intersect_from (set slice1) slice2"

record run_deps =
  rd_RunIds :: "int list"
  rd_NodesMap :: "int \<Rightarrow> string list option"
  rd_Present :: "string set"

definition run_deps_event :: "string list \<Rightarrow> run_deps \<Rightarrow> run_properties \<Rightarrow> run_deps" where
  "run_deps_event depNodeNames a rec =
     (let affectedNodes = Split (rp_AffectedNodes rec) (CHR '','');
          affectedDepNodes = intersectTwoSlicesOfStrings affectedNodes depNodeNames;
          a1 = (if affectedDepNodes \<noteq> []
                then a\<lparr>rd_RunIds := rd_RunIds a @ [rp_RunId rec],
                       rd_NodesMap := (rd_NodesMap a)(rp_RunId rec \<mapsto> affectedDepNodes)\<rparr>
                else a)
      in a1\<lparr>rd_Present := rd_Present a1 \<union> {n \<in> set depNodeNames. n \<in> set affectedNodes}\<rparr>)"

definition MultipleRunsPropertiesToDependencies ::
  "('f, 'd) row list \<Rightarrow> string list \<Rightarrow> string list \<Rightarrow>
     goerr + int list \<times> (int \<Rightarrow> string list option)" where
  "MultipleRunsPropertiesToDependencies rows depNodeNames runPropsFieldNames =
     bindr (foldr_err (\<lambda>a r.
         bindr (NewRunPropertiesFromMap r runPropsFieldNames)
           (\<lambda>rec. Inr (run_deps_event depNodeNames a rec)))
         \<lparr>rd_RunIds = [], rd_NodesMap = (\<lambda>_. None), rd_Present = {}\<rparr> rows)
       (\<lambda>a. case filter (\<lambda>n. n \<notin> rd_Present a) depNodeNames of
              [] \<Rightarrow> Inr (rd_RunIds a, rd_NodesMap a)
            | n # _ \<Rightarrow> Inl (''unexpectedly, dependency node '' @ n @
                '' is not present in affected node lists''))"

subsection \<open>Sequences of dependency node statuses and messages\<close>

record dep_node_run_status =
  dn_RunId :: int
  dn_RunIsCurrent :: bool
  dn_RunStatus :: int
  dn_NodeStatus :: int
  dn_SortKey :: string

definition DependencyNodeRunStatusToString :: "dep_node_run_status \<Rightarrow> string" where
  "DependencyNodeRunStatusToString e =
     ''{'' @ ''run_id:'' @ int_str (dn_RunId e) @ '',''
     @ ''run_is_current:'' @ (if dn_RunIsCurrent e then ''true'' else ''false'') @ '',''
     @ ''run_status:'' @ RunStatusToString (dn_RunStatus e) @ '',''
     @ ''node_status:'' @ NodeBatchStatusToString (dn_NodeStatus e) @ '',''
     @ ''}''"

definition DependencyNodeRunStatusSliceToString :: "dep_node_run_status list \<Rightarrow> string" where
  "DependencyNodeRunStatusSliceToString statuses =
     ''['' @ Join (map DependencyNodeRunStatusToString statuses) '', '' @ '']''"

definition DependencyCheckerNodeVars :: "dep_node_run_status \<Rightarrow> ('f, 'd) var_values" where
  "DependencyCheckerNodeVars nrs =
     [''wfmodel'' \<mapsto>
        [''NodeBatchNone'' \<mapsto> VInt64 NodeBatchNone,
         ''NodeBatchStart'' \<mapsto> VInt64 NodeBatchStart,
         ''NodeBatchSuccess'' \<mapsto> VInt64 NodeBatchSuccess,
         ''NodeBatchFail'' \<mapsto> VInt64 NodeBatchFail,
         ''NodeBatchRunStopReceived'' \<mapsto> VInt64 NodeBatchRunStopReceived,
         ''RunNone'' \<mapsto> VInt64 RunNone,
         ''RunStart'' \<mapsto> VInt64 RunStart,
         ''RunComplete'' \<mapsto> VInt64 RunComplete,
         ''RunStop'' \<mapsto> VInt64 RunStop],
      ''nrs'' \<mapsto>
        [''run_id'' \<mapsto> VInt64 (dn_RunId nrs),
         ''run_is_current'' \<mapsto> VBool (dn_RunIsCurrent nrs),
         ''run_status'' \<mapsto> VInt64 (dn_RunStatus nrs),
         ''node_status'' \<mapsto> VInt64 (dn_NodeStatus nrs)]]"

record wf_message =
  wm_Ts :: int
  wm_Id :: string
  wm_ScriptURL :: string
  wm_ScriptParamsURL :: string
  wm_DataKeyspace :: string
  wm_RunId :: int
  wm_TargetNodeName :: string
  wm_FirstToken :: int
  wm_LastToken :: int
  wm_BatchIdx :: int
  wm_BatchesTotal :: int

definition FullNodeId :: "wf_message \<Rightarrow> string" where
  "FullNodeId msg =
     wm_DataKeyspace msg @ ''/'' @ int_str (wm_RunId msg) @ ''/'' @ wm_TargetNodeName msg"

definition FullBatchId :: "wf_message \<Rightarrow> string" where
  "FullBatchId msg =
     wm_DataKeyspace msg @ ''/'' @ int_str (wm_RunId msg) @ ''/'' @ wm_TargetNodeName msg @ ''/'' @
     int_str (wm_BatchIdx msg)"

subsection \<open>Which node events are kept\<close>

definition node_key :: "node_event \<Rightarrow> int \<times> string" where
  "node_key e = (ne_RunId e, ne_ScriptNode e)"

definition node_lookup :: "node_map \<Rightarrow> int \<times> string \<Rightarrow> node_event option" where
  "node_lookup m k = (case map_of m (fst k) of None \<Rightarrow> None | Some nm \<Rightarrow> map_of nm (snd k))"

definition wf_inner :: "int \<times> (string \<times> node_event) list \<Rightarrow> bool" where
  "wf_inner p \<longleftrightarrow> distinct (map fst (snd p)) \<and> (\<forall>q \<in> set (snd p). node_key (snd q) = (fst p, fst q))"

definition wf_node_map :: "node_map \<Rightarrow> bool" where
  "wf_node_map m \<longleftrightarrow> distinct (map fst m) \<and> (\<forall>p \<in> set m. wf_inner p)"

definition map_events :: "node_map \<Rightarrow> node_event list" where
  "map_events m = concat (map (\<lambda>(r, nm). map snd nm) m)"

lemma set_update_subset: "set (AList.update k v m) \<subseteq> insert (k, v) (set m)"
  by (induction m) auto

lemma wf_node_map_Nil [simp]: "wf_node_map []"
  by (simp add: wf_node_map_def)

lemma wf_node_map_update:
  assumes "wf_node_map m" and "wf_inner (r, nm)"
  shows "wf_node_map (AList.update r nm m)"
  using assms set_update_subset [of r nm m] unfolding wf_node_map_def
  by (auto simp: distinct_update)

lemma wf_node_map_inner:
  assumes "wf_node_map m" and "map_of m r = Some nm"
  shows "wf_inner (r, nm)"
  using assms map_of_SomeD [OF assms(2)] by (auto simp: wf_node_map_def)

lemma wf_inner_update:
  assumes "wf_inner (r, nm)" and "node_key e = (r, n)"
  shows "wf_inner (r, AList.update n e nm)"
  using assms set_update_subset [of n e nm] unfolding wf_inner_def
  by (auto simp: distinct_update)

lemma node_lookup_update:
  "node_lookup (AList.update r nm m) k = (if fst k = r then map_of nm (snd k) else node_lookup m k)"
  by (auto simp: node_lookup_def update_conv')

lemma event_to_node_map:
  assumes "wf_node_map m"
  shows "wf_node_map (event_to_node_map replaced rec m)"
    and "node_lookup (event_to_node_map replaced rec m) = (node_lookup m)(node_key rec \<mapsto>
      (case node_lookup m (node_key rec) of None \<Rightarrow> rec
       | Some old \<Rightarrow> if replaced old then rec else old))"
proof -
  let ?r = "ne_RunId rec" and ?n = "ne_ScriptNode rec"
  define m1 where "m1 = (if map_of m ?r = None then AList.update ?r [] m else m)"
  have "map_of m1 ?r \<noteq> None" by (simp add: m1_def update_conv')
  then obtain nm where nm: "map_of m1 ?r = Some nm" by blast
  have w1: "wf_node_map m1" using assms by (auto simp: m1_def wf_inner_def intro: wf_node_map_update)
  have l1: "node_lookup m1 = node_lookup m"
    by (auto simp: m1_def node_lookup_update fun_eq_iff) (auto simp: node_lookup_def)
  have inner: "map_of nm ?n = node_lookup m (node_key rec)"
    using nm by (simp add: l1 [symmetric] node_lookup_def node_key_def)
  have ev: "event_to_node_map replaced rec m =
      (case map_of nm ?n of None \<Rightarrow> AList.update ?r (AList.update ?n rec nm) m1
       | Some old \<Rightarrow> if replaced old then AList.update ?r (AList.update ?n rec nm) m1 else m1)"
    unfolding event_to_node_map_def Let_def m1_def [symmetric] nm option.sel by (rule refl)
  have "wf_node_map (AList.update ?r (AList.update ?n rec nm) m1)"
    by (intro wf_node_map_update w1 wf_inner_update wf_node_map_inner [OF w1 nm])
      (simp add: node_key_def)
  then show "wf_node_map (event_to_node_map replaced rec m)"
    using w1 by (simp add: ev split: option.splits)
  have "node_lookup (AList.update ?r (AList.update ?n rec nm) m1) =
      (node_lookup m)(node_key rec \<mapsto> rec)"
    using nm by (auto simp: node_lookup_update node_key_def fun_eq_iff update_conv' l1 [symmetric])
       (auto simp: node_lookup_def)
  then show "node_lookup (event_to_node_map replaced rec m) = (node_lookup m)(node_key rec \<mapsto>
      (case node_lookup m (node_key rec) of None \<Rightarrow> rec
       | Some old \<Rightarrow> if replaced old then rec else old))"
    by (auto simp: ev inner l1 split: option.splits)
qed

lemma map_events_lookup:
  assumes "wf_node_map m"
  shows "e \<in> set (map_events m) \<longleftrightarrow> node_lookup m (node_key e) = Some e"
proof
  assume "e \<in> set (map_events m)"
  then obtain r nm n where r: "(r, nm) \<in> set m" "(n, e) \<in> set nm"
    by (auto simp: map_events_def)
  moreover from r have "wf_inner (r, nm)" using assms by (simp add: wf_node_map_def)
  then have "distinct (map fst nm)" "\<forall>q \<in> set nm. node_key (snd q) = (r, fst q)"
    by (simp_all add: wf_inner_def)
  ultimately have "map_of m r = Some nm" "map_of nm n = Some e" "node_key e = (r, n)"
    using assms by (auto simp: wf_node_map_def)
  then show "node_lookup m (node_key e) = Some e" by (simp add: node_lookup_def)
next
  assume "node_lookup m (node_key e) = Some e"
  then obtain nm where "map_of m (fst (node_key e)) = Some nm" "map_of nm (snd (node_key e)) = Some e"
    by (auto simp: node_lookup_def split: option.splits)
  then show "e \<in> set (map_events m)"
    by (auto simp: map_events_def dest!: map_of_SomeD intro!: bexI rev_image_eqI)
qed

lemma map_events_run: "wf_node_map m \<Longrightarrow> e \<in> set (map_events m) \<Longrightarrow> ne_RunId e \<in> fst ` set m"
  by (force simp: map_events_def wf_node_map_def wf_inner_def node_key_def)

lemma map_events_distinct:
  assumes "wf_node_map m"
  shows "distinct (map node_key (map_events m))"
  using assms
proof (induction m)
  case (Cons p m)
  obtain r nm where p: "p = (r, nm)" by (cases p)
  have wf: "wf_inner (r, nm)" "wf_node_map m" "r \<notin> fst ` set m"
    using Cons.prems p by (auto simp: wf_node_map_def)
  have keys: "map node_key (map snd nm) = map (\<lambda>n. (r, n)) (map fst nm)"
    using wf(1) by (auto simp: wf_inner_def)
  have "distinct (map node_key (map snd nm))"
    unfolding keys using wf(1) by (simp add: wf_inner_def distinct_map inj_on_def)
  moreover have "set (map node_key (map snd nm)) \<inter> set (map node_key (map_events m)) = {}"
    unfolding keys using map_events_run [OF wf(2)] wf(3) by (auto simp: node_key_def)
  ultimately show ?case using Cons.IH [OF wf(2)] p by (simp add: map_events_def)
qed (simp add: map_events_def)

text \<open>A newer event replaces an older one of its kind; the earliest start is kept.\<close>

definition node_wins :: "int \<Rightarrow> node_event \<Rightarrow> node_event \<Rightarrow> bool" where
  "node_wins s old new \<longleftrightarrow> (if s = NodeBatchStart then ne_Ts old > ne_Ts new else ne_Ts old < ne_Ts new)"

definition kept :: "int \<Rightarrow> node_event set \<Rightarrow> node_map \<Rightarrow> bool" where
  "kept s E m \<longleftrightarrow> wf_node_map m \<and>
     (\<forall>k e. node_lookup m k = Some e \<longrightarrow> e \<in> E \<and> ne_Status e = s \<and> node_key e = k \<and>
        (\<forall>x \<in> E. ne_Status x = s \<longrightarrow> node_key x = k \<longrightarrow> \<not> node_wins s e x)) \<and>
     (\<forall>x \<in> E. ne_Status x = s \<longrightarrow> node_lookup m (node_key x) \<noteq> None)"

lemma kept_other: "kept s E m \<Longrightarrow> ne_Status rec \<noteq> s \<Longrightarrow> kept s (insert rec E) m"
  unfolding kept_def by blast

lemma kept_empty: "kept s {} []"
  by (simp add: kept_def node_lookup_def)

lemma node_wins_trans: "node_wins s a b \<Longrightarrow> \<not> node_wins s a c \<Longrightarrow> \<not> node_wins s b c"
  by (auto simp: node_wins_def split: if_splits)

lemma kept_step:
  assumes k: "kept s E m" and s: "ne_Status rec = s"
  shows "kept s (insert rec E) (event_to_node_map (\<lambda>old. node_wins s old rec) rec m)"
proof -
  let ?m = "event_to_node_map (\<lambda>old. node_wins s old rec) rec m"
  have wf: "wf_node_map m" using k by (simp add: kept_def)
  note ev = event_to_node_map [OF wf, of "\<lambda>old. node_wins s old rec" rec]
  have refl: "\<not> node_wins s x x" for x by (simp add: node_wins_def)
  have old: "e \<in> E \<and> ne_Status e = s \<and> node_key e = q \<and>
      (\<forall>x \<in> E. ne_Status x = s \<longrightarrow> node_key x = q \<longrightarrow> \<not> node_wins s e x)"
    if "node_lookup m q = Some e" for q e using k that unfolding kept_def by blast
  have "e \<in> insert rec E \<and> ne_Status e = s \<and> node_key e = q \<and>
      (\<forall>x \<in> insert rec E. ne_Status x = s \<longrightarrow> node_key x = q \<longrightarrow> \<not> node_wins s e x)"
    if e: "node_lookup ?m q = Some e" for q e
  proof (cases "q = node_key rec")
    case False
    then show ?thesis using e old [of q e] by (simp add: ev(2))
  next
    case True
    show ?thesis
    proof (cases "node_lookup m q")
      case None
      then have "e = rec" using e True by (simp add: ev(2))
      moreover have "\<not> (x \<in> E \<and> ne_Status x = s \<and> node_key x = q)" for x
        using k None unfolding kept_def by blast
      ultimately show ?thesis using True s refl by blast
    next
      case (Some b)
      note B = old [OF Some]
      show ?thesis
      proof (cases "node_wins s b rec")
        case w: True
        then have "e = rec" using e True Some by (simp add: ev(2))
        moreover have "\<not> node_wins s rec x" if "x \<in> E" "ne_Status x = s" "node_key x = q" for x
          using node_wins_trans [OF w] B that by blast
        ultimately show ?thesis using True s refl by auto
      next
        case False
        then have "e = b" using e True Some by (simp add: ev(2))
        then show ?thesis using B False by blast
      qed
    qed
  qed
  moreover have "node_lookup ?m (node_key x) \<noteq> None" if "x \<in> insert rec E" "ne_Status x = s" for x
    using that k by (auto simp: ev(2) kept_def)
  ultimately show ?thesis unfolding kept_def
    by - (rule conjI [OF ev(1) conjI], intro allI impI, blast, intro ballI impI, blast)
qed

lemma earliest_kept:
  assumes "kept NodeBatchStart E m" and "ne_Status rec = NodeBatchStart"
  shows "kept NodeBatchStart (insert rec E) (earliestEventToNodeMap rec m)"
  using kept_step [OF assms] by (simp add: earliestEventToNodeMap_def node_wins_def)

lemma last_kept:
  assumes "kept s E m" and "ne_Status rec = s" and "s \<noteq> NodeBatchStart"
  shows "kept s (insert rec E) (lastEventToNodeMap rec m)"
  using kept_step [OF assms(1,2)] assms(3) by (simp add: lastEventToNodeMap_def node_wins_def)

definition all_kept :: "node_event set \<Rightarrow> node_maps \<Rightarrow> bool" where
  "all_kept E ms \<longleftrightarrow> kept NodeBatchStart E (nm_start ms) \<and> kept NodeBatchSuccess E (nm_success ms) \<and>
     kept NodeBatchFail E (nm_fail ms) \<and> kept NodeBatchRunStopReceived E (nm_stop ms)"

lemma all_kept_event:
  assumes "all_kept E ms"
  shows "all_kept (insert rec E) (node_history_event ms rec)"
  using assms earliest_kept [of E "nm_start ms" rec]
    last_kept [of NodeBatchSuccess E "nm_success ms" rec]
    last_kept [of NodeBatchFail E "nm_fail ms" rec]
    last_kept [of NodeBatchRunStopReceived E "nm_stop ms" rec]
  unfolding all_kept_def node_history_event_def by (simp add: kept_other)

lemma all_kept_fold:
  "all_kept E ms \<Longrightarrow> all_kept (E \<union> set evs) (foldl node_history_event ms evs)"
proof (induction evs arbitrary: E ms)
  case (Cons e evs)
  have "all_kept (insert e E \<union> set evs) (foldl node_history_event (node_history_event ms e) evs)"
    by (intro Cons.IH all_kept_event Cons.prems)
  then show ?case by simp
qed simp

lemma kept_events:
  assumes "kept s E m"
  shows "e \<in> set (map_events m) \<longleftrightarrow> e \<in> E \<and> node_lookup m (node_key e) = Some e"
    and "e \<in> set (map_events m) \<Longrightarrow> ne_Status e = s"
    and "distinct (map node_key (map_events m))"
proof -
  have wf: "wf_node_map m" using assms by (simp add: kept_def)
  show "e \<in> set (map_events m) \<longleftrightarrow> e \<in> E \<and> node_lookup m (node_key e) = Some e"
    "e \<in> set (map_events m) \<Longrightarrow> ne_Status e = s"
    using assms map_events_lookup [OF wf] unfolding kept_def by blast+
  show "distinct (map node_key (map_events m))" by (rule map_events_distinct [OF wf])
qed

text \<open>What NodeHistoryRowsToEvents keeps of the events it has read.\<close>

definition event_key :: "node_event \<Rightarrow> int \<times> string \<times> int" where
  "event_key e = (ne_RunId e, ne_ScriptNode e, ne_Status e)"

definition kept_statuses :: "int set" where
  "kept_statuses = {NodeBatchStart, NodeBatchSuccess, NodeBatchFail, NodeBatchRunStopReceived}"

lemma event_key_eq: "event_key a = event_key b \<longleftrightarrow> node_key a = node_key b \<and> ne_Status a = ne_Status b"
  by (auto simp: event_key_def node_key_def)

lemma collect_append:
  "collect_node_events ms = map_events (nm_start ms) @ map_events (nm_success ms) @
     map_events (nm_fail ms) @ map_events (nm_stop ms)"
  by (simp add: collect_node_events_def appendNodeEventsFromMap_def map_events_def)

lemma kept_event_keys:
  assumes "kept s E m"
  shows "distinct (map event_key (map_events m))"
    and "kept s' E' m' \<Longrightarrow> s \<noteq> s' \<Longrightarrow>
      event_key ` set (map_events m) \<inter> event_key ` set (map_events m') = {}"
proof -
  have "inj_on event_key (set (map_events m))"
  proof (rule inj_onI)
    fix x y
    assume "x \<in> set (map_events m)" "y \<in> set (map_events m)" "event_key x = event_key y"
    then show "x = y"
      using kept_events(1) [OF assms] by (metis event_key_eq option.inject)
  qed
  then show "distinct (map event_key (map_events m))"
    using kept_events(3) [OF assms] by (simp add: distinct_map)
  show "event_key ` set (map_events m) \<inter> event_key ` set (map_events m') = {}"
    if "kept s' E' m'" "s \<noteq> s'"
    using that kept_events(2) [OF assms] kept_events(2) [OF that(1)] by (auto simp: event_key_def)
qed

lemma collect_distinct:
  assumes "all_kept E ms"
  shows "distinct (map event_key (collect_node_events ms))"
proof -
  have st: "kept NodeBatchStart E (nm_start ms)" "kept NodeBatchSuccess E (nm_success ms)"
    "kept NodeBatchFail E (nm_fail ms)" "kept NodeBatchRunStopReceived E (nm_stop ms)"
    using assms by (simp_all only: all_kept_def)
  show ?thesis
    unfolding collect_append map_append distinct_append set_append set_map Int_Un_distrib
    by (simp add: kept_event_keys(1) [OF st(1)] kept_event_keys(1) [OF st(2)]
        kept_event_keys(1) [OF st(3)] kept_event_keys(1) [OF st(4)]
        kept_event_keys(2) [OF st(1) st(2)] kept_event_keys(2) [OF st(1) st(3)]
        kept_event_keys(2) [OF st(1) st(4)] kept_event_keys(2) [OF st(2) st(3)]
        kept_event_keys(2) [OF st(2) st(4)] kept_event_keys(2) [OF st(3) st(4)])
qed

lemma collect_kept:
  assumes "all_kept E ms"
  shows "e \<in> set (collect_node_events ms) \<Longrightarrow> e \<in> E \<and> ne_Status e \<in> kept_statuses \<and>
      (\<forall>x \<in> E. event_key x = event_key e \<longrightarrow> \<not> node_wins (ne_Status e) e x)"
    and "x \<in> E \<Longrightarrow> ne_Status x \<in> kept_statuses \<Longrightarrow>
      event_key x \<in> event_key ` set (collect_node_events ms)"
proof -
  have st: "kept NodeBatchStart E (nm_start ms)" "kept NodeBatchSuccess E (nm_success ms)"
    "kept NodeBatchFail E (nm_fail ms)" "kept NodeBatchRunStopReceived E (nm_stop ms)"
    using assms by (simp_all only: all_kept_def)
  have one: "e \<in> E \<and> ne_Status e = s \<and>
      (\<forall>x \<in> E. event_key x = event_key e \<longrightarrow> \<not> node_wins (ne_Status e) e x)"
    if "kept s E m" "e \<in> set (map_events m)" for s m
    using that kept_events [OF that(1)] unfolding kept_def event_key_eq by metis
  have two: "event_key x \<in> event_key ` set (map_events m)"
    if "kept (ne_Status x) E m" "x \<in> E" for m
  proof -
    have "node_lookup m (node_key x) \<noteq> None" using that unfolding kept_def by blast
    then obtain e where e: "node_lookup m (node_key x) = Some e" by blast
    then have "e \<in> E" "ne_Status e = ne_Status x" "node_key e = node_key x"
      using that(1) unfolding kept_def by blast+
    then show ?thesis using e kept_events(1) [OF that(1), of e] event_key_eq by (metis image_eqI)
  qed
  show "e \<in> E \<and> ne_Status e \<in> kept_statuses \<and>
      (\<forall>x \<in> E. event_key x = event_key e \<longrightarrow> \<not> node_wins (ne_Status e) e x)"
    if "e \<in> set (collect_node_events ms)"
  proof -
    have "ne_Status e = s \<Longrightarrow> s \<in> kept_statuses \<Longrightarrow> ne_Status e \<in> kept_statuses" for s by simp
    then show ?thesis
      using that one [OF st(1)] one [OF st(2)] one [OF st(3)] one [OF st(4)]
      unfolding collect_append set_append kept_statuses_def by blast
  qed
  show "event_key x \<in> event_key ` set (collect_node_events ms)"
    if "x \<in> E" "ne_Status x \<in> kept_statuses"
    using that(2) two [OF _ that(1)] st
    unfolding collect_append set_append kept_statuses_def image_Un by (metis Un_iff insertE emptyE)
qed

text \<open>The comparator is the lexicographic order on all fields but the comment.\<close>

definition node_sort_key :: "node_event \<Rightarrow> int \<times> int \<times> int \<times> string \<times> int" where
  "node_sort_key e =
     (ne_Ts e, ne_RunId e, ne_WrittenByBatchIdx e, ne_ScriptNode e, ne_Status e)"

lemma node_event_cmp_key: "node_event_cmp = cmp_key node_sort_key"
proof (intro ext)
  fix l r
  show "node_event_cmp l r = cmp_key node_sort_key l r"
    by (auto simp: node_event_cmp_def node_sort_key_def cmp_key_def less_prod_def)
qed

lemma node_events_decoded:
  assumes "mapr (\<lambda>r. row_error ''cannot deserialize node history row''
      (NewNodeHistoryEventFromMap r NodeHistoryEventAllFields)) rows = Inr evs"
  shows "\<exists>ms. all_kept (set evs) ms \<and>
    NodeHistoryRowsToEvents rows = Inr (SortFunc node_event_cmp (collect_node_events ms))"
proof -
  let ?m0 = "\<lparr>nm_start = [], nm_success = [], nm_fail = [], nm_stop = []\<rparr>"
  have "all_kept {} ?m0" by (simp add: all_kept_def kept_empty)
  then have "all_kept (set evs) (foldl node_history_event ?m0 evs)"
    using all_kept_fold [of "{}" ?m0 evs] by simp
  moreover have "NodeHistoryRowsToEvents rows =
      Inr (SortFunc node_event_cmp (collect_node_events (foldl node_history_event ?m0 evs)))"
    unfolding NodeHistoryRowsToEvents_def
    using foldr_err_decoded [OF assms, of "\<lambda>ms rec. Inr (node_history_event ms rec)"]
    by (simp add: foldr_err_total)
  ultimately show ?thesis by blast
qed

subsection \<open>The status of a node and of a run from the node events\<close>

definition node_run_statuses :: "int \<Rightarrow> string \<Rightarrow> node_event list \<Rightarrow> int list" where
  "node_run_statuses runId n es =
     map ne_Status (filter (\<lambda>e. ne_RunId e = runId \<and> ne_ScriptNode e = n) es)"

text \<open>The last status counts, unless a stop was received.\<close>

definition node_final_status :: "int option \<Rightarrow> int list \<Rightarrow> int option" where
  "node_final_status s0 sts =
     (if sts = [] then s0
      else if s0 = Some NodeBatchRunStopReceived \<or> NodeBatchRunStopReceived \<in> set sts
      then Some NodeBatchRunStopReceived
      else Some (last sts))"

lemma figure_step_lookup:
  "map_of (figure_step runId m e) n =
     (if ne_RunId e = runId \<and> ne_ScriptNode e = n \<and> map_of m n \<noteq> Some NodeBatchRunStopReceived
      then Some (ne_Status e) else map_of m n)"
  by (auto simp: figure_step_def update_conv' Let_def split: option.splits)

lemma figure_fold_lookup:
  "map_of (foldl (figure_step runId) m es) n =
     node_final_status (map_of m n) (node_run_statuses runId n es)"
proof (induction es arbitrary: m)
  case (Cons e es)
  then show ?case
    by (auto simp: figure_step_lookup node_run_statuses_def node_final_status_def)
qed (simp add: node_run_statuses_def node_final_status_def)

lemma figure_fold_distinct:
  "distinct (map fst m) \<Longrightarrow> distinct (map fst (foldl (figure_step runId) m es))"
proof (induction es arbitrary: m)
  case (Cons e es)
  have "distinct (map fst (figure_step runId m e))"
    using Cons.prems by (auto simp: figure_step_def Let_def distinct_update split: option.splits)
  then show ?case using Cons.IH by simp
qed simp

lemma none_fold_lookup:
  "map_of (foldl (\<lambda>m n. AList.update n v m) m0 ns) n = (if n \<in> set ns then Some v else map_of m0 n)"
  by (induction ns arbitrary: m0) (auto simp: update_conv')

lemma none_fold_distinct:
  "distinct (map fst m0) \<Longrightarrow> distinct (map fst (foldl (\<lambda>m n. AList.update n v m) m0 ns))"
  by (induction ns arbitrary: m0) (auto simp: distinct_update)

lemma highest_fold:
  "foldl (\<lambda>h (n, s). if s > h then s else h) (h0 :: int) m = Max (insert h0 (snd ` set m))"
proof (induction m arbitrary: h0)
  case (Cons p m)
  have "foldl (\<lambda>h (n, s). if s > h then s else h) h0 (p # m) = Max (insert (max h0 (snd p)) (snd ` set m))"
    using Cons.IH by (simp add: case_prod_beta' max_def)
  then show ?case by (simp add: Max_insert_max del: Max_insert)
qed simp

lemma lowest_fold:
  "foldl (\<lambda>l (n, s). if s < l then s else l) (l0 :: int) m = Min (insert l0 (snd ` set m))"
proof (induction m arbitrary: l0)
  case (Cons p m)
  have "foldl (\<lambda>l (n, s). if s < l then s else l) l0 (p # m) = Min (insert (min l0 (snd p)) (snd ` set m))"
    using Cons.IH by (auto simp: case_prod_beta' min_def)
  moreover have "Min (insert (min l0 (snd p)) (snd ` set m)) = Min (insert l0 (insert (snd p) (snd ` set m)))"
  proof (cases "m = []")
    case False
    then show ?thesis by (simp add: min.assoc)
  qed simp
  ultimately show ?case by simp
qed simp

subsection \<open>Which runs a node depends on\<close>

lemma intersect_from_filter:
  "distinct vs \<Longrightarrow> intersect_from M vs = filter (\<lambda>v. v \<in> M) vs"
proof (induction vs arbitrary: M)
  case (Cons v vs)
  have "filter (\<lambda>x. x \<in> M - {v}) vs = filter (\<lambda>x. x \<in> M) vs"
    using Cons.prems by (auto intro!: filter_cong)
  then show ?case using Cons by simp
qed simp

definition affected_deps :: "string list \<Rightarrow> run_properties \<Rightarrow> string list" where
  "affected_deps deps p = filter (\<lambda>n. n \<in> set (Split (rp_AffectedNodes p) (CHR '',''))) deps"

lemma run_deps_event_distinct:
  assumes "distinct deps"
  shows "run_deps_event deps a p =
    (let ns = affected_deps deps p in
     \<lparr>rd_RunIds = rd_RunIds a @ (if ns = [] then [] else [rp_RunId p]),
      rd_NodesMap = (if ns = [] then rd_NodesMap a else (rd_NodesMap a)(rp_RunId p \<mapsto> ns)),
      rd_Present = rd_Present a \<union> set ns\<rparr>)"
  using assms
  by (auto simp: run_deps_event_def intersectTwoSlicesOfStrings_def intersect_from_filter
      affected_deps_def Let_def)

lemma run_deps_fold:
  assumes "distinct deps"
  shows "foldl (run_deps_event deps) a ps =
    \<lparr>rd_RunIds = rd_RunIds a @ map rp_RunId (filter (\<lambda>p. affected_deps deps p \<noteq> []) ps),
     rd_NodesMap = rd_NodesMap a ++ map_of (rev (map (\<lambda>p. (rp_RunId p, affected_deps deps p))
        (filter (\<lambda>p. affected_deps deps p \<noteq> []) ps))),
     rd_Present = rd_Present a \<union> (\<Union>p \<in> set ps. set (affected_deps deps p))\<rparr>"
proof (induction ps arbitrary: a)
  case (Cons p ps)
  show ?case
    unfolding foldl.simps Cons.IH
    by (auto simp: run_deps_event_distinct [OF assms] Let_def map_add_assoc)
qed simp

subsection \<open>The properties\<close>

text \<open>C7: the status computed from the batch history of a node: with consistent batch numbers it is
  start while some batch of the node has no terminal event, then fail, stop received or success in
  this priority, with the number of open batches; inconsistent numbers are an error. A history
  without rows gives success for a total of -1.\<close>

theorem node_status_from_batches:
  fixes rows :: "('f, 'd) row list"
  assumes "batch_events rows fs = Inr (e0 # evs)"
  shows "((\<forall>e \<in> set (e0 # evs). batch_ok (be_BatchesTotal e0) e) \<longrightarrow>
      AllBatchHistoryRowsToNodeStatus rows fs =
        Inr (node_status_of (set (e0 # evs)) (be_BatchesTotal e0),
             card (batch_pending (set (e0 # evs)) (be_BatchesTotal e0)), be_BatchesTotal e0)) \<and>
    ((\<exists>e \<in> set (e0 # evs). \<not> batch_ok (be_BatchesTotal e0) e) \<longrightarrow>
      (\<exists>x. AllBatchHistoryRowsToNodeStatus rows fs = Inl x)) \<and>
    AllBatchHistoryRowsToNodeStatus ([] :: ('f, 'd) row list) fs = Inr (NodeBatchSuccess, 0, -1)"
proof -
  have "AllBatchHistoryRowsToNodeStatus ([] :: ('f, 'd) row list) fs = Inr (NodeBatchSuccess, 0, -1)"
    by (simp add: AllBatchHistoryRowsToNodeStatus_def node_status_init_def)
  then show ?thesis using node_status_rows [OF assms] by blast
qed

definition ex_batch_row :: "int \<Rightarrow> int \<Rightarrow> int \<Rightarrow> (unit, unit) row" where
  "ex_batch_row idx n st =
     [''batch_idx'' \<mapsto> VInt32 idx, ''batches_total'' \<mapsto> VInt32 n, ''status'' \<mapsto> VInt8 st]"

definition ex_batch_fields :: "string list" where
  "ex_batch_fields = [''batch_idx'', ''batches_total'', ''status'']"

lemma ex_batch_event:
  "NewBatchHistoryEventFromMap (ex_batch_row i n s) ex_batch_fields =
     Inr (empty_batch_event\<lparr>be_BatchIdx := wrap16 i, be_BatchesTotal := wrap16 n, be_Status := s\<rparr>)"
  by (simp add: NewBatchHistoryEventFromMap_def ex_batch_fields_def ex_batch_row_def
      batch_event_field_def set_field_def ReadInt16FromRow_def ReadNodeBatchStatusFromRow_def
      empty_batch_event_def)

theorem node_status_from_batches_witness:
  "AllBatchHistoryRowsToNodeStatus [ex_batch_row 0 2 3, ex_batch_row 1 2 1] ex_batch_fields =
     Inr (NodeBatchStart, 1, 2)"
proof -
  let ?e0 = "empty_batch_event\<lparr>be_BatchIdx := 0, be_BatchesTotal := 2, be_Status := 3\<rparr>"
  let ?e1 = "empty_batch_event\<lparr>be_BatchIdx := 1, be_BatchesTotal := 2, be_Status := 1\<rparr>"
  have w: "wrap16 0 = 0" "wrap16 1 = 1" "wrap16 2 = 2" by (simp_all add: wrap_def)
  have ev: "batch_events [ex_batch_row 0 2 3, ex_batch_row 1 2 1] ex_batch_fields = Inr [?e0, ?e1]"
    by (simp add: batch_events_def ex_batch_event row_error_def w)
  have p: "batch_pending (set [?e0, ?e1]) 2 = {1}"
    by (auto simp: batch_pending_def batch_terminal_def empty_batch_event_def)
  have "batch_ok 2 ?e0" "batch_ok 2 ?e1"
    by (simp_all add: batch_ok_def empty_batch_event_def)
  then have ok: "\<forall>e \<in> set [?e0, ?e1]. batch_ok (be_BatchesTotal ?e0) e" by simp
  show ?thesis using mp [OF conjunct1 [OF node_status_from_batches [OF ev]] ok] p
    by (simp add: node_status_of_def)
qed

text \<open>C8: the order in which the database returns the batch rows has no influence on the status of
  the node.\<close>

theorem node_status_ignores_row_order:
  assumes "mset rows' = mset rows" and "batch_events rows fs = Inr evs"
    and "AllBatchHistoryRowsToNodeStatus rows fs = Inr v"
  shows "AllBatchHistoryRowsToNodeStatus rows' fs = Inr v"
proof (cases evs)
  case Nil
  then have "rows = []" using assms(2) by (simp add: batch_events_def mapr_Inr_map)
  then show ?thesis using assms by simp
next
  case (Cons e0 es)
  obtain evs' where ev': "batch_events rows' fs = Inr evs'" "mset evs' = mset evs"
    using mapr_permutation assms(1,2) unfolding batch_events_def by blast
  then obtain e1 es' where c: "evs' = e1 # es'" using Cons by (cases evs') auto
  have eq: "set (e1 # es') = set (e0 # es)" using ev'(2) c Cons by (metis set_mset_mset)
  note A = node_status_rows [OF assms(2) [unfolded Cons]]
  note B = node_status_rows [OF ev'(1) [unfolded c]]
  have ok: "\<forall>e \<in> set (e0 # es). batch_ok (be_BatchesTotal e0) e"
    using A(2) assms(3) by fastforce
  moreover have "e1 \<in> set (e0 # es)" using eq by (metis list.set_intros(1))
  ultimately have bt: "be_BatchesTotal e1 = be_BatchesTotal e0" unfolding batch_ok_def by blast
  have "\<forall>e \<in> set (e1 # es'). batch_ok (be_BatchesTotal e1) e" unfolding eq bt by (rule ok)
  from B(1) [OF this, unfolded eq bt] A(1) [OF ok] assms(3) show ?thesis by simp
qed

theorem node_status_ignores_row_order_witness:
  "AllBatchHistoryRowsToNodeStatus [ex_batch_row 0 1 2, ex_batch_row 0 1 1] ex_batch_fields =
     Inr (NodeBatchSuccess, 0, 1)"
proof -
  have w: "wrap16 0 = 0" "wrap16 1 = 1" by (simp_all add: wrap_def)
  let ?rows = "[ex_batch_row 0 1 1, ex_batch_row 0 1 2]"
  let ?e = "\<lambda>s. empty_batch_event\<lparr>be_BatchIdx := 0, be_BatchesTotal := 1, be_Status := s\<rparr>"
  have ev: "batch_events ?rows ex_batch_fields = Inr [?e 1, ?e 2]"
    by (simp add: batch_events_def ex_batch_event row_error_def w)
  have "AllBatchHistoryRowsToNodeStatus ?rows ex_batch_fields = Inr (NodeBatchSuccess, 0, 1)"
    by (simp add: AllBatchHistoryRowsToNodeStatus_def node_status_step_def ex_batch_event
        row_error_def w node_status_event_def node_status_init_def List.union_def empty_batch_event_def
        upto_rec1)
  from node_status_ignores_row_order [OF _ ev this] show ?thesis by simp
qed

text \<open>The last status of a batch is the one of the latest event, ties broken by the priority
  of the statuses: the lexicographic maximum over the events and (epoch, none), whatever the order
  of the rows.\<close>

theorem last_batch_status_is_latest:
  assumes "batch_events rows fs = Inr evs"
  shows "SingleBatchHistoryRowsToLastBatchStatus rows fs =
    Inr (case Max (insert (0, NodeBatchNone) ((\<lambda>e. (be_Ts e, be_Status e)) ` set evs)) of
           (t, s) \<Rightarrow> (s, t))"
  unfolding SingleBatch_events [OF assms] last_batch_status_fold by simp

theorem last_batch_status_is_latest_witness:
  "SingleBatchHistoryRowsToLastBatchStatus
     [[''ts'' \<mapsto> VTime 7, ''status'' \<mapsto> VInt8 2], [''ts'' \<mapsto> VTime 7, ''status'' \<mapsto> VInt8 1]
      :: (unit, unit) row] [''ts'', ''status''] = Inr (NodeBatchSuccess, 7)"
proof -
  let ?e = "\<lambda>s. empty_batch_event\<lparr>be_Ts := 7, be_Status := s\<rparr>"
  have "batch_events [[''ts'' \<mapsto> VTime 7, ''status'' \<mapsto> VInt8 2],
      [''ts'' \<mapsto> VTime 7, ''status'' \<mapsto> VInt8 1] :: (unit, unit) row] [''ts'', ''status''] =
    Inr [?e 2, ?e 1]"
    by (simp add: batch_events_def NewBatchHistoryEventFromMap_def batch_event_field_def
        set_field_def ReadTimeFromRow_def ReadNodeBatchStatusFromRow_def row_error_def)
  from last_batch_status_is_latest [OF this] show ?thesis
    by (simp add: max_def less_eq_prod_def)
qed

text \<open>The status of a run read for a batch has no such tie break: a start and a stop with equal
  time stamps give the status of the row that the database happens to return first.\<close>

theorem run_status_depends_on_row_order:
  "\<exists>a b :: ('f, 'd) row. RunHistoryRowsToStatus [a, b] = Inr RunStart \<and>
     RunHistoryRowsToStatus [b, a] = Inr RunStop \<and> ReadTimeFromRow ''ts'' a = ReadTimeFromRow ''ts'' b"
proof -
  let ?r = "\<lambda>s. [''ts'' \<mapsto> VTime 7, ''status'' \<mapsto> VInt8 s] :: ('f, 'd) row"
  have "RunHistoryRowsToStatus [?r 1, ?r 3] = Inr RunStart \<and>
     RunHistoryRowsToStatus [?r 3, ?r 1] = Inr RunStop \<and>
     ReadTimeFromRow ''ts'' (?r 1) = ReadTimeFromRow ''ts'' (?r 3)"
    by (simp add: RunHistoryRowsToStatus_def NewRunHistoryEventFromMap_def run_event_field_def
        set_field_def ReadTimeFromRow_def ReadRunStatusFromRow_def row_error_def
        run_status_event_def)
  then show ?thesis by blast
qed

text \<open>C9: the map of run statuses holds, for every run with an event, the maximum of its statuses
  (stop over complete over start over none), and so does not depend on the order of the events.\<close>

theorem run_status_map_is_maximum:
  assumes "\<forall>e \<in> set es. 0 \<le> re_Status e \<and> re_Status e \<le> RunStop"
  shows "RunHistoryEventsToRunStatusMap es r =
    (if run_statuses r es = {} then None else Some (Max (run_statuses r es)))"
  unfolding RunHistoryEventsToRunStatusMap_def using assms by (intro run_status_map_fold) auto

definition ex_run_event :: "int \<Rightarrow> int \<Rightarrow> int \<Rightarrow> run_event" where
  "ex_run_event t r s = \<lparr>re_Ts = t, re_RunId = r, re_Status = s, re_Comment = ''''\<rparr>"

theorem run_status_map_is_maximum_witness:
  "RunHistoryEventsToRunStatusMap [ex_run_event 9 1 3, ex_run_event 5 1 1, ex_run_event 6 2 2] 1 =
     Some RunStop"
proof -
  let ?es = "[ex_run_event 9 1 3, ex_run_event 5 1 1, ex_run_event 6 2 2]"
  have r: "run_statuses 1 ?es = {3, 1}" by (simp add: run_statuses_simps ex_run_event_def)
  have "\<forall>e \<in> set ?es. 0 \<le> re_Status e \<and> re_Status e \<le> RunStop" by (simp add: ex_run_event_def)
  from run_status_map_is_maximum [OF this, of 1] show ?thesis unfolding r by simp
qed



text \<open>C11: the node history keeps, per run, node and status among start, success, fail and stop
  received, exactly one of the events that were read, the earliest for a start and a latest for
  the others; the result is in the order of the comparator, and it is the one order of these
  events, so that the iteration order of the maps has no influence.\<close>

theorem node_history_keeps_one_event:
  assumes "mapr (\<lambda>r. row_error ''cannot deserialize node history row''
      (NewNodeHistoryEventFromMap r NodeHistoryEventAllFields)) rows = Inr evs"
  shows "\<exists>out. NodeHistoryRowsToEvents rows = Inr out \<and> sorted_cmp node_event_cmp out \<and>
    distinct (map event_key out) \<and>
    (\<forall>e \<in> set out. e \<in> set evs \<and> ne_Status e \<in> kept_statuses \<and>
       (\<forall>x \<in> set evs. event_key x = event_key e \<longrightarrow>
          (if ne_Status e = NodeBatchStart then ne_Ts e \<le> ne_Ts x else ne_Ts x \<le> ne_Ts e))) \<and>
    (\<forall>x \<in> set evs. ne_Status x \<in> kept_statuses \<longrightarrow> event_key x \<in> event_key ` set out) \<and>
    (\<forall>other. mset other = mset out \<longrightarrow> SortFunc node_event_cmp other = out)"
proof -
  obtain ms where k: "all_kept (set evs) ms"
    and r: "NodeHistoryRowsToEvents rows = Inr (SortFunc node_event_cmp (collect_node_events ms))"
    using node_events_decoded [OF assms] by blast
  define out where "out = SortFunc node_event_cmp (collect_node_events ms)"
  have set: "set out = set (collect_node_events ms)" and mset: "mset out = mset (collect_node_events ms)"
    by (simp_all add: out_def)
  have dist: "distinct (map event_key out)"
    using collect_distinct [OF k] mset by (metis mset_eq_imp_distinct_iff mset_map)
  have srt: "sorted_cmp node_event_cmp out"
    unfolding out_def node_event_cmp_key by (rule key_cmp.sorted_SortFunc)
  have "SortFunc node_event_cmp other = out" if "mset other = mset out" for other
  proof -
    have "x = y" if xy: "x \<in> set out" "y \<in> set out"
      "node_event_cmp x y \<le> 0" "node_event_cmp y x \<le> 0" for x y
    proof -
      have "event_key x = event_key y"
        using xy(3,4) by (auto simp: node_event_cmp_key cmp_key_le node_sort_key_def event_key_def
            less_eq_prod_def)
      then show ?thesis using dist xy(1,2) by (simp add: distinct_map inj_on_def)
    qed
    then have "SortFunc node_event_cmp out = SortFunc node_event_cmp other"
      unfolding node_event_cmp_key using that
      by (intro key_cmp.SortFunc_permutation) (auto simp: node_event_cmp_key)
    moreover have "SortFunc node_event_cmp out = out"
      unfolding node_event_cmp_key
      by (rule key_cmp.SortFunc_sorted_id) (use srt node_event_cmp_key in simp)
    ultimately show ?thesis by simp
  qed
  moreover have "e \<in> set evs \<and> ne_Status e \<in> kept_statuses \<and>
       (\<forall>x \<in> set evs. event_key x = event_key e \<longrightarrow>
          (if ne_Status e = NodeBatchStart then ne_Ts e \<le> ne_Ts x else ne_Ts x \<le> ne_Ts e))"
    if "e \<in> set out" for e
    using collect_kept(1) [OF k that [unfolded set]] by (auto simp: node_wins_def not_less)
  moreover have "event_key x \<in> event_key ` set out"
    if "x \<in> set evs" "ne_Status x \<in> kept_statuses" for x
    using collect_kept(2) [OF k that] set by simp
  ultimately show ?thesis using r srt dist unfolding out_def [symmetric] by blast
qed

definition ex_node_row :: "int \<Rightarrow> int \<Rightarrow> (unit, unit) row" where
  "ex_node_row t s = [''ts'' \<mapsto> VTime t, ''run_id'' \<mapsto> VInt32 1, ''script_node'' \<mapsto> VStr ''n'',
     ''written_by_batch_idx'' \<mapsto> VInt32 0, ''status'' \<mapsto> VInt8 s, ''comment'' \<mapsto> VStr '''']"

definition ex_node_event :: "int \<Rightarrow> int \<Rightarrow> node_event" where
  "ex_node_event t s = \<lparr>ne_Ts = t, ne_RunId = 1, ne_ScriptNode = ''n'', ne_WrittenByBatchIdx = 0,
     ne_Status = s, ne_Comment = ''''\<rparr>"

lemma ex_node_event:
  "NewNodeHistoryEventFromMap (ex_node_row t s) NodeHistoryEventAllFields = Inr (ex_node_event t s)"
proof -
  have w: "wrap16 0 = 0" "wrap16 1 = 1" by (simp_all add: wrap_def)
  show ?thesis
    by (simp add: NewNodeHistoryEventFromMap_def NodeHistoryEventAllFields_def ex_node_row_def
        node_event_field_def set_field_def ReadTimeFromRow_def ReadInt16FromRow_def
        ReadStringFromRow_def ReadNodeBatchStatusFromRow_def ex_node_event_def w)
qed

theorem node_history_keeps_one_event_witness:
  "\<exists>out. NodeHistoryRowsToEvents [ex_node_row 8 1, ex_node_row 5 1] = Inr out \<and>
     ex_node_event 5 1 \<in> set out \<and> ex_node_event 8 1 \<notin> set out"
proof -
  have "mapr (\<lambda>r. row_error ''cannot deserialize node history row''
      (NewNodeHistoryEventFromMap r NodeHistoryEventAllFields)) [ex_node_row 8 1, ex_node_row 5 1] =
    Inr [ex_node_event 8 1, ex_node_event 5 1]"
    by (simp add: ex_node_event row_error_def)
  from node_history_keeps_one_event [OF this] obtain out where
    r: "NodeHistoryRowsToEvents [ex_node_row 8 1, ex_node_row 5 1] = Inr out" and
    early: "\<forall>e \<in> set out. e \<in> {ex_node_event 8 1, ex_node_event 5 1} \<and>
       (\<forall>x \<in> {ex_node_event 8 1, ex_node_event 5 1}. event_key x = event_key e \<longrightarrow>
          (if ne_Status e = NodeBatchStart then ne_Ts e \<le> ne_Ts x else ne_Ts x \<le> ne_Ts e))" and
    some: "\<forall>x \<in> {ex_node_event 8 1, ex_node_event 5 1}. ne_Status x \<in> kept_statuses \<longrightarrow>
       event_key x \<in> event_key ` set out" by auto
  have "ex_node_event 8 1 \<notin> set out"
    using early by (force simp: ex_node_event_def event_key_def)
  moreover have "set out \<noteq> {}" using some by (auto simp: ex_node_event_def kept_statuses_def)
  then obtain e where "e \<in> set out" by (metis ex_in_conv)
  moreover from this have "e = ex_node_event 8 1 \<or> e = ex_node_event 5 1" using early by blast
  ultimately have "ex_node_event 5 1 \<in> set out" by blast
  then show ?thesis using r \<open>ex_node_event 8 1 \<notin> set out\<close> by blast
qed

text \<open>C12: the status of a node in a run is that of its last event in the order given, except that a
  stop received is never overwritten, so that a success after a fail gives success; affected nodes
  without events have status none. The run has the highest status of its nodes when all are past
  start and the lowest otherwise.\<close>

theorem last_node_event_wins:
  assumes "FigureOutRunStatusAndAffectedNodesStatusesFromNodeEvents es runId affected = (st, m)"
  shows "map_of m n = node_final_status (if n \<in> set affected then Some NodeBatchNone else None)
      (node_run_statuses runId n es) \<and>
    st = (let S = snd ` set m in
          if \<forall>s \<in> insert NodeBatchRunStopReceived S. s > NodeBatchStart
          then Max (insert NodeBatchNone S) else Min (insert NodeBatchRunStopReceived S)) \<and>
    distinct (map fst m)"
proof -
  let ?m0 = "foldl (\<lambda>m n. AList.update n NodeBatchNone m) [] affected"
  have m: "m = foldl (figure_step runId) ?m0 es"
    and st: "st = (if foldl (\<lambda>l (n, s). if s < l then s else l) NodeBatchRunStopReceived m > NodeBatchStart
      then foldl (\<lambda>h (n, s). if s > h then s else h) NodeBatchNone m
      else foldl (\<lambda>l (n, s). if s < l then s else l) NodeBatchRunStopReceived m)"
    using assms
    by (auto simp: FigureOutRunStatusAndAffectedNodesStatusesFromNodeEvents_def Let_def split: if_splits)
  have "map_of m n = node_final_status (if n \<in> set affected then Some NodeBatchNone else None)
      (node_run_statuses runId n es)"
    unfolding m figure_fold_lookup none_fold_lookup by simp
  moreover have "distinct (map fst m)"
    unfolding m by (intro figure_fold_distinct none_fold_distinct) simp
  moreover have "NodeBatchStart < Min (insert NodeBatchRunStopReceived (snd ` set m)) \<longleftrightarrow>
      (\<forall>s \<in> insert NodeBatchRunStopReceived (snd ` set m). s > NodeBatchStart)"
    by (subst Min_gr_iff) auto
  ultimately show ?thesis
    unfolding st highest_fold lowest_fold Let_def by (simp del: insert_iff ball_simps)
qed

theorem last_node_event_wins_witness:
  "\<exists>st m. FigureOutRunStatusAndAffectedNodesStatusesFromNodeEvents
       [ex_node_event 5 3, ex_node_event 6 2] 1 [''n''] = (st, m) \<and>
     map_of m ''n'' = Some NodeBatchSuccess"
proof -
  obtain st m where r: "FigureOutRunStatusAndAffectedNodesStatusesFromNodeEvents
       [ex_node_event 5 3, ex_node_event 6 2] 1 [''n''] = (st, m)" by force
  have "map_of m ''n'' = Some NodeBatchSuccess"
    using last_node_event_wins [OF r, of "''n''"]
    by (simp add: node_final_status_def node_run_statuses_def ex_node_event_def)
  with r show ?thesis by blast
qed

text \<open>C13: the runs a node depends on: the ids of the runs, in the order of the rows, whose affected
  nodes contain one of the dependency nodes, and under each id those dependency nodes (of the last
  such row); a dependency node that no run has touched is an error.\<close>

theorem run_dependencies:
  assumes "mapr (\<lambda>r. NewRunPropertiesFromMap r fs) rows = Inr ps" and "distinct deps"
  defines "touching \<equiv> filter (\<lambda>p. affected_deps deps p \<noteq> []) ps"
  shows "((\<forall>n \<in> set deps. \<exists>p \<in> set ps. n \<in> set (affected_deps deps p)) \<longrightarrow>
      MultipleRunsPropertiesToDependencies rows deps fs =
        Inr (map rp_RunId touching,
             map_of (rev (map (\<lambda>p. (rp_RunId p, affected_deps deps p)) touching)))) \<and>
    ((\<exists>n \<in> set deps. \<forall>p \<in> set ps. n \<notin> set (affected_deps deps p)) \<longrightarrow>
      (\<exists>x. MultipleRunsPropertiesToDependencies rows deps fs = Inl x))"
proof -
  let ?a = "\<lparr>rd_RunIds = [], rd_NodesMap = (\<lambda>_. None), rd_Present = {}\<rparr>"
  let ?P = "\<Union>p \<in> set ps. set (affected_deps deps p)"
  have "foldr_err (\<lambda>a r. bindr (NewRunPropertiesFromMap r fs) (\<lambda>rec. Inr (run_deps_event deps a rec)))
      ?a rows = Inr (foldl (run_deps_event deps) ?a ps)"
    using foldr_err_decoded [OF assms(1), of "\<lambda>a rec. Inr (run_deps_event deps a rec)"]
    by (simp add: foldr_err_total)
  also have "foldl (run_deps_event deps) ?a ps =
      \<lparr>rd_RunIds = map rp_RunId touching,
       rd_NodesMap = map_of (rev (map (\<lambda>p. (rp_RunId p, affected_deps deps p)) touching)),
       rd_Present = ?P\<rparr>"
    unfolding run_deps_fold [OF assms(2)] touching_def by simp
  finally have m: "MultipleRunsPropertiesToDependencies rows deps fs =
      (case filter (\<lambda>n. n \<notin> ?P) deps of
         [] \<Rightarrow> Inr (map rp_RunId touching,
                   map_of (rev (map (\<lambda>p. (rp_RunId p, affected_deps deps p)) touching)))
       | n # _ \<Rightarrow> Inl (''unexpectedly, dependency node '' @ n @
                ('' is not present in affected node lists'')))"
    by (simp add: MultipleRunsPropertiesToDependencies_def split: list.split)
  have "filter (\<lambda>n. n \<notin> ?P) deps = [] \<longleftrightarrow> (\<forall>n \<in> set deps. \<exists>p \<in> set ps. n \<in> set (affected_deps deps p))"
    by (auto simp: filter_empty_conv)
  then show ?thesis unfolding m by (cases "filter (\<lambda>n. n \<notin> ?P) deps") auto
qed

theorem run_dependencies_witness:
  "\<exists>m. MultipleRunsPropertiesToDependencies
     [[''run_id'' \<mapsto> VInt16 1, ''affected_nodes'' \<mapsto> VStr ''a,b''],
      [''run_id'' \<mapsto> VInt16 2, ''affected_nodes'' \<mapsto> VStr ''c''] :: (unit, unit) row]
     [''b''] [''run_id'', ''affected_nodes''] = Inr ([1], m) \<and> m 1 = Some [''b'']"
proof -
  let ?p = "\<lambda>i a. \<lparr>rp_RunId = i, rp_StartNodes = '''', rp_AffectedNodes = a, rp_ScriptUrl = '''',
        rp_ScriptParamsUrl = '''', rp_RunDescription = ''''\<rparr>"
  let ?fs = "[''run_id'', ''affected_nodes'']"
  let ?rows = "[[''run_id'' \<mapsto> VInt16 1, ''affected_nodes'' \<mapsto> VStr ''a,b''],
      [''run_id'' \<mapsto> VInt16 2, ''affected_nodes'' \<mapsto> VStr ''c''] :: (unit, unit) row]"
  have w: "wrap16 1 = 1" "wrap16 2 = 2" by (simp_all add: wrap_def)
  have rows: "mapr (\<lambda>r. NewRunPropertiesFromMap r ?fs) ?rows = Inr [?p 1 ''a,b'', ?p 2 ''c'']"
    by (simp add: NewRunPropertiesFromMap_def run_properties_field_def set_field_def
        ReadInt16FromRow_def ReadStringFromRow_def w)
  have d: "affected_deps [''b''] (?p 1 ''a,b'') = [''b'']" "affected_deps [''b''] (?p 2 ''c'') = []"
    by (simp_all add: affected_deps_def)
  have "distinct [''b'']" by simp
  from run_dependencies [OF rows this] show ?thesis by (simp add: d)
qed

end
