(* ===== verification/Go_Time.thy ===== *)
theory Go_Time
  imports Values
begin

text \<open>
  Formatting of a time.Time in UTC with the layout that the repository uses for Cassandra
  (sc.CassandraDatetimeFormat), over the calendar of the proleptic Gregorian years.
\<close>

text \<open>Year, month and day of a day number counted from the Unix epoch.\<close>

definition civil_from_days :: "int \<Rightarrow> int \<times> int \<times> int" where
  "civil_from_days z =
     (let z0 = z + 719468;
          era = z0 div 146097;
          doe = z0 mod 146097;
          yoe = (doe - doe div 1460 + doe div 36524 - doe div 146096) div 365;
          doy = doe - (365 * yoe + yoe div 4 - yoe div 100);
          mp = (5 * doy + 2) div 153;
          d = doy - (153 * mp + 2) div 5 + 1;
          m = (if mp < 10 then mp + 3 else mp - 9);
          y = yoe + era * 400 + (if m \<le> 2 then 1 else 0)
      in (y, m, d))"

definition format_utc_millis :: "gotime \<Rightarrow> string" where
  "format_utc_millis t =
     (let ms = t div 1000000;
          day = ms div 86400000;
          r = ms mod 86400000;
          (y, m, d) = civil_from_days day
      in int_str0 4 y @ ''-'' @ int_str0 2 m @ ''-'' @ int_str0 2 d @ ''T'' @
         int_str0 2 (r div 3600000) @ '':'' @ int_str0 2 (r div 60000 mod 60) @ '':'' @
         int_str0 2 (r div 1000 mod 60) @ ''.'' @ int_str0 3 (r mod 1000) @ ''+00:00'')"

lemma format_zero_time: "format_utc_millis zero_time = ''0001-01-01T00:00:00.000+00:00''"
  by code_simp

end
