(* ===== verification/Cql.thy ===== *)
theory Cql
  imports Go_Time
begin

text \<open>
  The CQL query builder (pkg/cql): a QueryBuilder is a record, every method that returns the
  builder for chaining is a function from record to record, and the methods that end a chain
  give the text of the query. A value is a dynamically typed gval; the printed form of floats,
  decimals and other values that the verb \<open>%v\<close> leaves to other packages is the parameter
  \<open>fv\<close>, and the conversion of a decimal to a Cassandra decimal is the parameter \<open>dp\<close>.
\<close>

datatype if_not_exists = IfExistsOverwrite | IfNotExistsLwt

datatype quote_policy = LeaveQuoteAsIs | ForceUnquote

definition ErrorCannotUpsertDuplicate :: string where
  "ErrorCannotUpsertDuplicate = ''dberror:cannot upsert duplicate''"

definition ErrorPrefixDb :: string where
  "ErrorPrefixDb = ''dberror:''"

definition RunIdSuffix :: "int \<Rightarrow> string" where
  "RunIdSuffix runId = (if runId > 0 then ''_'' @ int_str0 5 runId else '''')"

text \<open>A single quote, and a quote doubled for CQL.\<close>

definition quote :: string where
  "quote = [CHR 0x27]"

definition escape_quotes :: "string \<Rightarrow> string" where
  "escape_quotes s = ReplaceAll s quote (quote @ quote)"

definition default_str :: "(('f, 'd) gval \<Rightarrow> string) \<Rightarrow> ('f, 'd) gval \<Rightarrow> string" where
  "default_str fv v =
     (case v of
        VInt i \<Rightarrow> int_str i | VInt8 i \<Rightarrow> int_str i | VInt16 i \<Rightarrow> int_str i | VInt32 i \<Rightarrow> int_str i
      | VInt64 i \<Rightarrow> int_str i
      | VBool b \<Rightarrow> (if b then ''true'' else ''false'')
      | VNil \<Rightarrow> ''<nil>''
      | _ \<Rightarrow> fv v)"

definition valueToString ::
  "(('f, 'd) gval \<Rightarrow> string) \<Rightarrow> ('f, 'd) gval \<Rightarrow> quote_policy \<Rightarrow> string" where
  "valueToString fv value quotePolicy =
     (case value of
        VStr v \<Rightarrow> (if quotePolicy = ForceUnquote then escape_quotes v
                   else quote @ escape_quotes v @ quote)
      | VTime t \<Rightarrow> (if quotePolicy = ForceUnquote then format_utc_millis t
                    else quote @ format_utc_millis t @ quote)
      | _ \<Rightarrow> default_str fv value)"

definition valueToCqlParam :: "('d \<Rightarrow> ('f, 'd) gval) \<Rightarrow> ('f, 'd) gval \<Rightarrow> ('f, 'd) gval" where
  "valueToCqlParam dp value = (case value of VDec d \<Rightarrow> dp d | _ \<Rightarrow> value)"

subsection \<open>The parts of a query\<close>

record column_defs =
  cdef_Columns :: "string list"
  cdef_Types :: "string list"

definition column_defs_add :: "string \<Rightarrow> field_type \<Rightarrow> column_defs \<Rightarrow> column_defs" where
  "column_defs_add column fieldType cd =
     (let cqlType =
        (case fieldType of
           FieldTypeInt \<Rightarrow> ''BIGINT''
         | FieldTypeDecimal2 \<Rightarrow> ''DECIMAL''
         | FieldTypeFloat \<Rightarrow> ''DOUBLE''
         | FieldTypeString \<Rightarrow> ''TEXT''
         | FieldTypeBool \<Rightarrow> ''BOOLEAN''
         | FieldTypeDateTime \<Rightarrow> ''TIMESTAMP''
         | _ \<Rightarrow> ''UKNOWN_TYPE_'' @ field_type_str fieldType)
      in cd\<lparr>cdef_Columns := cdef_Columns cd @ [column], cdef_Types := cdef_Types cd @ [cqlType]\<rparr>)"

text \<open>Maps from column names to indexes are association lists, whose length is the size.\<close>

record ('f, 'd) prepared_data =
  pd_Columns :: "string list"
  pd_Values :: "('f, 'd) gval list"
  pd_ColumnIdxMap :: "(string \<times> nat) list"
  pd_ValueIdxMap :: "(string \<times> nat) list"

definition addColumnName ::
  "string \<Rightarrow> ('f, 'd) prepared_data \<Rightarrow> goerr + ('f, 'd) prepared_data" where
  "addColumnName column cd =
     (if map_of (pd_ColumnIdxMap cd) column \<noteq> None
      then Inl ''cannot add same column to a prepared query twice''
      else Inr (cd\<lparr>pd_Columns := pd_Columns cd @ [column],
                   pd_Values := pd_Values cd @ [VNil],
                   pd_ColumnIdxMap :=
                     AList.update column (length (pd_ColumnIdxMap cd)) (pd_ColumnIdxMap cd)\<rparr>))"

definition addColumnValue ::
  "('d \<Rightarrow> ('f, 'd) gval) \<Rightarrow> string \<Rightarrow> ('f, 'd) gval \<Rightarrow> ('f, 'd) prepared_data \<Rightarrow>
     goerr + ('f, 'd) prepared_data" where
  "addColumnValue dp column value cd =
     (case map_of (pd_ColumnIdxMap cd) column of
        None \<Rightarrow> Inl ''cannot set value for non-prepared column''
      | Some colIdx \<Rightarrow> Inr (cd\<lparr>pd_Values := (pd_Values cd)[colIdx := valueToCqlParam dp value],
                              pd_ValueIdxMap := AList.update column colIdx (pd_ValueIdxMap cd)\<rparr>))"

record column_data =
  cdat_Columns :: "string list"
  cdat_Values :: "string list"

definition column_data_add ::
  "(('f, 'd) gval \<Rightarrow> string) \<Rightarrow> string \<Rightarrow> ('f, 'd) gval \<Rightarrow> quote_policy \<Rightarrow> column_data \<Rightarrow> column_data"
  where
  "column_data_add fv column value quotePolicy cd =
     cd\<lparr>cdat_Values := cdat_Values cd @ [valueToString fv value quotePolicy],
        cdat_Columns := cdat_Columns cd @ [column]\<rparr>"

text \<open>A list of conditions is its items.\<close>

definition addInInt :: "string \<Rightarrow> int list \<Rightarrow> string list \<Rightarrow> string list" where
  "addInInt column values items = items @ [column @ '' IN ( '' @ Join (map int_str values) '', '' @ '' )'']"

definition addInInt16 :: "string \<Rightarrow> int list \<Rightarrow> string list \<Rightarrow> string list" where
  "addInInt16 column values items = items @ [column @ '' IN ( '' @ Join (map int_str values) '', '' @ '' )'']"

definition addInString :: "string \<Rightarrow> string list \<Rightarrow> string list \<Rightarrow> string list" where
  "addInString column values items =
     items @ [column @ '' IN ( '' @ quote @ Join (map escape_quotes values) (quote @ '', '' @ quote) @
              quote @ '' )'']"

definition addSimple ::
  "(('f, 'd) gval \<Rightarrow> string) \<Rightarrow> string \<Rightarrow> string \<Rightarrow> ('f, 'd) gval \<Rightarrow> string list \<Rightarrow> string list" where
  "addSimple fv column op value items =
     items @ [column @ '' '' @ op @ '' '' @ valueToString fv value LeaveQuoteAsIs]"

definition addSimpleForceUnquote ::
  "(('f, 'd) gval \<Rightarrow> string) \<Rightarrow> string \<Rightarrow> string \<Rightarrow> ('f, 'd) gval \<Rightarrow> string list \<Rightarrow> string list" where
  "addSimpleForceUnquote fv column op value items =
     items @ [column @ '' '' @ op @ '' '' @ valueToString fv value ForceUnquote]"

subsection \<open>The builder\<close>

record ('f, 'd) query_builder =
  ColumnDefs :: column_defs
  PartitionKeyColumns :: "string list"
  ClusteringKeyColumns :: "string list"
  ColumnData :: column_data
  PreparedColumnData :: "('f, 'd) prepared_data"
  Conditions :: "string list"
  IfConditions :: "string list"
  SelectLimit :: int
  FormattedKeyspace :: string
  OrderByColumns :: "string list"

definition NewQB :: "('f, 'd) query_builder" where
  "NewQB = \<lparr>ColumnDefs = \<lparr>cdef_Columns = [], cdef_Types = []\<rparr>, PartitionKeyColumns = [],
     ClusteringKeyColumns = [], ColumnData = \<lparr>cdat_Columns = [], cdat_Values = []\<rparr>,
     PreparedColumnData =
       \<lparr>pd_Columns = [], pd_Values = [], pd_ColumnIdxMap = [], pd_ValueIdxMap = []\<rparr>,
     Conditions = [], IfConditions = [], SelectLimit = 0, FormattedKeyspace = '''',
     OrderByColumns = []\<rparr>"

definition ColumnDef :: "string \<Rightarrow> field_type \<Rightarrow> ('f, 'd) query_builder \<Rightarrow> ('f, 'd) query_builder" where
  "ColumnDef column fieldType qb =
     qb\<lparr>ColumnDefs := column_defs_add column fieldType (ColumnDefs qb)\<rparr>"

definition PartitionKey :: "string list \<Rightarrow> ('f, 'd) query_builder \<Rightarrow> ('f, 'd) query_builder" where
  "PartitionKey column qb = qb\<lparr>PartitionKeyColumns := column\<rparr>"

definition ClusteringKey :: "string list \<Rightarrow> ('f, 'd) query_builder \<Rightarrow> ('f, 'd) query_builder" where
  "ClusteringKey column qb = qb\<lparr>ClusteringKeyColumns := column\<rparr>"

definition Keyspace :: "string \<Rightarrow> ('f, 'd) query_builder \<Rightarrow> ('f, 'd) query_builder" where
  "Keyspace keyspace qb =
     (let trimmed = TrimSpace keyspace
      in qb\<lparr>FormattedKeyspace := (if length trimmed > 0 then trimmed @ ''.'' else '''')\<rparr>)"

definition Limit :: "int \<Rightarrow> ('f, 'd) query_builder \<Rightarrow> ('f, 'd) query_builder" where
  "Limit limit qb = qb\<lparr>SelectLimit := limit\<rparr>"

definition Write ::
  "(('f, 'd) gval \<Rightarrow> string) \<Rightarrow> string \<Rightarrow> ('f, 'd) gval \<Rightarrow> ('f, 'd) query_builder \<Rightarrow>
     ('f, 'd) query_builder" where
  "Write fv column value qb =
     qb\<lparr>ColumnData := column_data_add fv column value LeaveQuoteAsIs (ColumnData qb)\<rparr>"

definition WritePreparedColumn ::
  "string \<Rightarrow> ('f, 'd) query_builder \<Rightarrow> goerr + ('f, 'd) query_builder" where
  "WritePreparedColumn column qb =
     bindr (addColumnName column (PreparedColumnData qb)) (\<lambda>cd. Inr (qb\<lparr>PreparedColumnData := cd\<rparr>))"

definition WritePreparedValue ::
  "('d \<Rightarrow> ('f, 'd) gval) \<Rightarrow> string \<Rightarrow> ('f, 'd) gval \<Rightarrow> ('f, 'd) query_builder \<Rightarrow>
     goerr + ('f, 'd) query_builder" where
  "WritePreparedValue dp column value qb =
     bindr (addColumnValue dp column value (PreparedColumnData qb))
       (\<lambda>cd. Inr (qb\<lparr>PreparedColumnData := cd\<rparr>))"

definition WriteForceUnquote ::
  "(('f, 'd) gval \<Rightarrow> string) \<Rightarrow> string \<Rightarrow> ('f, 'd) gval \<Rightarrow> ('f, 'd) query_builder \<Rightarrow>
     ('f, 'd) query_builder" where
  "WriteForceUnquote fv column value qb =
     qb\<lparr>ColumnData := column_data_add fv column value ForceUnquote (ColumnData qb)\<rparr>"

definition Cond ::
  "(('f, 'd) gval \<Rightarrow> string) \<Rightarrow> string \<Rightarrow> string \<Rightarrow> ('f, 'd) gval \<Rightarrow> ('f, 'd) query_builder \<Rightarrow>
     ('f, 'd) query_builder" where
  "Cond fv column op value qb = qb\<lparr>Conditions := addSimple fv column op value (Conditions qb)\<rparr>"

definition CondPrepared ::
  "(('f, 'd) gval \<Rightarrow> string) \<Rightarrow> string \<Rightarrow> string \<Rightarrow> ('f, 'd) query_builder \<Rightarrow> ('f, 'd) query_builder" where
  "CondPrepared fv column op qb =
     qb\<lparr>Conditions := addSimpleForceUnquote fv column op (VStr ''?'') (Conditions qb)\<rparr>"

definition CondInPrepared ::
  "(('f, 'd) gval \<Rightarrow> string) \<Rightarrow> string \<Rightarrow> ('f, 'd) query_builder \<Rightarrow> ('f, 'd) query_builder" where
  "CondInPrepared fv column qb =
     qb\<lparr>Conditions := addSimpleForceUnquote fv column ''IN'' (VStr ''?'') (Conditions qb)\<rparr>"

definition CondInInt :: "string \<Rightarrow> int list \<Rightarrow> ('f, 'd) query_builder \<Rightarrow> ('f, 'd) query_builder" where
  "CondInInt column values qb = qb\<lparr>Conditions := addInInt column values (Conditions qb)\<rparr>"

definition CondInInt16 :: "string \<Rightarrow> int list \<Rightarrow> ('f, 'd) query_builder \<Rightarrow> ('f, 'd) query_builder" where
  "CondInInt16 column values qb = qb\<lparr>Conditions := addInInt16 column values (Conditions qb)\<rparr>"

definition CondInString ::
  "string \<Rightarrow> string list \<Rightarrow> ('f, 'd) query_builder \<Rightarrow> ('f, 'd) query_builder" where
  "CondInString column values qb = qb\<lparr>Conditions := addInString column values (Conditions qb)\<rparr>"

definition OrderBy :: "string list \<Rightarrow> ('f, 'd) query_builder \<Rightarrow> ('f, 'd) query_builder" where
  "OrderBy columns qb = qb\<lparr>OrderByColumns := columns\<rparr>"

definition If_cond ::
  "(('f, 'd) gval \<Rightarrow> string) \<Rightarrow> string \<Rightarrow> string \<Rightarrow> ('f, 'd) gval \<Rightarrow> ('f, 'd) query_builder \<Rightarrow>
     ('f, 'd) query_builder" where
  "If_cond fv column op value qb = qb\<lparr>IfConditions := addSimple fv column op value (IfConditions qb)\<rparr>"

subsection \<open>The queries\<close>

definition if_not_exists_str :: "if_not_exists \<Rightarrow> string" where
  "if_not_exists_str i = (if i = IfNotExistsLwt then ''IF NOT EXISTS'' else '''')"

definition insertRunUnpreparedQuery ::
  "string \<Rightarrow> int \<Rightarrow> if_not_exists \<Rightarrow> ('f, 'd) query_builder \<Rightarrow> string" where
  "insertRunUnpreparedQuery tableName runId ifNotExists qb =
     (let q = ''INSERT INTO '' @ FormattedKeyspace qb @ tableName @ RunIdSuffix runId @ '' ( '' @
            Join (cdat_Columns (ColumnData qb)) '', '' @ '' ) VALUES ( '' @
            Join (cdat_Values (ColumnData qb)) '', '' @ '' ) '' @ if_not_exists_str ifNotExists @ '';''
      in if runId = 0 then ''INVALID runId: '' @ q else q)"

definition InsertUnpreparedQuery ::
  "string \<Rightarrow> if_not_exists \<Rightarrow> ('f, 'd) query_builder \<Rightarrow> string" where
  "InsertUnpreparedQuery tableName ifNotExists qb = insertRunUnpreparedQuery tableName (-1) ifNotExists qb"

definition InsertRunPreparedQuery ::
  "string \<Rightarrow> int \<Rightarrow> if_not_exists \<Rightarrow> ('f, 'd) query_builder \<Rightarrow> goerr + string" where
  "InsertRunPreparedQuery tableName runId ifNotExists qb =
     (let columnCount = length (pd_ColumnIdxMap (PreparedColumnData qb));
          paramArray = replicate columnCount ''?'';
          q = ''INSERT INTO '' @ FormattedKeyspace qb @ tableName @ RunIdSuffix runId @ '' ( '' @
            Join (take columnCount (pd_Columns (PreparedColumnData qb))) '', '' @ '' ) VALUES ( '' @
            Join paramArray '', '' @ '' ) '' @ if_not_exists_str ifNotExists @ '';''
      in if runId = 0 then Inl (''invalid runId=0 in '' @ q) else Inr q)"

definition InsertRunParams :: "('f, 'd) query_builder \<Rightarrow> goerr + ('f, 'd) gval list" where
  "InsertRunParams qb =
     (let cd = PreparedColumnData qb
      in if length (pd_ColumnIdxMap cd) \<noteq> length (pd_ValueIdxMap cd)
         then Inl ''cannot produce insert params, length mismatch''
         else Inr (take (length (pd_ValueIdxMap cd)) (pd_Values cd)))"

definition SelectRun :: "string \<Rightarrow> int \<Rightarrow> string list \<Rightarrow> ('f, 'd) query_builder \<Rightarrow> string" where
  "SelectRun tableName runId columns qb =
     (if runId = 0 then ''INVALID runId: '' else '''') @
     ''SELECT '' @ Join columns '', '' @ '' FROM '' @ FormattedKeyspace qb @ tableName @
     RunIdSuffix runId @
     (if Conditions qb \<noteq> [] then '' WHERE '' @ Join (Conditions qb) '' AND '' else '''') @
     (if OrderByColumns qb \<noteq> [] then '' ORDER BY '' @ Join (OrderByColumns qb) '','' @ '' '' else '''') @
     (if SelectLimit qb > 0 then '' LIMIT '' @ int_str (SelectLimit qb) else '''') @ '';''"

definition Select :: "string \<Rightarrow> string list \<Rightarrow> ('f, 'd) query_builder \<Rightarrow> string" where
  "Select tableName columns qb = SelectRun tableName (-1) columns qb"

definition DeleteRun :: "string \<Rightarrow> int \<Rightarrow> ('f, 'd) query_builder \<Rightarrow> string" where
  "DeleteRun tableName runId qb =
     (let q = ''DELETE FROM '' @ FormattedKeyspace qb @ tableName @ RunIdSuffix runId @ '' WHERE '' @
            Join (Conditions qb) '' AND ''
      in if runId = 0 then ''DEV ERROR, INVALID runId: '' @ q else q)"

definition Delete_query :: "string \<Rightarrow> ('f, 'd) query_builder \<Rightarrow> string" where
  "Delete_query tableName qb = DeleteRun tableName (-1) qb"

definition UpdateRun :: "string \<Rightarrow> int \<Rightarrow> ('f, 'd) query_builder \<Rightarrow> string" where
  "UpdateRun tableName runId qb =
     (let assignments = map (\<lambda>(c, v). c @ '' = '' @ v)
            (zip (cdat_Columns (ColumnData qb)) (cdat_Values (ColumnData qb)));
          q = ''UPDATE '' @ FormattedKeyspace qb @ tableName @ RunIdSuffix runId @ '' SET '' @
            Join assignments '', '' @ '' WHERE '' @ Join (Conditions qb) '' AND '';
          q1 = (if IfConditions qb \<noteq> [] then q @ '' IF '' @ Join (IfConditions qb) '' AND '' else q)
      in if runId = 0 then ''INVALID runId: '' @ q1 else q1)"

definition Update :: "string \<Rightarrow> ('f, 'd) query_builder \<Rightarrow> string" where
  "Update tableName qb = UpdateRun tableName (-1) qb"

definition CreateRun ::
  "string \<Rightarrow> int \<Rightarrow> if_not_exists \<Rightarrow> string \<Rightarrow> ('f, 'd) query_builder \<Rightarrow> string" where
  "CreateRun tableName runId ifNotExists createProperties qb =
     (if runId = 0 then ''INVALID runId: '' else '''') @ ''CREATE TABLE '' @
     (if ifNotExists = IfNotExistsLwt then ''IF NOT EXISTS '' else '''') @
     FormattedKeyspace qb @ tableName @ RunIdSuffix runId @ '' ( '' @
     Join (map (\<lambda>(c, t). c @ '' '' @ t)
       (zip (cdef_Columns (ColumnDefs qb)) (cdef_Types (ColumnDefs qb)))) '', '' @
     (if PartitionKeyColumns qb \<noteq> [] then
        '', '' @ ''PRIMARY KEY(('' @ Join (PartitionKeyColumns qb) '', '' @ '')'' @
        (if ClusteringKeyColumns qb \<noteq> [] then '', '' @ Join (ClusteringKeyColumns qb) '', '' else '''') @
        '')''
      else '''') @
     '')'' @
     (if Trim createProperties '' '' \<noteq> '''' then '' '' @ Trim createProperties '' '' else '''') @ '';''"

definition DropKeyspace :: "('f, 'd) query_builder \<Rightarrow> string" where
  "DropKeyspace qb = ''DROP KEYSPACE IF EXISTS '' @ ReplaceAll (FormattedKeyspace qb) ''.'' ''''"

subsection \<open>Quoting\<close>

text \<open>
  How CQL reads a string literal: up to the first single quote that is not doubled. The reader
  gives the value and the text behind the literal.
\<close>

fun read_body :: "string \<Rightarrow> (string \<times> string) option" where
  "read_body [] = None"
| "read_body [c] = (if c = CHR 0x27 then Some ([], []) else None)"
| "read_body (c # d # cs) =
     (if c = CHR 0x27 then
        (if d = CHR 0x27 then map_option (\<lambda>(v, r). (c # v, r)) (read_body cs)
         else Some ([], d # cs))
      else map_option (\<lambda>(v, r). (c # v, r)) (read_body (d # cs)))"

definition read_literal :: "string \<Rightarrow> (string \<times> string) option" where
  "read_literal s = (case s of [] \<Rightarrow> None | c # cs \<Rightarrow> if c = CHR 0x27 then read_body cs else None)"

lemma escape_quotes_simps:
  "escape_quotes [] = []"
  "escape_quotes (c # cs) = (if c = CHR 0x27 then [c, c] else [c]) @ escape_quotes cs"
  by (simp_all add: escape_quotes_def ReplaceAll_def quote_def HasPrefix_def)

lemma read_body_cons:
  "c \<noteq> CHR 0x27 \<Longrightarrow> s \<noteq> [] \<Longrightarrow> read_body (c # s) = map_option (\<lambda>(v, r). (c # v, r)) (read_body s)"
  by (cases s) auto

lemma read_body_escape:
  assumes "rest = [] \<or> hd rest \<noteq> CHR 0x27"
  shows "read_body (escape_quotes s @ quote @ rest) = Some (s, rest)"
proof (induction s)
  case Nil
  then show ?case using assms by (cases rest) (auto simp: escape_quotes_simps quote_def)
next
  case (Cons c s)
  have ne: "escape_quotes s @ quote @ rest \<noteq> []" by (simp add: quote_def)
  show ?case using Cons ne by (auto simp: escape_quotes_simps read_body_cons)
qed

lemma read_literal_value:
  assumes "rest = [] \<or> hd rest \<noteq> CHR 0x27"
  shows "read_literal (valueToString fv (VStr s) LeaveQuoteAsIs @ rest) = Some (s, rest)"
  using read_body_escape [OF assms, of s] by (simp add: read_literal_def valueToString_def quote_def)

text \<open>Reading a list of literals separated by a comma and a space.\<close>

fun read_literals :: "nat \<Rightarrow> string \<Rightarrow> (string list \<times> string) option" where
  "read_literals 0 s = None"
| "read_literals (Suc n) s =
     (case read_literal s of
        None \<Rightarrow> None
      | Some (v, r) \<Rightarrow>
          (if HasPrefix r '', '' then
             map_option (\<lambda>(vs, q). (v # vs, q)) (read_literals n (drop 2 r))
           else Some ([v], r)))"

abbreviation literal :: "string \<Rightarrow> string" where
  "literal s \<equiv> quote @ escape_quotes s @ quote"

lemma Join_quoted:
  "vs \<noteq> [] \<Longrightarrow> quote @ Join (map escape_quotes vs) (quote @ '', '' @ quote) @ quote =
     Join (map literal vs) '', ''"
proof (induction vs)
  case (Cons v vs)
  then show ?case by (cases "vs = []") (simp_all add: Join_Cons)
qed simp

lemma read_literals_Join:
  assumes "vs \<noteq> []" and "rest = '' )''"
  shows "read_literals (length vs) (Join (map literal vs) '', '' @ rest) = Some (vs, rest)"
  using assms(1)
proof (induction vs)
  case (Cons v vs)
  note lit = read_literal_value [where fv = "\<lambda>_. ''''", simplified valueToString_def gval.case, simplified]
  show ?case
  proof (cases vs)
    case Nil
    then show ?thesis using lit [of rest v] assms(2) by (simp add: HasPrefix_def)
  next
    case (Cons w ws)
    let ?r = "'', '' @ Join (map literal (w # ws)) '', '' @ rest"
    have "read_literal (literal v @ ?r) = Some (v, ?r)" using lit [of ?r v] by simp
    then show ?thesis using Cons.IH Cons by (simp add: HasPrefix_def)
  qed
qed simp

subsection \<open>Prepared columns and values\<close>

datatype ('f, 'd) prep_step = PrepColumn string | PrepValue string "('f, 'd) gval"

definition prep_step ::
  "('d \<Rightarrow> ('f, 'd) gval) \<Rightarrow> ('f, 'd) query_builder \<Rightarrow> ('f, 'd) prep_step \<Rightarrow>
     goerr + ('f, 'd) query_builder" where
  "prep_step dp qb st =
     (case st of PrepColumn c \<Rightarrow> WritePreparedColumn c qb | PrepValue c v \<Rightarrow> WritePreparedValue dp c v qb)"

definition prep_columns :: "('f, 'd) prep_step list \<Rightarrow> string list" where
  "prep_columns steps = List.map_filter (\<lambda>st. case st of PrepColumn c \<Rightarrow> Some c | _ \<Rightarrow> None) steps"

definition prep_value :: "('f, 'd) prep_step list \<Rightarrow> string \<Rightarrow> ('f, 'd) gval option" where
  "prep_value steps c =
     map_of (rev (List.map_filter (\<lambda>st. case st of PrepValue c v \<Rightarrow> Some (c, v) | _ \<Rightarrow> None) steps)) c"

lemma prep_simps:
  "prep_columns [] = []" "prep_value [] = (\<lambda>_. None)"
  "prep_columns (steps @ [PrepColumn c]) = prep_columns steps @ [c]"
  "prep_columns (steps @ [PrepValue c v]) = prep_columns steps"
  "prep_value (steps @ [PrepColumn c]) = prep_value steps"
  "prep_value (steps @ [PrepValue c v]) = (prep_value steps)(c \<mapsto> v)"
  by (auto simp: prep_columns_def prep_value_def map_filter_def fun_eq_iff)

text \<open>
  The columns are distinct and numbered in their order, the slice of values has their length,
  and it holds the last value written for a column at the column's index.
\<close>

definition prep_inv ::
  "('d \<Rightarrow> ('f, 'd) gval) \<Rightarrow> string list \<Rightarrow> (string \<Rightarrow> ('f, 'd) gval option) \<Rightarrow>
     ('f, 'd) prepared_data \<Rightarrow> bool" where
  "prep_inv dp cols vals cd \<longleftrightarrow>
     pd_Columns cd = cols \<and> distinct cols \<and>
     pd_ColumnIdxMap cd = zip cols [0..<length cols] \<and>
     length (pd_Values cd) = length cols \<and>
     (\<forall>i < length cols. \<forall>v. vals (cols ! i) = Some v \<longrightarrow> pd_Values cd ! i = valueToCqlParam dp v) \<and>
     distinct (map fst (pd_ValueIdxMap cd)) \<and> fst ` set (pd_ValueIdxMap cd) = dom vals \<and>
     dom vals \<subseteq> set cols"

lemma zip_upt_lookup:
  "distinct cols \<Longrightarrow> map_of (zip cols [0..<length cols]) c = Some i \<longleftrightarrow> i < length cols \<and> cols ! i = c"
  by (auto simp: map_of_zip_nth in_set_zip dest!: map_of_SomeD)

lemma zip_upt_None: "map_of (zip cols [0..<length cols]) c = None \<longleftrightarrow> c \<notin> set cols"
  by (simp add: map_of_zip_is_None)

lemma update_snoc: "k \<notin> fst ` set w \<Longrightarrow> AList.update k v w = w @ [(k, v)]"
  by (rule update_fresh)

lemma prep_inv_column:
  assumes "prep_inv dp cols vals cd" and "addColumnName c cd = Inr cd'"
  shows "prep_inv dp (cols @ [c]) vals cd'"
proof -
  have c: "c \<notin> set cols"
    using assms by (auto simp: addColumnName_def prep_inv_def zip_upt_None split: if_splits)
  then have "c \<notin> fst ` set (zip cols [0..<length cols])" by (auto dest: set_zip_leftD)
  then have cd': "cd' = cd\<lparr>pd_Columns := cols @ [c], pd_Values := pd_Values cd @ [VNil],
      pd_ColumnIdxMap := zip cols [0..<length cols] @ [(c, length cols)]\<rparr>"
    using assms by (auto simp: addColumnName_def prep_inv_def update_snoc split: if_splits)
  have "vals c = None" using assms(1) c by (auto simp: prep_inv_def)
  then show ?thesis
    using assms(1) c unfolding cd' prep_inv_def by (auto simp: nth_append less_Suc_eq)
qed

lemma prep_inv_value:
  assumes "prep_inv dp cols vals cd" and "addColumnValue dp c v cd = Inr cd'"
  shows "prep_inv dp cols (vals(c \<mapsto> v)) cd'"
proof -
  obtain i where i: "map_of (pd_ColumnIdxMap cd) c = Some i"
    and cd': "cd' = cd\<lparr>pd_Values := (pd_Values cd)[i := valueToCqlParam dp v],
      pd_ValueIdxMap := AList.update c i (pd_ValueIdxMap cd)\<rparr>"
    using assms(2) by (auto simp: addColumnValue_def split: option.splits)
  moreover have "pd_ColumnIdxMap cd = zip cols [0..<length cols]" "distinct cols"
    using assms(1) by (simp_all add: prep_inv_def)
  ultimately have "i < length cols" "cols ! i = c" "distinct cols"
    using zip_upt_lookup [of cols c i] by (simp_all only:)
  moreover have "fst ` set (AList.update c i (pd_ValueIdxMap cd)) = insert c (fst ` set (pd_ValueIdxMap cd))"
    using dom_update [of c i "pd_ValueIdxMap cd"] unfolding dom_map_of_conv_image_fst by simp
  ultimately show ?thesis
    using assms(1) unfolding cd' prep_inv_def
    by (auto simp: nth_list_update nth_eq_iff_index_eq distinct_update split: if_splits)
qed

lemma prep_inv_run:
  "foldr_err (prep_step dp) NewQB steps = Inr qb \<Longrightarrow>
     prep_inv dp (prep_columns steps) (prep_value steps) (PreparedColumnData qb)"
proof (induction steps arbitrary: qb rule: rev_induct)
  case Nil
  then show ?case by (auto simp: prep_inv_def prep_simps NewQB_def)
next
  case (snoc st steps)
  obtain qb0 where qb0: "foldr_err (prep_step dp) NewQB steps = Inr qb0" "prep_step dp qb0 st = Inr qb"
    using snoc.prems unfolding foldr_err_snoc bindr_Inr_conv by blast
  note ih = snoc.IH [OF qb0(1)]
  show ?case
  proof (cases st)
    case (PrepColumn c)
    then obtain cd where "addColumnName c (PreparedColumnData qb0) = Inr cd" "PreparedColumnData qb = cd"
      using qb0(2) by (auto simp: prep_step_def WritePreparedColumn_def bindr_Inr_conv)
    then show ?thesis using prep_inv_column [OF ih] PrepColumn by (simp add: prep_simps)
  next
    case (PrepValue c v)
    then obtain cd where "addColumnValue dp c v (PreparedColumnData qb0) = Inr cd"
      "PreparedColumnData qb = cd"
      using qb0(2) by (auto simp: prep_step_def WritePreparedValue_def bindr_Inr_conv)
    then show ?thesis using prep_inv_value [OF ih, of c v cd] by (simp only: prep_simps PrepValue)
  qed
qed

lemma prep_inv_params:
  assumes "prep_inv dp cols vals (PreparedColumnData qb)"
  shows "InsertRunParams qb =
    (if set cols = dom vals then Inr (map (\<lambda>c. valueToCqlParam dp (the (vals c))) cols)
     else Inl ''cannot produce insert params, length mismatch'')"
proof -
  let ?cd = "PreparedColumnData qb"
  note inv = assms [unfolded prep_inv_def]
  have lc: "length (pd_ColumnIdxMap ?cd) = card (set cols)"
    using inv distinct_card [of cols] by simp
  have lv: "length (pd_ValueIdxMap ?cd) = card (dom vals)"
    using inv distinct_card [of "map fst (pd_ValueIdxMap ?cd)"] by simp
  have eq: "card (set cols) = card (dom vals) \<longleftrightarrow> set cols = dom vals"
    using inv by (metis List.finite_set card_subset_eq)
  show ?thesis
  proof (cases "set cols = dom vals")
    case True
    have "pd_Values ?cd = map (\<lambda>c. valueToCqlParam dp (the (vals c))) cols"
    proof (rule nth_equalityI)
      show "length (pd_Values ?cd) = length (map (\<lambda>c. valueToCqlParam dp (the (vals c))) cols)"
        using inv by simp
      fix i
      assume "i < length (pd_Values ?cd)"
      then have i: "i < length cols" using inv by simp
      then have "cols ! i \<in> dom vals" using True by auto
      then obtain v where "vals (cols ! i) = Some v" by blast
      then show "pd_Values ?cd ! i = map (\<lambda>c. valueToCqlParam dp (the (vals c))) cols ! i"
        using inv i by simp
    qed
    moreover have "length (pd_ValueIdxMap ?cd) = length cols"
      using lv eq True inv distinct_card [of cols] by metis
    ultimately show ?thesis using True lc lv by (simp add: InsertRunParams_def Let_def)
  next
    case False
    then show ?thesis using lc lv eq by (simp add: InsertRunParams_def Let_def)
  qed
qed

subsection \<open>The properties\<close>

lemma length_int_str0: "0 < r \<Longrightarrow> r < 100000 \<Longrightarrow> int_str0 5 r = digits 5 (nat r)"
  using pad0_digits [of 5 "nat r"] by (simp add: int_str0_def nat_less_iff)

text \<open>C14: a string value written into a query reads back as itself, whatever quotes it contains and
  whatever follows that is not a quote; the same holds for the list of an IN condition over
  strings, so that no value can end its literal early.\<close>

theorem quoted_values_read_back:
  assumes "rest = [] \<or> hd rest \<noteq> CHR 0x27" and "vs \<noteq> []"
  shows "read_literal (valueToString fv (VStr s) LeaveQuoteAsIs @ rest) = Some (s, rest) \<and>
    (\<exists>list. addInString column vs items = items @ [column @ '' IN ( '' @ list] \<and>
       read_literals (length vs) list = Some (vs, '' )''))"
proof
  show "read_literal (valueToString fv (VStr s) LeaveQuoteAsIs @ rest) = Some (s, rest)"
    by (rule read_literal_value [OF assms(1)])
  have "addInString column vs items =
      items @ [column @ '' IN ( '' @ Join (map literal vs) '', '' @ '' )'']"
    unfolding addInString_def Join_quoted [OF assms(2), symmetric] by simp
  then show "\<exists>list. addInString column vs items = items @ [column @ '' IN ( '' @ list] \<and>
       read_literals (length vs) list = Some (vs, '' )'')"
    using read_literals_Join [OF assms(2) refl] by blast
qed

theorem quoted_values_read_back_witness:
  "read_literal (valueToString (\<lambda>_. '''') (VStr ''it'') LeaveQuoteAsIs @ '' AND'') = Some (''it'', '' AND'')"
  by (rule conjunct1 [OF quoted_values_read_back [of "'' AND''" "[''a'']"]]) simp_all

text \<open>C15: a prepared query keeps its columns and parameters in lockstep: after any sequence of
  successful WritePreparedColumn and WritePreparedValue the columns are distinct and in their
  order; the query has one placeholder per column and is refused for run 0 only; the parameters
  are the last values written, in the order of the columns, or an error when a column has none.\<close>

theorem prepared_insert_lockstep:
  assumes "foldr_err (prep_step dp) NewQB steps = Inr qb"
  shows "distinct (prep_columns steps) \<and>
    (\<forall>c. prep_value steps c \<noteq> None \<longrightarrow> c \<in> set (prep_columns steps)) \<and>
    InsertRunParams qb =
      (if \<forall>c \<in> set (prep_columns steps). prep_value steps c \<noteq> None
       then Inr (map (\<lambda>c. valueToCqlParam dp (the (prep_value steps c))) (prep_columns steps))
       else Inl ''cannot produce insert params, length mismatch'') \<and>
    (runId \<noteq> 0 \<longrightarrow> InsertRunPreparedQuery tn runId ine qb =
      Inr (''INSERT INTO '' @ FormattedKeyspace qb @ tn @ RunIdSuffix runId @ '' ( '' @
        Join (prep_columns steps) '', '' @ '' ) VALUES ( '' @
        Join (replicate (length (prep_columns steps)) ''?'') '', '' @ '' ) '' @
        if_not_exists_str ine @ '';'')) \<and>
    (\<exists>x. InsertRunPreparedQuery tn 0 ine qb = Inl x)"
proof -
  note inv = prep_inv_run [OF assms]
  note inv' = inv [unfolded prep_inv_def]
  have "set (prep_columns steps) = dom (prep_value steps) \<longleftrightarrow>
      (\<forall>c \<in> set (prep_columns steps). prep_value steps c \<noteq> None)"
    using inv' by blast
  moreover have "length (pd_ColumnIdxMap (PreparedColumnData qb)) = length (prep_columns steps)"
    "pd_Columns (PreparedColumnData qb) = prep_columns steps"
    using inv' by simp_all
  moreover have "distinct (prep_columns steps)"
    "\<forall>c. prep_value steps c \<noteq> None \<longrightarrow> c \<in> set (prep_columns steps)"
    using inv' by (simp, blast)
  ultimately show ?thesis
    using prep_inv_params [OF inv] by (simp add: InsertRunPreparedQuery_def Let_def)
qed

theorem prepared_insert_lockstep_witness:
  "\<exists>qb. foldr_err (prep_step (\<lambda>d. VDec d)) NewQB
      [PrepColumn ''a'', PrepColumn ''b'', PrepValue ''b'' (VInt64 2), PrepValue ''a'' (VInt64 1)
       :: (unit, unit) prep_step] = Inr qb \<and> InsertRunParams qb = Inr [VInt64 1, VInt64 2]"
proof -
  let ?steps = "[PrepColumn ''a'', PrepColumn ''b'', PrepValue ''b'' (VInt64 2),
    PrepValue ''a'' (VInt64 1) :: (unit, unit) prep_step]"
  obtain qb where qb: "foldr_err (prep_step (\<lambda>d. VDec d)) NewQB ?steps = Inr qb"
    by (simp add: prep_step_def WritePreparedColumn_def WritePreparedValue_def addColumnName_def
        addColumnValue_def NewQB_def)
  have "InsertRunParams qb = Inr [VInt64 1, VInt64 2]"
    using prepared_insert_lockstep [OF qb, where runId = 1 and tn = "''t''" and ine = IfExistsOverwrite]
    by (simp add: prep_columns_def prep_value_def map_filter_def valueToCqlParam_def)
  then show ?thesis using qb by blast
qed

text \<open>The tables of two runs never coincide: for run ids from 1 to the maximum of int16 the
  suffixes of a table name differ, while every id below 1 gives the bare table name; an insert,
  select or update for run 0 is spoiled by a prefix.\<close>

theorem run_tables_are_distinct:
  assumes "0 < r" "r \<le> 32767" "0 < r'" "r' \<le> 32767"
  shows "(t @ RunIdSuffix r = t @ RunIdSuffix r' \<longleftrightarrow> r = r') \<and> t @ RunIdSuffix r \<noteq> t \<and>
    (q \<le> 0 \<longrightarrow> t @ RunIdSuffix q = t) \<and>
    HasPrefix (SelectRun t 0 cols qb) ''INVALID runId: '' \<and>
    HasPrefix (UpdateRun t 0 qb) ''INVALID runId: '' \<and>
    HasPrefix (insertRunUnpreparedQuery t 0 ine qb) ''INVALID runId: '' \<and>
    HasPrefix (DeleteRun t 0 qb) ''DEV ERROR, INVALID runId: ''"
proof -
  have "digits 5 (nat r) = digits 5 (nat r') \<longleftrightarrow> nat r = nat r'"
    using assms by (intro digits_inj) auto
  then have "RunIdSuffix r = RunIdSuffix r' \<longleftrightarrow> r = r'"
    using assms by (simp add: RunIdSuffix_def length_int_str0 eq_nat_nat_iff)
  moreover have "HasPrefix (SelectRun t 0 cols qb) ''INVALID runId: ''"
    "HasPrefix (UpdateRun t 0 qb) ''INVALID runId: ''"
    "HasPrefix (insertRunUnpreparedQuery t 0 ine qb) ''INVALID runId: ''"
    "HasPrefix (DeleteRun t 0 qb) ''DEV ERROR, INVALID runId: ''"
    by (simp_all add: SelectRun_def UpdateRun_def insertRunUnpreparedQuery_def DeleteRun_def
        HasPrefix_def Let_def)
  ultimately show ?thesis using assms by (simp add: RunIdSuffix_def)
qed

theorem run_tables_are_distinct_witness:
  "''t'' @ RunIdSuffix 7 \<noteq> ''t'' @ RunIdSuffix 70"
proof -
  have "(''t'' @ RunIdSuffix 7 = ''t'' @ RunIdSuffix 70) = ((7::int) = 70)"
    by (rule conjunct1 [OF run_tables_are_distinct]) simp_all
  then show ?thesis by simp
qed

end
