(* ===== verification/Ast.thy ===== *)
theory Ast
  imports Values
begin

text \<open>
  The expressions that Go's parser (go/parser, go/ast) gives for the strings in a script, as far
  as the code tells them apart, and strconv.ParseInt. A call carries the position of its node,
  which stands for the identity of the pointer.
\<close>

datatype token =
  ADD | SUB | MUL | QUO | REM | LAND | LOR | EQL | LSS | GTR | NOT | NEQ | LEQ | GEQ |
  OtherToken string

datatype lit_kind = TINT | TFLOAT | TIMAG | TCHAR | TSTRING | TIDENT

datatype expr =
    BinaryExpr expr token expr
  | BasicLit lit_kind string
  | UnaryExpr token expr
  | Ident string
  | CallExpr nat expr "expr list"
  | SelectorExpr expr string
  | ParenExpr expr
  | OtherExpr

subsection \<open>strconv.ParseInt in base 10 with 64 bits\<close>

definition is_digit :: "char \<Rightarrow> bool" where
  "is_digit c \<longleftrightarrow> 48 \<le> (of_char c :: nat) \<and> (of_char c :: nat) \<le> 57"

definition digit_val :: "char \<Rightarrow> int" where
  "digit_val c = int (of_char c) - 48"

definition digits_val :: "string \<Rightarrow> int" where
  "digits_val s = foldl (\<lambda>n c. 10 * n + digit_val c) 0 s"

text \<open>The value and the error: a syntax error gives 0, a range error the nearest bound.\<close>

definition ParseInt :: "string \<Rightarrow> int \<times> goerr option" where
  "ParseInt s =
     (let neg = (s \<noteq> [] \<and> hd s = CHR ''-'');
          ds = (if s \<noteq> [] \<and> (hd s = CHR ''-'' \<or> hd s = CHR ''+'') then tl s else s)
      in if ds = [] \<or> \<not> list_all is_digit ds then (0, Some ''invalid syntax'')
         else let n = (if neg then - digits_val ds else digits_val ds)
              in if n > 2 ^ 63 - 1 then (2 ^ 63 - 1, Some ''value out of range'')
                 else if n < - (2 ^ 63) then (- (2 ^ 63), Some ''value out of range'')
                 else (n, None))"

lemma is_digit_digit_char: "d < 10 \<Longrightarrow> is_digit (digit_char d) \<and> digit_val (digit_char d) = int d"
  by (simp add: is_digit_def digit_val_def digit_char_def)

lemma digits_val_snoc: "digits_val (s @ [c]) = 10 * digits_val s + digit_val c"
  by (simp add: digits_val_def)

lemma nat_str_digits: "list_all is_digit (nat_str n) \<and> digits_val (nat_str n) = int n"
proof (induction n rule: nat_str.induct)
  case (1 n)
  show ?case
  proof (cases "n < 10")
    case True
    then show ?thesis
      using is_digit_digit_char [of n] by (subst (1 2) nat_str.simps) (simp add: digits_val_def)
  next
    case False
    then have "list_all is_digit (nat_str (n div 10)) \<and> digits_val (nat_str (n div 10)) = int (n div 10)"
      by (rule "1.IH")
    moreover have "10 * int (n div 10) + int (n mod 10) = int n" by presburger
    ultimately show ?thesis using False is_digit_digit_char [of "n mod 10"]
      by (subst (1 2) nat_str.simps) (simp add: digits_val_snoc)
  qed
qed

text \<open>Parsing a printed number gives the number back.\<close>

lemma ParseInt_int_str:
  assumes "in_range 64 i"
  shows "ParseInt (int_str i) = (i, None)"
proof (cases "i < 0")
  case True
  note d = nat_str_digits [of "nat (- i)"]
  have "ParseInt (int_str i) =
      (let n = - digits_val (nat_str (nat (- i)))
       in if n > 2 ^ 63 - 1 then (2 ^ 63 - 1, Some ''value out of range'')
          else if n < - (2 ^ 63) then (- (2 ^ 63), Some ''value out of range'') else (n, None))"
    using True d by (simp add: ParseInt_def int_str_def)
  then show ?thesis using True d assms by (simp add: Let_def in_range_def)
next
  case False
  note d = nat_str_digits [of "nat i"]
  have "nat_str (nat i) \<noteq> []" by simp
  moreover have "is_digit (hd (nat_str (nat i)))" using d calculation by (cases "nat_str (nat i)") auto
  then have "hd (nat_str (nat i)) \<noteq> CHR ''-''" "hd (nat_str (nat i)) \<noteq> CHR ''+''"
    by (auto simp: is_digit_def)
  ultimately have "ParseInt (int_str i) =
      (let n = digits_val (nat_str (nat i))
       in if n > 2 ^ 63 - 1 then (2 ^ 63 - 1, Some ''value out of range'')
          else if n < - (2 ^ 63) then (- (2 ^ 63), Some ''value out of range'') else (n, None))"
    using False d by (simp add: ParseInt_def int_str_def)
  then show ?thesis using False d assms by (simp add: Let_def in_range_def)
qed

end
