(* ===== verification/Eval_Ops.thy ===== *)
theory Eval_Ops
  imports Ast
begin

text \<open>
  The casts between number types (pkg/eval/cast.go) and the operators on values
  (pkg/eval/eval_ctx.go). The operations of float64 and of the decimal package are the record
  \<open>numops\<close>, a parameter; a float32 is kept as the float64 of the same value. A Go function that
  returns a value and an error is modelled with the value even where there is an error, as the
  callers store it.
\<close>

record ('f, 'd) numops =
  f_add :: "'f \<Rightarrow> 'f \<Rightarrow> 'f"
  f_sub :: "'f \<Rightarrow> 'f \<Rightarrow> 'f"
  f_mul :: "'f \<Rightarrow> 'f \<Rightarrow> 'f"
  f_div :: "'f \<Rightarrow> 'f \<Rightarrow> 'f"
  f_neg :: "'f \<Rightarrow> 'f"
  f_lt :: "'f \<Rightarrow> 'f \<Rightarrow> bool"
  f_le :: "'f \<Rightarrow> 'f \<Rightarrow> bool"
  f_eq :: "'f \<Rightarrow> 'f \<Rightarrow> bool"
  f_of_int :: "int \<Rightarrow> 'f"
  f_to_int :: "'f \<Rightarrow> int"
  f_parse :: "string \<Rightarrow> 'f"
  f_max :: 'f
  f_max32 :: 'f
  d_add :: "'d \<Rightarrow> 'd \<Rightarrow> 'd"
  d_sub :: "'d \<Rightarrow> 'd \<Rightarrow> 'd"
  d_mul :: "'d \<Rightarrow> 'd \<Rightarrow> 'd"
  d_div :: "'d \<Rightarrow> 'd \<Rightarrow> 'd option"
  d_neg :: "'d \<Rightarrow> 'd"
  d_cmp :: "'d \<Rightarrow> 'd \<Rightarrow> int"
  d_round :: "int \<Rightarrow> 'd \<Rightarrow> 'd"
  d_of_int :: "int \<Rightarrow> 'd"
  d_of_float :: "'f \<Rightarrow> 'd"
  d_of_float32 :: "'f \<Rightarrow> 'd"
  d_to_float :: "'d \<Rightarrow> 'f"
  d_is_int :: "'d \<Rightarrow> bool"
  d_bigint :: "'d \<Rightarrow> int"
  d_parse :: "string \<Rightarrow> goerr + 'd"
  d_max32 :: 'd
  d_min32 :: 'd

subsection \<open>Casts\<close>

definition castNumberToStandardType :: "('f, 'd) gval \<Rightarrow> goerr + ('f, 'd) gval" where
  "castNumberToStandardType arg =
     (case arg of
        VInt i \<Rightarrow> Inr (VInt64 i)
      | VInt8 i \<Rightarrow> Inr (VInt64 i)
      | VInt16 i \<Rightarrow> Inr (VInt64 i)
      | VInt32 i \<Rightarrow> Inr (VInt64 i)
      | VInt64 i \<Rightarrow> Inr (VInt64 i)
      | VFloat32 f \<Rightarrow> Inr (VFloat64 f)
      | VFloat64 f \<Rightarrow> Inr (VFloat64 f)
      | VDec d \<Rightarrow> Inr (VDec d)
      | _ \<Rightarrow> Inl ''cannot cast to standard number type, unsuported type'')"

definition CastToInt64 :: "('f, 'd) numops \<Rightarrow> ('f, 'd) gval \<Rightarrow> goerr + int" where
  "CastToInt64 N arg =
     (case arg of
        VInt i \<Rightarrow> Inr i | VInt8 i \<Rightarrow> Inr i | VInt16 i \<Rightarrow> Inr i | VInt32 i \<Rightarrow> Inr i | VInt64 i \<Rightarrow> Inr i
      | VFloat32 f \<Rightarrow> Inr (f_to_int N f)
      | VFloat64 f \<Rightarrow> Inr (f_to_int N f)
      | VDec d \<Rightarrow> (if d_is_int N d then Inr (wrap64 (d_bigint N d))
                   else Inl ''cannot cast decimal to int64, exact conversion impossible'')
      | _ \<Rightarrow> Inl ''cannot cast to int64, unsuported type'')"

definition CastToFloat64 :: "('f, 'd) numops \<Rightarrow> ('f, 'd) gval \<Rightarrow> goerr + 'f" where
  "CastToFloat64 N arg =
     (case arg of
        VInt i \<Rightarrow> Inr (f_of_int N i) | VInt8 i \<Rightarrow> Inr (f_of_int N i) | VInt16 i \<Rightarrow> Inr (f_of_int N i)
      | VInt32 i \<Rightarrow> Inr (f_of_int N i) | VInt64 i \<Rightarrow> Inr (f_of_int N i)
      | VFloat32 f \<Rightarrow> Inr f
      | VFloat64 f \<Rightarrow> Inr f
      | VDec d \<Rightarrow> Inr (d_to_float N d)
      | _ \<Rightarrow> Inl ''cannot cast to float64, unsuported type'')"

definition CastToDecimal :: "('f, 'd) numops \<Rightarrow> ('f, 'd) gval \<Rightarrow> goerr + 'd" where
  "CastToDecimal N arg =
     (case arg of
        VInt i \<Rightarrow> Inr (d_of_int N i) | VInt8 i \<Rightarrow> Inr (d_of_int N i) | VInt16 i \<Rightarrow> Inr (d_of_int N i)
      | VInt32 i \<Rightarrow> Inr (d_of_int N i) | VInt64 i \<Rightarrow> Inr (d_of_int N i)
      | VFloat32 f \<Rightarrow> Inr (d_of_float32 N f)
      | VFloat64 f \<Rightarrow> Inr (d_of_float N f)
      | VDec d \<Rightarrow> Inr d
      | _ \<Rightarrow> Inl ''cannot cast to decimal, unsuported type'')"

definition is_float64 :: "('f, 'd) gval \<Rightarrow> bool" where
  "is_float64 v = (case v of VFloat64 _ \<Rightarrow> True | _ \<Rightarrow> False)"

definition is_dec :: "('f, 'd) gval \<Rightarrow> bool" where
  "is_dec v = (case v of VDec _ \<Rightarrow> True | _ \<Rightarrow> False)"

definition castNumberPairToCommonType ::
  "('f, 'd) numops \<Rightarrow> ('f, 'd) gval \<Rightarrow> ('f, 'd) gval \<Rightarrow> goerr + ('f, 'd) gval \<times> ('f, 'd) gval" where
  "castNumberPairToCommonType N argLeft argRight =
     bindr (castNumberToStandardType argLeft) (\<lambda>stdLeft.
     bindr (castNumberToStandardType argRight) (\<lambda>stdRight.
       if is_float64 stdLeft \<or> is_float64 stdRight then
         bindr (CastToFloat64 N stdLeft) (\<lambda>l. bindr (CastToFloat64 N stdRight) (\<lambda>r.
           Inr (VFloat64 l, VFloat64 r)))
       else if is_dec stdLeft \<or> is_dec stdRight then
         bindr (CastToDecimal N stdLeft) (\<lambda>l. bindr (CastToDecimal N stdRight) (\<lambda>r.
           Inr (VDec l, VDec r)))
       else
         bindr (CastToInt64 N stdLeft) (\<lambda>l. bindr (CastToInt64 N stdRight) (\<lambda>r.
           Inr (VInt64 l, VInt64 r)))))"

subsection \<open>Operators\<close>

type_synonym 'a res = "'a \<times> goerr option"

definition EvalBinaryInt :: "('f, 'd) gval \<Rightarrow> token \<Rightarrow> ('f, 'd) gval \<Rightarrow> int res" where
  "EvalBinaryInt l op r =
     (case (l, r) of
        (VInt64 a, VInt64 b) \<Rightarrow>
          (case op of
             ADD \<Rightarrow> (wrap64 (a + b), None)
           | SUB \<Rightarrow> (wrap64 (a - b), None)
           | MUL \<Rightarrow> (wrap64 (a * b), None)
           | QUO \<Rightarrow> (if b = 0 then (2 ^ 63 - 1, Some ''runtime error: integer divide by zero'')
                     else (wrap64 (quot a b), None))
           | REM \<Rightarrow> (if b = 0 then (2 ^ 63 - 1, Some ''runtime error: integer divide by zero'')
                     else (wrap64 (rema a b), None))
           | _ \<Rightarrow> (0, Some ''cannot perform int op''))
      | (VInt64 a, _) \<Rightarrow> (0, Some ''cannot evaluate binary int64 expression, invalid right arg'')
      | _ \<Rightarrow> (0, Some ''cannot evaluate binary int64 expression, on the left''))"

definition isCompareOp :: "token \<Rightarrow> bool" where
  "isCompareOp op \<longleftrightarrow> op = GTR \<or> op = LSS \<or> op = GEQ \<or> op = LEQ \<or> op = EQL \<or> op = NEQ"

text \<open>The disjunction over the operators that every comparison ends with.\<close>

definition compare_result :: "token \<Rightarrow> bool \<Rightarrow> bool \<Rightarrow> bool \<Rightarrow> bool \<Rightarrow> bool \<Rightarrow> bool" where
  "compare_result op gt lt ge le eq \<longleftrightarrow>
     op = GTR \<and> gt \<or> op = LSS \<and> lt \<or> op = GEQ \<and> ge \<or> op = LEQ \<and> le \<or> op = EQL \<and> eq \<or>
     op = NEQ \<and> \<not> eq"

definition EvalBinaryIntToBool :: "('f, 'd) gval \<Rightarrow> token \<Rightarrow> ('f, 'd) gval \<Rightarrow> bool res" where
  "EvalBinaryIntToBool l op r =
     (case (l, r) of
        (VInt64 a, VInt64 b) \<Rightarrow>
          (if \<not> isCompareOp op then (False, Some ''cannot perform bool op against int'')
           else (compare_result op (a > b) (a < b) (a \<ge> b) (a \<le> b) (a = b), None))
      | (VInt64 a, _) \<Rightarrow> (False, Some ''cannot evaluate binary int64 expression, invalid right arg'')
      | _ \<Rightarrow> (False, Some ''cannot evaluate binary int64 expression, on the left''))"

definition EvalBinaryFloat64ToBool ::
  "('f, 'd) numops \<Rightarrow> ('f, 'd) gval \<Rightarrow> token \<Rightarrow> ('f, 'd) gval \<Rightarrow> bool res" where
  "EvalBinaryFloat64ToBool N l op r =
     (case (l, r) of
        (VFloat64 a, VFloat64 b) \<Rightarrow>
          (if \<not> isCompareOp op then (False, Some ''cannot perform bool op against float'')
           else (compare_result op (f_lt N b a) (f_lt N a b) (f_le N b a) (f_le N a b) (f_eq N a b), None))
      | (VFloat64 a, _) \<Rightarrow> (False, Some ''cannot evaluate binary float64 expression, invalid right arg'')
      | _ \<Rightarrow> (False, Some ''cannot evaluate binary foat64 expression, on the left''))"

definition EvalBinaryDecimal2ToBool ::
  "('f, 'd) numops \<Rightarrow> ('f, 'd) gval \<Rightarrow> token \<Rightarrow> ('f, 'd) gval \<Rightarrow> bool res" where
  "EvalBinaryDecimal2ToBool N l op r =
     (case (l, r) of
        (VDec a, VDec b) \<Rightarrow>
          (if \<not> isCompareOp op then (False, Some ''cannot perform bool op against decimal'')
           else (compare_result op (d_cmp N a b > 0) (d_cmp N a b < 0) (d_cmp N a b \<ge> 0)
                   (d_cmp N a b \<le> 0) (d_cmp N a b = 0), None))
      | (VDec a, _) \<Rightarrow> (False, Some ''cannot evaluate binary decimal expression, invalid right arg'')
      | _ \<Rightarrow> (False, Some ''cannot evaluate binary decimal expression, on the left''))"

definition EvalBinaryTimeToBool :: "('f, 'd) gval \<Rightarrow> token \<Rightarrow> ('f, 'd) gval \<Rightarrow> bool res" where
  "EvalBinaryTimeToBool l op r =
     (case (l, r) of
        (VTime a, VTime b) \<Rightarrow>
          (if \<not> isCompareOp op then (False, Some ''cannot perform bool op against time'')
           else (compare_result op (a > b) (a < b) (a > b \<or> a = b) (a < b \<or> a = b) (a = b), None))
      | (VTime a, _) \<Rightarrow> (False, Some ''cannot evaluate binary time expression, invalid right arg'')
      | _ \<Rightarrow> (False, Some ''cannot evaluate binary time expression, on the left''))"

definition EvalBinaryFloat64 ::
  "('f, 'd) numops \<Rightarrow> ('f, 'd) gval \<Rightarrow> token \<Rightarrow> ('f, 'd) gval \<Rightarrow> 'f res" where
  "EvalBinaryFloat64 N l op r =
     (case (l, r) of
        (VFloat64 a, VFloat64 b) \<Rightarrow>
          (case op of
             ADD \<Rightarrow> (f_add N a b, None)
           | SUB \<Rightarrow> (f_sub N a b, None)
           | MUL \<Rightarrow> (f_mul N a b, None)
           | QUO \<Rightarrow> (f_div N a b, None)
           | _ \<Rightarrow> (f_of_int N 0, Some ''cannot perform float64 op''))
      | (VFloat64 a, _) \<Rightarrow>
          (f_of_int N 0, Some ''cannot evaluate binary float expression, invalid right arg'')
      | _ \<Rightarrow> (f_of_int N 0, Some ''cannot evaluate binary float64 expression, on the left''))"

text \<open>Division by zero panics in the decimal package; the deferred function makes it an error.\<close>

definition EvalBinaryDecimal ::
  "('f, 'd) numops \<Rightarrow> int \<Rightarrow> ('f, 'd) gval \<Rightarrow> token \<Rightarrow> ('f, 'd) gval \<Rightarrow> 'd res" where
  "EvalBinaryDecimal N roundDec l op r =
     (let done = (\<lambda>v. (if roundDec \<ge> 0 then d_round N roundDec v else v, None)) in
      case (l, r) of
        (VDec a, VDec b) \<Rightarrow>
          (case op of
             ADD \<Rightarrow> done (d_add N a b)
           | SUB \<Rightarrow> done (d_sub N a b)
           | MUL \<Rightarrow> done (d_mul N a b)
           | QUO \<Rightarrow> (case d_div N a b of
                       None \<Rightarrow> (d_of_float N (f_max N), Some ''decimal division by 0'')
                     | Some v \<Rightarrow> done v)
           | _ \<Rightarrow> (d_of_int N 0, Some ''cannot perform decimal op''))
      | (VDec a, _) \<Rightarrow>
          (d_of_int N 0, Some ''cannot evaluate binary decimal expression, invalid right arg'')
      | _ \<Rightarrow> (d_of_int N 0, Some ''cannot evaluate binary decimal expression, on the left''))"

definition EvalBinaryBool :: "('f, 'd) gval \<Rightarrow> token \<Rightarrow> ('f, 'd) gval \<Rightarrow> bool res" where
  "EvalBinaryBool l op r =
     (case (l, r) of
        (VBool a, VBool b) \<Rightarrow>
          (case op of
             LAND \<Rightarrow> (a \<and> b, None)
           | LOR \<Rightarrow> (a \<or> b, None)
           | _ \<Rightarrow> (False, Some ''cannot perform bool op against bool''))
      | (VBool a, _) \<Rightarrow> (False, Some ''cannot evaluate binary bool expression, invalid right arg'')
      | _ \<Rightarrow> (False, Some ''cannot evaluate binary bool expression, on the left''))"

definition EvalBinaryBoolToBool :: "('f, 'd) gval \<Rightarrow> token \<Rightarrow> ('f, 'd) gval \<Rightarrow> bool res" where
  "EvalBinaryBoolToBool l op r =
     (case (l, r) of
        (VBool a, VBool b) \<Rightarrow>
          (if op \<noteq> EQL \<and> op \<noteq> NEQ
           then (False, Some ''cannot evaluate binary bool expression, op not supported'')
           else (op = EQL \<and> a = b \<or> op = NEQ \<and> a \<noteq> b, None))
      | (VBool a, _) \<Rightarrow> (False, Some ''cannot evaluate binary bool expression, invalid right arg'')
      | _ \<Rightarrow> (False, Some ''cannot evaluate binary bool expression, on the left''))"

definition EvalBinaryByteSliceToByteSlice ::
  "('f, 'd) gval \<Rightarrow> token \<Rightarrow> ('f, 'd) gval \<Rightarrow> bool res" where
  "EvalBinaryByteSliceToByteSlice l op r =
     (case (l, r) of
        (VBytes a, VBytes b) \<Rightarrow>
          (if \<not> isCompareOp op then (False, Some ''cannot perform compare op against []byte'')
           else (compare_result op (a > b) (a < b) (a \<ge> b) (a \<le> b) (a = b), None))
      | (VBytes a, _) \<Rightarrow> (False, Some ''cannot evaluate binary []byte expression, invalid right arg'')
      | _ \<Rightarrow> (False, Some ''cannot evaluate binary []byte expression, on the left''))"

definition EvalBinaryString :: "('f, 'd) gval \<Rightarrow> token \<Rightarrow> ('f, 'd) gval \<Rightarrow> string res" where
  "EvalBinaryString l op r =
     (case (l, r) of
        (VStr a, VStr b) \<Rightarrow>
          (case op of ADD \<Rightarrow> (a @ b, None) | _ \<Rightarrow> ('''', Some ''cannot perform string op''))
      | (VStr a, _) \<Rightarrow> ('''', Some ''cannot evaluate binary string expression, invalid right arg'')
      | _ \<Rightarrow> ('''', Some ''cannot evaluate binary string expression, on the left''))"

definition dquote :: string where "dquote = [CHR 0x22]"
definition backslash :: string where "backslash = [CHR 0x5C]"

definition left_string :: "string \<Rightarrow> string" where
  "left_string s = ReplaceAll (Trim s dquote) (backslash @ dquote) backslash"

definition right_string :: "string \<Rightarrow> string" where
  "right_string s = ReplaceAll (Trim s dquote) (backslash @ dquote) dquote"

definition EvalBinaryStringToBool :: "('f, 'd) gval \<Rightarrow> token \<Rightarrow> ('f, 'd) gval \<Rightarrow> bool res" where
  "EvalBinaryStringToBool l op r =
     (case (l, r) of
        (VStr a0, VStr b0) \<Rightarrow>
          (let a = left_string a0; b = right_string b0
           in if \<not> isCompareOp op then (False, Some ''cannot perform bool op against string'')
              else (compare_result op (a > b) (a < b) (a \<ge> b) (a \<le> b) (a = b), None))
      | (VStr a, _) \<Rightarrow> (False, Some ''cannot evaluate binary decimal expression, invalid right arg'')
      | _ \<Rightarrow> (False, Some ''cannot evaluate binary string expression, on the left''))"

end
