(* ===== verification/Eval_Agg.thy ===== *)
theory Eval_Agg
  imports Eval_Ops
begin

text \<open>
  The evaluation context (EvalCtx in pkg/eval/eval_ctx.go) and the aggregate functions
  (pkg/eval/agg.go) that collect over the rows of a group. The context is threaded through the
  calls; every call returns a value, an error and the context, also where there is an error.
\<close>

datatype agg_func =
  AggStringAgg | AggStringAggIf | AggSum | AggSumIf | AggCount | AggCountIf | AggAvg | AggAvgIf |
  AggMin | AggMinIf | AggMax | AggMaxIf | AggUnknown

definition StringToAggFunc :: "string \<Rightarrow> agg_func" where
  "StringToAggFunc s =
     (if s = ''string_agg'' then AggStringAgg
      else if s = ''string_agg_if'' then AggStringAggIf
      else if s = ''sum'' then AggSum
      else if s = ''sum_if'' then AggSumIf
      else if s = ''count'' then AggCount
      else if s = ''count_if'' then AggCountIf
      else if s = ''avg'' then AggAvg
      else if s = ''avg_if'' then AggAvgIf
      else if s = ''min_if'' then AggMinIf
      else if s = ''min'' then AggMin
      else if s = ''max'' then AggMax
      else if s = ''max_if'' then AggMaxIf
      else AggUnknown)"

datatype agg_type = AggTypeUnknown | AggTypeInt | AggTypeFloat | AggTypeDec | AggTypeString

record ('f, 'd) sum_collector =
  sum_Int :: int
  sum_Float :: 'f
  sum_Dec :: 'd

record ('f, 'd) avg_collector =
  avg_Int :: int
  avg_Float :: 'f
  avg_Dec :: 'd
  avg_Count :: int

record ('f, 'd) ext_collector =
  ext_Int :: int
  ext_Float :: 'f
  ext_Dec :: 'd
  ext_Str :: string
  ext_Count :: int

record ('f, 'd) eval_ctx =
  aggFunc :: agg_func
  aggType :: agg_type
  aggCallExp :: "nat option"
  agg_count :: int
  sa_Sb :: string
  sa_Separator :: string
  sumCollector :: "('f, 'd) sum_collector"
  avgCollector :: "('f, 'd) avg_collector"
  minCollector :: "('f, 'd) ext_collector"
  maxCollector :: "('f, 'd) ext_collector"
  ctx_value :: "('f, 'd) gval"
  aggEnabled :: bool
  roundDec :: int
  evalFunctions :: "(string \<Rightarrow> (('f, 'd) gval list \<Rightarrow> goerr + ('f, 'd) gval) option) option"
  evalConstants :: "(string \<Rightarrow> ('f, 'd) gval option) option"
  evalVars :: "('f, 'd) var_values option"

subsection \<open>Contexts\<close>

definition DetectRootAggFunc :: "expr \<Rightarrow> bool \<times> agg_func \<times> expr list" where
  "DetectRootAggFunc exp =
     (case exp of
        CallExpr pos (Ident f) args \<Rightarrow>
          (if StringToAggFunc f \<noteq> AggUnknown then (True, StringToAggFunc f, args)
           else (False, AggUnknown, []))
      | _ \<Rightarrow> (False, AggUnknown, []))"

definition newPlainEvalCtxInternal :: "('f, 'd) numops \<Rightarrow> bool \<Rightarrow> ('f, 'd) eval_ctx" where
  "newPlainEvalCtxInternal N enabled =
     \<lparr>aggFunc = AggUnknown, aggType = AggTypeUnknown, aggCallExp = None, agg_count = 0,
      sa_Sb = '''', sa_Separator = '''',
      sumCollector = \<lparr>sum_Int = 0, sum_Float = f_of_int N 0, sum_Dec = d_of_int N 0\<rparr>,
      avgCollector = \<lparr>avg_Int = 0, avg_Float = f_of_int N 0, avg_Dec = d_of_int N 0, avg_Count = 0\<rparr>,
      minCollector = \<lparr>ext_Int = 2 ^ 63 - 1, ext_Float = f_max N, ext_Dec = d_max32 N, ext_Str = '''',
                      ext_Count = 0\<rparr>,
      maxCollector = \<lparr>ext_Int = - (2 ^ 63), ext_Float = f_neg N (f_max32 N), ext_Dec = d_min32 N,
                      ext_Str = '''', ext_Count = 0\<rparr>,
      ctx_value = VNil, aggEnabled = enabled, roundDec = -1,
      evalFunctions = None, evalConstants = None, evalVars = None\<rparr>"

definition NewPlainEvalCtx ::
  "('f, 'd) numops \<Rightarrow> (string \<Rightarrow> (('f, 'd) gval list \<Rightarrow> goerr + ('f, 'd) gval) option) \<Rightarrow>
     (string \<Rightarrow> ('f, 'd) gval option) \<Rightarrow> ('f, 'd) var_values \<Rightarrow> ('f, 'd) eval_ctx" where
  "NewPlainEvalCtx N fns consts vars =
     (newPlainEvalCtxInternal N False)\<lparr>evalFunctions := Some fns, evalConstants := Some consts,
                                        evalVars := Some vars\<rparr>"

definition getAggStringSeparator :: "agg_func \<Rightarrow> expr list \<Rightarrow> goerr + string" where
  "getAggStringSeparator f args =
     (if f = AggStringAgg \<and> length args \<noteq> 2 then Inl ''string_agg must have two parameters''
      else if f = AggStringAggIf \<and> length args \<noteq> 3 then Inl ''string_agg_if must have three parameters''
      else (case args ! 1 of
              BasicLit TSTRING v \<Rightarrow> Inr (Trim v dquote)
            | BasicLit _ v \<Rightarrow> Inl ''string_agg/if second parameter must be a constant string''
            | _ \<Rightarrow> Inl ''string_agg/if second parameter must be a basic literal''))"

definition NewAggEvalCtx ::
  "('f, 'd) numops \<Rightarrow> agg_func \<Rightarrow> expr list \<Rightarrow>
     (string \<Rightarrow> (('f, 'd) gval list \<Rightarrow> goerr + ('f, 'd) gval) option) \<Rightarrow>
     (string \<Rightarrow> ('f, 'd) gval option) \<Rightarrow> ('f, 'd) var_values \<Rightarrow> goerr + ('f, 'd) eval_ctx" where
  "NewAggEvalCtx N f args fns consts vars =
     (let c = (newPlainEvalCtxInternal N True)\<lparr>aggFunc := f, evalFunctions := Some fns,
                evalConstants := Some consts, evalVars := Some vars\<rparr>
      in if f = AggStringAgg \<or> f = AggStringAggIf then
           bindr (getAggStringSeparator f args)
             (\<lambda>sep. Inr (c\<lparr>sa_Separator := sep, aggType := AggTypeString\<rparr>))
         else Inr c)"

definition SetVars :: "('f, 'd) var_values \<Rightarrow> ('f, 'd) eval_ctx \<Rightarrow> ('f, 'd) eval_ctx" where
  "SetVars vars c = c\<lparr>evalVars := Some vars\<rparr>"

definition SetRoundDec :: "int \<Rightarrow> ('f, 'd) eval_ctx \<Rightarrow> ('f, 'd) eval_ctx" where
  "SetRoundDec r c = c\<lparr>roundDec := r\<rparr>"

definition counting_func :: "agg_func \<Rightarrow> bool" where
  "counting_func f \<longleftrightarrow> f \<in> {AggCount, AggCountIf, AggSum, AggSumIf, AggAvg, AggAvgIf}"

definition GetValue :: "('f, 'd) eval_ctx \<Rightarrow> ('f, 'd) gval" where
  "GetValue c =
     (if aggEnabled c \<and> counting_func (aggFunc c) \<and> ctx_value c = VNil then VInt64 0 else ctx_value c)"

definition GetSafeValue :: "('f, 'd) gval \<Rightarrow> ('f, 'd) eval_ctx \<Rightarrow> ('f, 'd) gval" where
  "GetSafeValue defaultValue c =
     (if aggEnabled c \<and> counting_func (aggFunc c) then GetValue c
      else if ctx_value c = VNil then defaultValue else ctx_value c)"

definition CheckArgs :: "string \<Rightarrow> nat \<Rightarrow> nat \<Rightarrow> goerr option" where
  "CheckArgs funcName required actual =
     (if actual \<noteq> required then Some (''cannot evaluate '' @ funcName @ ''(), wrong number of args'') else None)"

subsection \<open>Aggregate functions\<close>

type_synonym ('f, 'd) eval_out = "(('f, 'd) gval \<times> goerr option) \<times> ('f, 'd) eval_ctx"

definition checkAgg ::
  "string \<Rightarrow> nat \<Rightarrow> agg_func \<Rightarrow> ('f, 'd) eval_ctx \<Rightarrow> goerr option \<times> ('f, 'd) eval_ctx" where
  "checkAgg funcName callExp f c =
     (if \<not> aggEnabled c then
        (Some (''cannot evaluate '' @ funcName @ ''(), context aggregate not enabled''), c)
      else (case aggCallExp c of
              Some e \<Rightarrow>
                (if e \<noteq> callExp
                 then (Some ''cannot evaluate more than one aggregate function in the expression'', c)
                 else (None, c))
            | None \<Rightarrow> (None, c\<lparr>aggCallExp := Some callExp, aggFunc := f\<rparr>)))"

definition checkIf :: "string \<Rightarrow> ('f, 'd) gval \<Rightarrow> goerr + bool" where
  "checkIf funcName arg =
     (case arg of VBool b \<Rightarrow> Inr b
      | _ \<Rightarrow> Inl (''cannot evaluate the if part of the agg function '' @ funcName))"

text \<open>The type of an aggregate is that of its first argument.\<close>

definition agg_start :: "string \<Rightarrow> agg_type \<Rightarrow> ('f, 'd) eval_ctx \<Rightarrow> goerr + ('f, 'd) eval_ctx" where
  "agg_start funcName t c =
     (if aggType c = AggTypeUnknown then Inr (c\<lparr>aggType := t\<rparr>)
      else if aggType c \<noteq> t
      then Inl (''cannot evaluate '' @ funcName @ ''(), it started with another type'')
      else Inr c)"

definition callAggStringAggInternal ::
  "string \<Rightarrow> ('f, 'd) gval list \<Rightarrow> bool \<Rightarrow> ('f, 'd) eval_ctx \<Rightarrow> ('f, 'd) eval_out" where
  "callAggStringAggInternal funcName args isApply c =
     (case args ! 0 of
        VStr s \<Rightarrow>
          (let c1 = (if isApply
                     then c\<lparr>sa_Sb := (if length (sa_Sb c) > 0 then sa_Sb c @ sa_Separator c else sa_Sb c) @ s\<rparr>
                     else c)
           in ((VStr (sa_Sb c1), None), c1))
      | _ \<Rightarrow> ((VNil, Some (''cannot evaluate '' @ funcName @ ''(), unexpected argument'')), c))"

definition callAggSumInternal ::
  "('f, 'd) numops \<Rightarrow> string \<Rightarrow> ('f, 'd) gval list \<Rightarrow> bool \<Rightarrow> ('f, 'd) eval_ctx \<Rightarrow> ('f, 'd) eval_out"
  where
  "callAggSumInternal N funcName args isApply c =
     (case castNumberToStandardType (args ! 0) of
        Inl e \<Rightarrow> ((VNil, Some e), c)
      | Inr (VInt64 i) \<Rightarrow>
          (case agg_start funcName AggTypeInt c of
             Inl e \<Rightarrow> ((VNil, Some e), c)
           | Inr c1 \<Rightarrow>
               (let s = sumCollector c1;
                    s1 = (if isApply then s\<lparr>sum_Int := wrap64 (sum_Int s + i)\<rparr> else s)
                in ((VInt64 (sum_Int s1), None), c1\<lparr>sumCollector := s1\<rparr>)))
      | Inr (VFloat64 f) \<Rightarrow>
          (case agg_start funcName AggTypeFloat c of
             Inl e \<Rightarrow> ((VNil, Some e), c)
           | Inr c1 \<Rightarrow>
               (let s = sumCollector c1;
                    s1 = (if isApply then s\<lparr>sum_Float := f_add N (sum_Float s) f\<rparr> else s)
                in ((VFloat64 (sum_Float s1), None), c1\<lparr>sumCollector := s1\<rparr>)))
      | Inr (VDec d) \<Rightarrow>
          (case agg_start funcName AggTypeDec c of
             Inl e \<Rightarrow> ((VNil, Some e), c)
           | Inr c1 \<Rightarrow>
               (let s = sumCollector c1;
                    s1 = (if isApply then s\<lparr>sum_Dec := d_add N (sum_Dec s) d\<rparr> else s)
                in ((VDec (sum_Dec s1), None), c1\<lparr>sumCollector := s1\<rparr>)))
      | Inr _ \<Rightarrow> ((VNil, Some (''cannot evaluate '' @ funcName @ ''(), unexpected argument'')), c))"

text \<open>big.Int.Div is Euclidean division, which for the positive count is HOL's div.\<close>

definition callAggAvgInternal ::
  "('f, 'd) numops \<Rightarrow> string \<Rightarrow> ('f, 'd) gval list \<Rightarrow> bool \<Rightarrow> ('f, 'd) eval_ctx \<Rightarrow> ('f, 'd) eval_out"
  where
  "callAggAvgInternal N funcName args isApply c =
     (case castNumberToStandardType (args ! 0) of
        Inl e \<Rightarrow> ((VNil, Some e), c)
      | Inr (VInt64 i) \<Rightarrow>
          (case agg_start funcName AggTypeInt c of
             Inl e \<Rightarrow> ((VNil, Some e), c)
           | Inr c1 \<Rightarrow>
               (let s = avgCollector c1;
                    s1 = (if isApply then s\<lparr>avg_Int := avg_Int s + i, avg_Count := wrap64 (avg_Count s + 1)\<rparr>
                          else s)
                in ((if avg_Count s1 > 0 then VInt64 (wrap64 (avg_Int s1 div avg_Count s1)) else VInt64 0,
                     None), c1\<lparr>avgCollector := s1\<rparr>)))
      | Inr (VFloat64 f) \<Rightarrow>
          (case agg_start funcName AggTypeFloat c of
             Inl e \<Rightarrow> ((VNil, Some e), c)
           | Inr c1 \<Rightarrow>
               (let s = avgCollector c1;
                    s1 = (if isApply then s\<lparr>avg_Float := f_add N (avg_Float s) f,
                                            avg_Count := wrap64 (avg_Count s + 1)\<rparr> else s)
                in ((if avg_Count s1 > 0 then VFloat64 (f_div N (avg_Float s1) (f_of_int N (avg_Count s1)))
                     else VFloat64 (f_of_int N 0), None), c1\<lparr>avgCollector := s1\<rparr>)))
      | Inr (VDec d) \<Rightarrow>
          (case agg_start funcName AggTypeDec c of
             Inl e \<Rightarrow> ((VNil, Some e), c)
           | Inr c1 \<Rightarrow>
               (let s = avgCollector c1;
                    s1 = (if isApply then s\<lparr>avg_Dec := d_add N (avg_Dec s) d,
                                            avg_Count := wrap64 (avg_Count s + 1)\<rparr> else s)
                in ((if avg_Count s1 > 0 then
                       (case d_div N (avg_Dec s1) (d_of_int N (avg_Count s1)) of
                          Some v \<Rightarrow> VDec (if roundDec c1 \<ge> 0 then d_round N (roundDec c1) v else v)
                        | None \<Rightarrow> VDec (d_of_int N 0))
                     else VDec (d_of_int N 0), None), c1\<lparr>avgCollector := s1\<rparr>)))
      | Inr _ \<Rightarrow> ((VNil, Some (''cannot evaluate '' @ funcName @ ''(), unexpected argument'')), c))"

definition callAggCountInternal :: "bool \<Rightarrow> ('f, 'd) eval_ctx \<Rightarrow> ('f, 'd) eval_out" where
  "callAggCountInternal isApply c =
     (let c1 = (if isApply then c\<lparr>agg_count := wrap64 (agg_count c + 1)\<rparr> else c)
      in ((VInt64 (agg_count c1), None), c1))"

definition callAggMinInternal ::
  "('f, 'd) numops \<Rightarrow> string \<Rightarrow> ('f, 'd) gval list \<Rightarrow> bool \<Rightarrow> ('f, 'd) eval_ctx \<Rightarrow> ('f, 'd) eval_out"
  where
  "callAggMinInternal N funcName args isApply c =
     (case args ! 0 of
        VStr v \<Rightarrow>
          (case agg_start funcName AggTypeString c of
             Inl e \<Rightarrow> ((VNil, Some e), c)
           | Inr c1 \<Rightarrow>
               (let s = minCollector c1;
                    s1 = (if isApply then s\<lparr>ext_Count := wrap64 (ext_Count s + 1),
                            ext_Str := (if length (ext_Str s) = 0 \<or> v < ext_Str s then v else ext_Str s)\<rparr>
                          else s)
                in ((VStr (ext_Str s1), None), c1\<lparr>minCollector := s1\<rparr>)))
      | arg \<Rightarrow>
          (case castNumberToStandardType arg of
             Inl e \<Rightarrow> ((VNil, Some e), c)
           | Inr (VInt64 i) \<Rightarrow>
               (case agg_start funcName AggTypeInt c of
                  Inl e \<Rightarrow> ((VNil, Some e), c)
                | Inr c1 \<Rightarrow>
                    (let s = minCollector c1;
                         s1 = (if isApply then s\<lparr>ext_Count := wrap64 (ext_Count s + 1),
                                 ext_Int := (if i < ext_Int s then i else ext_Int s)\<rparr> else s)
                     in ((VInt64 (ext_Int s1), None), c1\<lparr>minCollector := s1\<rparr>)))
           | Inr (VFloat64 f) \<Rightarrow>
               (case agg_start funcName AggTypeFloat c of
                  Inl e \<Rightarrow> ((VNil, Some e), c)
                | Inr c1 \<Rightarrow>
                    (let s = minCollector c1;
                         s1 = (if isApply then s\<lparr>ext_Count := wrap64 (ext_Count s + 1),
                                 ext_Float := (if f_lt N f (ext_Float s) then f else ext_Float s)\<rparr> else s)
                     in ((VFloat64 (ext_Float s1), None), c1\<lparr>minCollector := s1\<rparr>)))
           | Inr (VDec d) \<Rightarrow>
               (case agg_start funcName AggTypeDec c of
                  Inl e \<Rightarrow> ((VNil, Some e), c)
                | Inr c1 \<Rightarrow>
                    (let s = minCollector c1;
                         s1 = (if isApply then s\<lparr>ext_Count := wrap64 (ext_Count s + 1),
                                 ext_Dec := (if d_cmp N d (ext_Dec s) < 0 then d else ext_Dec s)\<rparr> else s)
                     in ((VDec (ext_Dec s1), None), c1\<lparr>minCollector := s1\<rparr>)))
           | Inr _ \<Rightarrow> ((VNil, Some (''cannot evaluate '' @ funcName @ ''(), unexpected argument'')), c)))"

definition callAggMaxInternal ::
  "('f, 'd) numops \<Rightarrow> string \<Rightarrow> ('f, 'd) gval list \<Rightarrow> bool \<Rightarrow> ('f, 'd) eval_ctx \<Rightarrow> ('f, 'd) eval_out"
  where
  "callAggMaxInternal N funcName args isApply c =
     (case args ! 0 of
        VStr v \<Rightarrow>
          (case agg_start funcName AggTypeString c of
             Inl e \<Rightarrow> ((VNil, Some e), c)
           | Inr c1 \<Rightarrow>
               (let s = maxCollector c1;
                    s1 = (if isApply then s\<lparr>ext_Count := wrap64 (ext_Count s + 1),
                            ext_Str := (if length (ext_Str s) = 0 \<or> v > ext_Str s then v else ext_Str s)\<rparr>
                          else s)
                in ((VStr (ext_Str s1), None), c1\<lparr>maxCollector := s1\<rparr>)))
      | arg \<Rightarrow>
          (case castNumberToStandardType arg of
             Inl e \<Rightarrow> ((VNil, Some e), c)
           | Inr (VInt64 i) \<Rightarrow>
               (case agg_start funcName AggTypeInt c of
                  Inl e \<Rightarrow> ((VNil, Some e), c)
                | Inr c1 \<Rightarrow>
                    (let s = maxCollector c1;
                         s1 = (if isApply then s\<lparr>ext_Count := wrap64 (ext_Count s + 1),
                                 ext_Int := (if i > ext_Int s then i else ext_Int s)\<rparr> else s)
                     in ((VInt64 (ext_Int s1), None), c1\<lparr>maxCollector := s1\<rparr>)))
           | Inr (VFloat64 f) \<Rightarrow>
               (case agg_start funcName AggTypeFloat c of
                  Inl e \<Rightarrow> ((VNil, Some e), c)
                | Inr c1 \<Rightarrow>
                    (let s = maxCollector c1;
                         s1 = (if isApply then s\<lparr>ext_Count := wrap64 (ext_Count s + 1),
                                 ext_Float := (if f_lt N (ext_Float s) f then f else ext_Float s)\<rparr> else s)
                     in ((VFloat64 (ext_Float s1), None), c1\<lparr>maxCollector := s1\<rparr>)))
           | Inr (VDec d) \<Rightarrow>
               (case agg_start funcName AggTypeDec c of
                  Inl e \<Rightarrow> ((VNil, Some e), c)
                | Inr c1 \<Rightarrow>
                    (let s = maxCollector c1;
                         s1 = (if isApply then s\<lparr>ext_Count := wrap64 (ext_Count s + 1),
                                 ext_Dec := (if d_cmp N d (ext_Dec s) > 0 then d else ext_Dec s)\<rparr> else s)
                     in ((VDec (ext_Dec s1), None), c1\<lparr>maxCollector := s1\<rparr>)))
           | Inr _ \<Rightarrow> ((VNil, Some (''cannot evaluate '' @ funcName @ ''(), unexpected argument'')), c)))"

text \<open>What the exported functions share: the two checks, and for the if-variants the condition.\<close>

definition call_agg ::
  "string \<Rightarrow> nat \<Rightarrow> agg_func \<Rightarrow> nat \<Rightarrow> ('f, 'd) gval list \<Rightarrow> (('f, 'd) eval_ctx \<Rightarrow> ('f, 'd) eval_out) \<Rightarrow>
     ('f, 'd) eval_ctx \<Rightarrow> ('f, 'd) eval_out" where
  "call_agg funcName callExp f argCount args inner c =
     (case checkAgg funcName callExp f c of
        (Some e, c1) \<Rightarrow> ((VNil, Some e), c1)
      | (None, c1) \<Rightarrow>
          (case CheckArgs funcName argCount (length args) of
             Some e \<Rightarrow> ((VNil, Some e), c1)
           | None \<Rightarrow> inner c1))"

definition call_agg_if ::
  "string \<Rightarrow> ('f, 'd) gval \<Rightarrow> (bool \<Rightarrow> ('f, 'd) eval_ctx \<Rightarrow> ('f, 'd) eval_out) \<Rightarrow>
     ('f, 'd) eval_ctx \<Rightarrow> ('f, 'd) eval_out" where
  "call_agg_if funcName cond inner c =
     (case checkIf funcName cond of Inl e \<Rightarrow> ((VNil, Some e), c) | Inr isApply \<Rightarrow> inner isApply c)"

definition CallAggStringAgg where
  "CallAggStringAgg callExp args =
     call_agg ''string_agg'' callExp AggStringAgg 2 args (callAggStringAggInternal ''string_agg'' args True)"

definition CallAggStringAggIf where
  "CallAggStringAggIf callExp args =
     call_agg ''string_agg_if'' callExp AggStringAgg 3 args
       (call_agg_if ''string_agg_if'' (args ! 2) (callAggStringAggInternal ''string_agg_if'' args))"

definition CallAggSum where
  "CallAggSum N callExp args =
     call_agg ''sum'' callExp AggSum 1 args (callAggSumInternal N ''sum'' args True)"

definition CallAggSumIf where
  "CallAggSumIf N callExp args =
     call_agg ''sum_if'' callExp AggSum 2 args
       (call_agg_if ''sum_if'' (args ! 1) (callAggSumInternal N ''sum_if'' args))"

definition CallAggAvg where
  "CallAggAvg N callExp args =
     call_agg ''avg'' callExp AggAvg 1 args (callAggAvgInternal N ''avg'' args True)"

definition CallAggAvgIf where
  "CallAggAvgIf N callExp args =
     call_agg ''avg_if'' callExp AggAvg 2 args
       (call_agg_if ''avg_if'' (args ! 1) (callAggAvgInternal N ''avg_if'' args))"

definition CallAggCount where
  "CallAggCount callExp args = call_agg ''count'' callExp AggCount 0 args (callAggCountInternal True)"

definition CallAggCountIf where
  "CallAggCountIf callExp args =
     call_agg ''count_if'' callExp AggCount 1 args
       (call_agg_if ''count_if'' (args ! 0) callAggCountInternal)"

definition CallAggMin where
  "CallAggMin N callExp args =
     call_agg ''min'' callExp AggMin 1 args (callAggMinInternal N ''min'' args True)"

definition CallAggMinIf where
  "CallAggMinIf N callExp args =
     call_agg ''min_if'' callExp AggMin 2 args
       (call_agg_if ''min_if'' (args ! 1) (callAggMinInternal N ''min_if'' args))"

definition CallAggMax where
  "CallAggMax N callExp args =
     call_agg ''max'' callExp AggMax 1 args (callAggMaxInternal N ''max'' args True)"

definition CallAggMaxIf where
  "CallAggMaxIf N callExp args =
     call_agg ''max_if'' callExp AggMax 2 args
       (call_agg_if ''max_if'' (args ! 1) (callAggMaxInternal N ''max_if'' args))"

end
