(* ===== verification/Eval_Expr.thy ===== *)
theory Eval_Expr
  imports Eval_Agg
begin

text \<open>
  The evaluator (EvalCtx.Eval in pkg/eval/eval_ctx.go): a recursion over the parsed expression
  that threads the context. Both operands of a binary operator are always evaluated.
\<close>

subsection \<open>One operator\<close>

text \<open>Storing a value in the context and returning it, as \<open>eCtx.value, err = ...\<close> does.\<close>

definition assign :: "('f, 'd) gval \<Rightarrow> goerr option \<Rightarrow> ('f, 'd) eval_ctx \<Rightarrow> ('f, 'd) eval_out" where
  "assign v e c = ((v, e), c\<lparr>ctx_value := v\<rparr>)"

definition fail :: "goerr \<Rightarrow> ('f, 'd) eval_ctx \<Rightarrow> ('f, 'd) eval_out" where
  "fail e c = ((VNil, Some e), c)"

definition evalBinaryArithmeticExp ::
  "('f, 'd) numops \<Rightarrow> ('f, 'd) gval \<Rightarrow> token \<Rightarrow> ('f, 'd) gval \<Rightarrow> ('f, 'd) eval_ctx \<Rightarrow> ('f, 'd) eval_out"
  where
  "evalBinaryArithmeticExp N l op r c =
     (case l of
        VStr _ \<Rightarrow> (case EvalBinaryString l op r of (v, e) \<Rightarrow> assign (VStr v) e c)
      | _ \<Rightarrow>
          (case castNumberPairToCommonType N l r of
             Inl _ \<Rightarrow> fail ''cannot perform binary arithmetic op, incompatible arg types'' c
           | Inr (sl, sr) \<Rightarrow>
               (case sl of
                  VInt64 _ \<Rightarrow> (case EvalBinaryInt sl op sr of (v, e) \<Rightarrow> assign (VInt64 v) e c)
                | VFloat64 _ \<Rightarrow> (case EvalBinaryFloat64 N sl op sr of (v, e) \<Rightarrow> assign (VFloat64 v) e c)
                | VDec _ \<Rightarrow>
                    (case EvalBinaryDecimal N (roundDec c) sl op sr of (v, e) \<Rightarrow> assign (VDec v) e c)
                | _ \<Rightarrow> fail ''cannot perform binary arithmetic op, unexpected std type'' c)))"

definition evalBinaryBoolToBoolExp ::
  "('f, 'd) gval \<Rightarrow> token \<Rightarrow> ('f, 'd) gval \<Rightarrow> ('f, 'd) eval_ctx \<Rightarrow> ('f, 'd) eval_out" where
  "evalBinaryBoolToBoolExp l op r c =
     (case l of
        VBool _ \<Rightarrow> (case EvalBinaryBool l op r of (v, e) \<Rightarrow> assign (VBool v) e c)
      | _ \<Rightarrow> fail ''cannot perform binary op against left'' c)"

definition evalBinaryCompareExp ::
  "('f, 'd) numops \<Rightarrow> ('f, 'd) gval \<Rightarrow> token \<Rightarrow> ('f, 'd) gval \<Rightarrow> ('f, 'd) eval_ctx \<Rightarrow> ('f, 'd) eval_out"
  where
  "evalBinaryCompareExp N l op r c =
     (if l = VNil \<and> r \<noteq> VNil \<or> l \<noteq> VNil \<and> r = VNil then assign (VBool (op = NEQ)) None c
      else if l = VNil \<and> r = VNil then assign (VBool (op = EQL)) None c
      else
        (case l of
           VTime _ \<Rightarrow> (case EvalBinaryTimeToBool l op r of (v, e) \<Rightarrow> assign (VBool v) e c)
         | VStr _ \<Rightarrow> (case EvalBinaryStringToBool l op r of (v, e) \<Rightarrow> assign (VBool v) e c)
         | VBool _ \<Rightarrow> (case EvalBinaryBoolToBool l op r of (v, e) \<Rightarrow> assign (VBool v) e c)
         | VBytes _ \<Rightarrow> (case EvalBinaryByteSliceToByteSlice l op r of (v, e) \<Rightarrow> assign (VBool v) e c)
         | _ \<Rightarrow>
             (case castNumberPairToCommonType N l r of
                Inl _ \<Rightarrow> fail ''cannot perform binary comp op, incompatible arg types'' c
              | Inr (sl, sr) \<Rightarrow>
                  (case sl of
                     VInt64 _ \<Rightarrow> (case EvalBinaryIntToBool sl op sr of (v, e) \<Rightarrow> assign (VBool v) e c)
                   | VFloat64 _ \<Rightarrow>
                       (case EvalBinaryFloat64ToBool N sl op sr of (v, e) \<Rightarrow> assign (VBool v) e c)
                   | VDec _ \<Rightarrow>
                       (case EvalBinaryDecimal2ToBool N sl op sr of (v, e) \<Rightarrow> assign (VBool v) e c)
                   | _ \<Rightarrow> fail ''cannot perform binary comp op, unexpected std type'' c))))"

definition binary_op ::
  "('f, 'd) numops \<Rightarrow> ('f, 'd) gval \<Rightarrow> token \<Rightarrow> ('f, 'd) gval \<Rightarrow> ('f, 'd) eval_ctx \<Rightarrow> ('f, 'd) eval_out"
  where
  "binary_op N l op r c =
     (if op \<in> {ADD, SUB, MUL, QUO, REM} then evalBinaryArithmeticExp N l op r c
      else if op \<in> {LOR, LAND} then evalBinaryBoolToBoolExp l op r c
      else if op \<in> {GTR, GEQ, LSS, LEQ, EQL, NEQ} then evalBinaryCompareExp N l op r c
      else fail ''cannot perform binary expression unknown op'' c)"

definition unary_not :: "('f, 'd) gval \<Rightarrow> bool res" where
  "unary_not v =
     (case v of VBool b \<Rightarrow> (\<not> b, None)
      | _ \<Rightarrow> (False, Some ''cannot evaluate unary bool not expression''))"

definition unary_minus :: "('f, 'd) numops \<Rightarrow> ('f, 'd) gval \<Rightarrow> ('f, 'd) gval res" where
  "unary_minus N v =
     (case v of
        VInt i \<Rightarrow> (VInt64 (wrap64 (- i)), None)
      | VInt16 i \<Rightarrow> (VInt64 (wrap16 (- i)), None)
      | VInt32 i \<Rightarrow> (VInt64 (wrap32 (- i)), None)
      | VInt64 i \<Rightarrow> (VInt64 (wrap64 (- i)), None)
      | VFloat32 f \<Rightarrow> (VFloat64 (f_neg N f), None)
      | VFloat64 f \<Rightarrow> (VFloat64 (f_neg N f), None)
      | VDec d \<Rightarrow> (VDec (d_neg N d), None)
      | _ \<Rightarrow> (VBool False, Some ''cannot evaluate unary minus expression, unsupported type''))"

definition eval_lit ::
  "('f, 'd) numops \<Rightarrow> lit_kind \<Rightarrow> string \<Rightarrow> ('f, 'd) eval_ctx \<Rightarrow> ('f, 'd) eval_out" where
  "eval_lit N k s c =
     (case k of
        TINT \<Rightarrow>
          (case ParseInt s of
             (i, None) \<Rightarrow> assign (VInt64 i) None c
           | (_, Some e) \<Rightarrow>
               (case d_parse N s of
                  Inl e' \<Rightarrow> fail (''cannot eval int: int says '' @ e @ '', decimal says '' @ e') c
                | Inr d \<Rightarrow> assign (VDec d) None c))
      | TFLOAT \<Rightarrow> assign (VFloat64 (f_parse N s)) None c
      | TIDENT \<Rightarrow> fail ''cannot evaluate expression of type token.IDENT'' c
      | TSTRING \<Rightarrow>
          ((VStr (if s \<noteq> [] \<and> hd s = CHR 0x22 then Trim s dquote else Trim s ''`''), None),
           c\<lparr>ctx_value := VStr s\<rparr>)
      | _ \<Rightarrow> fail ''cannot evaluate expression of type'' c)"

text \<open>A name: a constant, else a variable of the object.\<close>

definition eval_name ::
  "string \<Rightarrow> string \<Rightarrow> string \<Rightarrow> ('f, 'd) eval_ctx \<Rightarrow> ('f, 'd) eval_out" where
  "eval_name const obj field c =
     (case (case evalConstants c of None \<Rightarrow> None | Some m \<Rightarrow> m const) of
        Some v \<Rightarrow> assign v None c
      | None \<Rightarrow>
          (case evalVars c of
             None \<Rightarrow> fail ''cannot evaluate ident expression, no variables supplied to the context'' c
           | Some vars \<Rightarrow>
               (case vars obj of
                  None \<Rightarrow> fail ''cannot evaluate ident expression, no object'' c
                | Some attrs \<Rightarrow>
                    (case attrs field of
                       None \<Rightarrow> fail ''cannot evaluate ident expression, variable not supplied'' c
                     | Some v \<Rightarrow> assign v None c))))"

definition EvalFunc ::
  "('f, 'd) numops \<Rightarrow> nat \<Rightarrow> string \<Rightarrow> ('f, 'd) gval list \<Rightarrow> ('f, 'd) eval_ctx \<Rightarrow> ('f, 'd) eval_out"
  where
  "EvalFunc N callExp funcName args c =
     (let store = (\<lambda>out. case out of ((v, e), c1) \<Rightarrow> assign v e c1) in
      if funcName = ''string_agg'' then store (CallAggStringAgg callExp args c)
      else if funcName = ''sum'' then store (CallAggSum N callExp args c)
      else if funcName = ''count'' then store (CallAggCount callExp args c)
      else if funcName = ''avg'' then store (CallAggAvg N callExp args c)
      else if funcName = ''min'' then store (CallAggMin N callExp args c)
      else if funcName = ''max'' then store (CallAggMax N callExp args c)
      else if funcName = ''string_agg_if'' then store (CallAggStringAggIf callExp args c)
      else if funcName = ''sum_if'' then store (CallAggSumIf N callExp args c)
      else if funcName = ''count_if'' then store (CallAggCountIf callExp args c)
      else if funcName = ''avg_if'' then store (CallAggAvgIf N callExp args c)
      else if funcName = ''min_if'' then store (CallAggMinIf N callExp args c)
      else if funcName = ''max_if'' then store (CallAggMaxIf N callExp args c)
      else
        (case (case evalFunctions c of None \<Rightarrow> None | Some m \<Rightarrow> m funcName) of
           Some f \<Rightarrow> (case f args of Inl e \<Rightarrow> fail e c | Inr v \<Rightarrow> ((v, None), c))
         | None \<Rightarrow> fail (''cannot evaluate unsupported func '' @ funcName) c))"

definition call_named ::
  "('f, 'd) numops \<Rightarrow> nat \<Rightarrow> expr \<Rightarrow> ('f, 'd) gval list \<Rightarrow> ('f, 'd) eval_ctx \<Rightarrow> ('f, 'd) eval_out" where
  "call_named N pos fn args c =
     (case fn of
        Ident f \<Rightarrow> (case EvalFunc N pos f args c of ((v, e), c1) \<Rightarrow> assign v e c1)
      | SelectorExpr (Ident p) f \<Rightarrow>
          (case EvalFunc N pos (p @ ''.'' @ f) args c of ((v, e), c1) \<Rightarrow> assign v e c1)
      | SelectorExpr _ f \<Rightarrow> fail ''cannot evaluate fun expression, unknown type of X'' c
      | _ \<Rightarrow> fail ''cannot evaluate func call expression, unknown type of X'' c)"

subsection \<open>Eval\<close>

fun Eval :: "('f, 'd) numops \<Rightarrow> expr \<Rightarrow> ('f, 'd) eval_ctx \<Rightarrow> ('f, 'd) eval_out"
and eval_args ::
  "('f, 'd) numops \<Rightarrow> expr list \<Rightarrow> ('f, 'd) eval_ctx \<Rightarrow>
     (goerr + ('f, 'd) gval list) \<times> ('f, 'd) eval_ctx" where
  "Eval N (BinaryExpr x op y) c =
     (case Eval N x c of
        ((_, Some e), c1) \<Rightarrow> ((VNil, Some e), c1)
      | ((l, None), c1) \<Rightarrow>
          (case Eval N y c1 of
             ((_, Some e), c2) \<Rightarrow> ((VInt 0, Some e), c2)
           | ((r, None), c2) \<Rightarrow> binary_op N l op r c2))"
| "Eval N (BasicLit k s) c = eval_lit N k s c"
| "Eval N (UnaryExpr op x) c =
     (if op = NOT then
        (case Eval N x c of
           ((_, Some e), c1) \<Rightarrow> assign (VBool False) (Some e) c1
         | ((v, None), c1) \<Rightarrow> (case unary_not v of (b, e) \<Rightarrow> assign (VBool b) e c1))
      else if op = SUB then
        (case Eval N x c of
           ((_, Some e), c1) \<Rightarrow> assign (VBool False) (Some e) c1
         | ((v, None), c1) \<Rightarrow> (case unary_minus N v of (b, e) \<Rightarrow> assign b e c1))
      else fail ''cannot evaluate unary op, unknown op'' c)"
| "Eval N (Ident n) c = eval_name n '''' n c"
| "Eval N (CallExpr pos fn args) c =
     (case eval_args N args c of
        (Inl e, c1) \<Rightarrow> ((VNil, Some e), c1)
      | (Inr vs, c1) \<Rightarrow> call_named N pos fn vs c1)"
| "Eval N (SelectorExpr x sel) c =
     (case x of
        Ident obj \<Rightarrow> eval_name (obj @ ''.'' @ sel) obj sel c
      | _ \<Rightarrow> fail ''cannot evaluate selector expression, unknown type of X'' c)"
| "Eval N (ParenExpr x) c = Eval N x c"
| "Eval N OtherExpr c = fail ''cannot evaluate expression of unsupported type'' c"
| "eval_args N [] c = (Inr [], c)"
| "eval_args N (x # xs) c =
     (case Eval N x c of
        ((_, Some e), c1) \<Rightarrow> (Inl e, c1)
      | ((v, None), c1) \<Rightarrow>
          (case eval_args N xs c1 of
             (Inl e, c2) \<Rightarrow> (Inl e, c2)
           | (Inr vs, c2) \<Rightarrow> (Inr (v # vs), c2)))"

end
