(* ===== verification/Eval_Facts.thy ===== *)
theory Eval_Facts
  imports Eval_Expr
begin

text \<open>
  Facts on the evaluator: what an expression without aggregate calls can change, that at most one
  aggregate function is used, the value a context keeps, and what the aggregates compute over the
  rows of a group.
\<close>

subsection \<open>The aggregate calls of an expression\<close>

fun agg_calls :: "expr \<Rightarrow> nat set" and agg_calls_list :: "expr list \<Rightarrow> nat set" where
  "agg_calls (BinaryExpr x op y) = agg_calls x \<union> agg_calls y"
| "agg_calls (BasicLit k s) = {}"
| "agg_calls (UnaryExpr op x) = agg_calls x"
| "agg_calls (Ident n) = {}"
| "agg_calls (CallExpr pos fn args) =
     (case fn of Ident f \<Rightarrow> (if StringToAggFunc f \<noteq> AggUnknown then {pos} else {}) | _ \<Rightarrow> {}) \<union>
     agg_calls_list args"
| "agg_calls (SelectorExpr x sel) = {}"
| "agg_calls (ParenExpr x) = agg_calls x"
| "agg_calls OtherExpr = {}"
| "agg_calls_list [] = {}"
| "agg_calls_list (x # xs) = agg_calls x \<union> agg_calls_list xs"

text \<open>A name with a dot is no aggregate function.\<close>

lemma dotted_not_agg: "StringToAggFunc (p @ ''.'' @ f) = AggUnknown"
proof -
  have d: "CHR ''.'' \<in> set (p @ ''.'' @ f)" by simp
  have n: "s \<noteq> p @ ''.'' @ f" if "CHR ''.'' \<notin> set s" for s using d that by metis
  have "p @ ''.'' @ f \<noteq> ''string_agg''" "p @ ''.'' @ f \<noteq> ''string_agg_if''"
       "p @ ''.'' @ f \<noteq> ''sum''" "p @ ''.'' @ f \<noteq> ''sum_if''"
       "p @ ''.'' @ f \<noteq> ''count''" "p @ ''.'' @ f \<noteq> ''count_if''"
       "p @ ''.'' @ f \<noteq> ''avg''" "p @ ''.'' @ f \<noteq> ''avg_if''"
       "p @ ''.'' @ f \<noteq> ''min''" "p @ ''.'' @ f \<noteq> ''min_if''"
       "p @ ''.'' @ f \<noteq> ''max''" "p @ ''.'' @ f \<noteq> ''max_if''"
    by (rule n [THEN not_sym], simp)+
  then show ?thesis by (simp only: StringToAggFunc_def if_False)
qed

definition user_func ::
  "string \<Rightarrow> ('f, 'd) gval list \<Rightarrow> ('f, 'd) eval_ctx \<Rightarrow> ('f, 'd) eval_out" where
  "user_func name args c =
     (case (case evalFunctions c of None \<Rightarrow> None | Some m \<Rightarrow> m name) of
        Some f \<Rightarrow> (case f args of Inl e \<Rightarrow> fail e c | Inr v \<Rightarrow> ((v, None), c))
      | None \<Rightarrow> fail (''cannot evaluate unsupported func '' @ name) c)"

lemma EvalFunc_user:
  assumes "StringToAggFunc f = AggUnknown"
  shows "EvalFunc N pos f args c = user_func f args c"
proof -
  have "f \<noteq> ''string_agg''" "f \<noteq> ''string_agg_if''" "f \<noteq> ''sum''" "f \<noteq> ''sum_if''"
       "f \<noteq> ''count''" "f \<noteq> ''count_if''" "f \<noteq> ''avg''" "f \<noteq> ''avg_if''"
       "f \<noteq> ''min''" "f \<noteq> ''min_if''" "f \<noteq> ''max''" "f \<noteq> ''max_if''"
    using assms by (auto simp: StringToAggFunc_def)
  then show ?thesis by (simp only: EvalFunc_def user_func_def if_False Let_def)
qed

subsection \<open>Frame\<close>

text \<open>Two contexts give an expression the same meaning when these parts of them agree.\<close>

definition same_env :: "('f, 'd) eval_ctx \<Rightarrow> ('f, 'd) eval_ctx \<Rightarrow> bool" where
  "same_env c d \<longleftrightarrow> evalVars c = evalVars d \<and> evalConstants c = evalConstants d \<and>
     evalFunctions c = evalFunctions d \<and> roundDec c = roundDec d"

definition only_value :: "('f, 'd) eval_ctx \<Rightarrow> ('f, 'd) eval_ctx \<Rightarrow> bool" where
  "only_value c d \<longleftrightarrow> c\<lparr>ctx_value := VNil\<rparr> = d\<lparr>ctx_value := VNil\<rparr>"

named_theorems frame_simps

lemma same_env_refl [frame_simps]: "same_env c c" by (simp add: same_env_def)

lemma same_env_value [frame_simps]:
  "same_env (c\<lparr>ctx_value := v\<rparr>) d = same_env c d" "same_env c (d\<lparr>ctx_value := v\<rparr>) = same_env c d"
  by (simp_all add: same_env_def)

lemma only_value_refl [frame_simps]: "only_value c c" by (simp add: only_value_def)

lemma only_value_upd [frame_simps]: "only_value c (d\<lparr>ctx_value := v\<rparr>) = only_value c d"
  by (simp add: only_value_def)

lemma only_value_trans: "only_value c d \<Longrightarrow> only_value d e \<Longrightarrow> only_value c e"
  by (simp add: only_value_def)

lemma only_value_same_env:
  assumes "only_value c c'" "only_value d d'" "same_env c d"
  shows "same_env c' d'"
proof -
  have "same_env (c\<lparr>ctx_value := VNil\<rparr>) (d\<lparr>ctx_value := VNil\<rparr>)" using assms(3) by (simp only: same_env_value)
  then have "same_env (c'\<lparr>ctx_value := VNil\<rparr>) (d'\<lparr>ctx_value := VNil\<rparr>)"
    using assms(1,2) by (simp only: only_value_def)
  then show ?thesis by (simp only: same_env_value)
qed

text \<open>A step that reads only the environment and writes only the value.\<close>

definition framed :: "(('f, 'd) eval_ctx \<Rightarrow> 'r \<times> ('f, 'd) eval_ctx) \<Rightarrow> bool" where
  "framed f \<longleftrightarrow> (\<forall>c d. same_env c d \<longrightarrow> fst (f c) = fst (f d)) \<and> (\<forall>c. only_value c (snd (f c)))"

lemma framed_assign [frame_simps]: "framed (assign v e)" "framed (\<lambda>c. assign v e c)"
  by (simp_all add: framed_def assign_def frame_simps)

lemma framed_fail [frame_simps]: "framed (fail e)" "framed (\<lambda>c. fail e c)"
  by (simp_all add: framed_def fail_def frame_simps)

lemma framed_Pair [frame_simps]: "framed (Pair r)" "framed (\<lambda>c. (r, c))"
  by (simp_all add: framed_def frame_simps)

lemma framed_prod [frame_simps]:
  "(\<And>a b. framed (h a b)) \<Longrightarrow> framed (\<lambda>c. case p of (a, b) \<Rightarrow> h a b c)"
  by (cases p) simp

lemma framed_option:
  "framed f \<Longrightarrow> (\<And>a. framed (h a)) \<Longrightarrow> framed (\<lambda>c. case x of None \<Rightarrow> f c | Some a \<Rightarrow> h a c)"
  by (cases x) simp_all

lemma framed_sum:
  "(\<And>a. framed (f a)) \<Longrightarrow> (\<And>a. framed (h a)) \<Longrightarrow> framed (\<lambda>c. case x of Inl a \<Rightarrow> f a c | Inr a \<Rightarrow> h a c)"
  by (cases x) simp_all

lemma framed_if: "framed f \<Longrightarrow> framed g \<Longrightarrow> framed (\<lambda>c. if b then f c else g c)"
  by (cases b) simp_all

lemma framed_env:
  assumes "\<And>vs cs fs rd. framed (f vs cs fs rd)"
  shows "framed (\<lambda>c. f (evalVars c) (evalConstants c) (evalFunctions c) (roundDec c) c)"
proof -
  have e: "fst (f vs cs fs rd c) = fst (f vs cs fs rd d)" if "same_env c d" for vs cs fs rd c d
    using assms [of vs cs fs rd] that unfolding framed_def by blast
  have o: "only_value c (snd (f vs cs fs rd c))" for vs cs fs rd c
    using assms [of vs cs fs rd] unfolding framed_def by blast
  have "fst (f (evalVars c) (evalConstants c) (evalFunctions c) (roundDec c) c)
      = fst (f (evalVars d) (evalConstants d) (evalFunctions d) (roundDec d) d)" if "same_env c d" for c d
    using e [OF that] that unfolding same_env_def by (elim conjE) simp
  then show ?thesis using o unfolding framed_def by blast
qed

lemma framed_arith: "framed (evalBinaryArithmeticExp N l op r)"
proof -
  have "framed (\<lambda>c. case l of
        VStr _ \<Rightarrow> (case EvalBinaryString l op r of (v, e) \<Rightarrow> assign (VStr v) e c)
      | _ \<Rightarrow>
          (case castNumberPairToCommonType N l r of
             Inl _ \<Rightarrow> fail ''cannot perform binary arithmetic op, incompatible arg types'' c
           | Inr (sl, sr) \<Rightarrow>
               (case sl of
                  VInt64 _ \<Rightarrow> (case EvalBinaryInt sl op sr of (v, e) \<Rightarrow> assign (VInt64 v) e c)
                | VFloat64 _ \<Rightarrow> (case EvalBinaryFloat64 N sl op sr of (v, e) \<Rightarrow> assign (VFloat64 v) e c)
                | VDec _ \<Rightarrow> (case EvalBinaryDecimal N rd sl op sr of (v, e) \<Rightarrow> assign (VDec v) e c)
                | _ \<Rightarrow> fail ''cannot perform binary arithmetic op, unexpected std type'' c)))"
    (is "framed (?f rd)") for rd
  proof (cases "castNumberPairToCommonType N l r")
    case (Inl e)
    then show ?thesis by (cases l) (simp_all add: frame_simps)
  next
    case (Inr p)
    obtain sl sr where p: "p = (sl, sr)" by (cases p)
    have "framed (\<lambda>c. case sl of
                  VInt64 _ \<Rightarrow> (case EvalBinaryInt sl op sr of (v, e) \<Rightarrow> assign (VInt64 v) e c)
                | VFloat64 _ \<Rightarrow> (case EvalBinaryFloat64 N sl op sr of (v, e) \<Rightarrow> assign (VFloat64 v) e c)
                | VDec _ \<Rightarrow> (case EvalBinaryDecimal N rd sl op sr of (v, e) \<Rightarrow> assign (VDec v) e c)
                | _ \<Rightarrow> fail ''cannot perform binary arithmetic op, unexpected std type'' c)"
      by (cases sl) (simp_all add: frame_simps)
    then show ?thesis using Inr p by (cases l) (simp_all add: frame_simps)
  qed
  then have "framed (\<lambda>c. (\<lambda>vs cs fs rd. ?f rd) (evalVars c) (evalConstants c) (evalFunctions c) (roundDec c) c)"
    by (rule framed_env [where f = "\<lambda>vs cs fs rd. ?f rd"])
  then show ?thesis by (simp only: evalBinaryArithmeticExp_def [abs_def])
qed

lemma framed_boolop: "framed (evalBinaryBoolToBoolExp l op r)"
  unfolding evalBinaryBoolToBoolExp_def [abs_def] by (cases l) (simp_all add: frame_simps)

lemma framed_compare: "framed (evalBinaryCompareExp N l op r)"
proof (cases "castNumberPairToCommonType N l r")
  case (Inl e)
  then show ?thesis unfolding evalBinaryCompareExp_def [abs_def]
    by (cases "l = VNil"; cases "r = VNil"; cases l) (simp_all add: frame_simps)
next
  case (Inr p)
  obtain sl sr where p: "p = (sl, sr)" by (cases p)
  have "framed (\<lambda>c. case sl of
                     VInt64 _ \<Rightarrow> (case EvalBinaryIntToBool sl op sr of (v, e) \<Rightarrow> assign (VBool v) e c)
                   | VFloat64 _ \<Rightarrow>
                       (case EvalBinaryFloat64ToBool N sl op sr of (v, e) \<Rightarrow> assign (VBool v) e c)
                   | VDec _ \<Rightarrow>
                       (case EvalBinaryDecimal2ToBool N sl op sr of (v, e) \<Rightarrow> assign (VBool v) e c)
                   | _ \<Rightarrow> fail ''cannot perform binary comp op, unexpected std type'' c)"
    by (cases sl) (simp_all add: frame_simps)
  then show ?thesis using Inr p unfolding evalBinaryCompareExp_def [abs_def]
    by (cases "l = VNil"; cases "r = VNil"; cases l) (simp_all add: frame_simps)
qed

lemma framed_binary_op: "framed (binary_op N l op r)"
  unfolding binary_op_def [abs_def]
  by (intro framed_if framed_arith framed_boolop framed_compare framed_fail)

lemma framed_lit: "framed (eval_lit N k s)"
  by (cases k; cases "ParseInt s"; cases "snd (ParseInt s)"; cases "d_parse N s")
    (simp_all add: eval_lit_def [abs_def] frame_simps, simp_all add: framed_def frame_simps)

lemma framed_name: "framed (eval_name const obj field)"
proof -
  have "framed (\<lambda>c. case (case cs of None \<Rightarrow> None | Some m \<Rightarrow> m const) of
        Some v \<Rightarrow> assign v None c
      | None \<Rightarrow>
          (case vs of
             None \<Rightarrow> fail ''cannot evaluate ident expression, no variables supplied to the context'' c
           | Some vars \<Rightarrow>
               (case vars obj of
                  None \<Rightarrow> fail ''cannot evaluate ident expression, no object'' c
                | Some attrs \<Rightarrow>
                    (case attrs field of
                       None \<Rightarrow> fail ''cannot evaluate ident expression, variable not supplied'' c
                     | Some v \<Rightarrow> assign v None c))))"
    (is "framed (?f vs cs)") for cs :: "(string \<Rightarrow> ('a, 'b) gval option) option" and vs
    by (intro framed_option framed_fail framed_assign)
  then have "framed (\<lambda>c. (\<lambda>vs cs fs rd. ?f vs cs) (evalVars c) (evalConstants c) (evalFunctions c) (roundDec c) c)"
    by (rule framed_env [where f = "\<lambda>vs cs fs rd. ?f vs cs"])
  then show ?thesis by (simp only: eval_name_def [abs_def])
qed

lemma framed_user: "framed (user_func name args)"
proof -
  have "framed (\<lambda>c. case (case fs of None \<Rightarrow> None | Some m \<Rightarrow> m name) of
        Some f \<Rightarrow> (case f args of Inl e \<Rightarrow> fail e c | Inr v \<Rightarrow> ((v, None), c))
      | None \<Rightarrow> fail (''cannot evaluate unsupported func '' @ name) c)" (is "framed (?f fs)")
    for fs :: "(string \<Rightarrow> (('a, 'b) gval list \<Rightarrow> goerr + ('a, 'b) gval) option) option"
    by (intro framed_option framed_sum framed_fail framed_Pair)
  then have "framed (\<lambda>c. (\<lambda>vs cs fs rd. ?f fs) (evalVars c) (evalConstants c) (evalFunctions c) (roundDec c) c)"
    by (rule framed_env [where f = "\<lambda>vs cs fs rd. ?f fs"])
  then show ?thesis by (simp only: user_func_def [abs_def])
qed

lemma framed_bind:
  assumes "framed f" "\<And>r. framed (g r)"
  shows "framed (\<lambda>c. case f c of (r, c1) \<Rightarrow> g r c1)"
proof -
  have "fst (g (fst (f c)) (snd (f c))) = fst (g (fst (f d)) (snd (f d)))" if "same_env c d" for c d
  proof -
    have "fst (f c) = fst (f d)" "same_env (snd (f c)) (snd (f d))"
      using assms(1) that unfolding framed_def by (blast, blast intro: only_value_same_env)
    then show ?thesis using assms(2) unfolding framed_def by metis
  qed
  moreover have "only_value c (snd (g (fst (f c)) (snd (f c))))" for c
    using assms unfolding framed_def by (blast intro: only_value_trans)
  ultimately show ?thesis unfolding framed_def case_prod_unfold by blast
qed

lemma framed_store: "framed f \<Longrightarrow> framed (\<lambda>c. case f c of ((v, e), c1) \<Rightarrow> assign v e c1)"
  by (intro framed_bind framed_prod framed_assign)

lemma framed_call:
  assumes "\<And>f. fn = Ident f \<Longrightarrow> StringToAggFunc f = AggUnknown"
  shows "framed (call_named N pos fn args)"
proof -
  have s: "framed (\<lambda>c. case EvalFunc N pos f args c of ((v, e), c1) \<Rightarrow> assign v e c1)"
    if "StringToAggFunc f = AggUnknown" for f
    unfolding EvalFunc_user [OF that] by (rule framed_store [OF framed_user])
  show ?thesis
  proof (cases fn)
    case (Ident f)
    then show ?thesis using s [OF assms [OF Ident]] by (simp add: call_named_def [abs_def])
  next
    case (SelectorExpr x f)
    then show ?thesis using s [OF dotted_not_agg]
      by (cases x) (simp_all add: call_named_def [abs_def] frame_simps)
  qed (simp_all add: call_named_def [abs_def] frame_simps)
qed

lemma framed_ext: "(\<And>c. f c = g c) \<Longrightarrow> framed g \<Longrightarrow> framed f" by (drule ext) simp

lemma Eval_fun:
  "Eval N (BasicLit k s) = eval_lit N k s" "Eval N (Ident n) = eval_name n '''' n"
  "Eval N (ParenExpr x) = Eval N x" "Eval N OtherExpr = fail ''cannot evaluate expression of unsupported type''"
  "eval_args N [] = Pair (Inr [])"
  by (rule ext, simp)+

lemma Eval_framed: "agg_calls e = {} \<Longrightarrow> framed (Eval N e)"
  and eval_args_framed: "agg_calls_list es = {} \<Longrightarrow> framed (eval_args N es)"
proof (induction e and es rule: agg_calls_agg_calls_list.induct)
  case (1 x op y)
  then have xy: "framed (Eval N x)" "framed (Eval N y)" by simp_all
  show ?case
    by (rule framed_ext, rule Eval.simps)
      (intro framed_bind framed_prod framed_option framed_Pair framed_binary_op xy)
next
  case (3 op x)
  then have x: "framed (Eval N x)" by simp
  show ?case
    by (rule framed_ext, rule Eval.simps)
      (intro framed_if framed_bind framed_prod framed_option framed_assign framed_fail x)
next
  case (5 pos fn args)
  have a: "framed (eval_args N args)" using 5 by simp
  have f: "StringToAggFunc f = AggUnknown" if "fn = Ident f" for f
    using 5 that by (simp split: if_splits)
  show ?case
    by (rule framed_ext, rule Eval.simps)
      (intro framed_bind framed_sum framed_Pair framed_call a f)
next
  case (6 x sel)
  show ?case
    by (rule framed_ext, rule Eval.simps, cases x)
      (simp_all add: framed_name frame_simps)
next
  case (10 x xs)
  then have xs: "framed (Eval N x)" "framed (eval_args N xs)" by simp_all
  show ?case
    by (rule framed_ext, rule eval_args.simps)
      (intro framed_bind framed_prod framed_option framed_sum framed_Pair xs)
qed (simp_all add: Eval_fun framed_lit framed_name frame_simps)

text \<open>C16: An expression without aggregate calls means the same in any two contexts with the same
  variables, constants, functions and rounding, whatever was evaluated before; and its evaluation
  leaves everything in the context but the last value as it was, the collectors included.\<close>

theorem plain_expression_frame:
  assumes "agg_calls e = {}" "same_env c d"
  shows "fst (Eval N e c) = fst (Eval N e d) \<and>
         (snd (Eval N e c))\<lparr>ctx_value := VNil\<rparr> = c\<lparr>ctx_value := VNil\<rparr>"
  using Eval_framed [OF assms(1), of N] assms(2) unfolding framed_def only_value_def by metis

text \<open>Number operations to evaluate examples with; integers stand for floats and decimals.\<close>

definition sample_ops :: "(int, int) numops" where
  "sample_ops = \<lparr>f_add = (+), f_sub = (-), f_mul = (*), f_div = (div), f_neg = uminus, f_lt = (<), f_le = (\<le>),
     f_eq = (=), f_of_int = id, f_to_int = id, f_parse = (\<lambda>s. 0), f_max = 2 ^ 100, f_max32 = 2 ^ 50,
     d_add = (+), d_sub = (-), d_mul = (*), d_div = (\<lambda>a b. if b = 0 then None else Some (a div b)),
     d_neg = uminus, d_cmp = (\<lambda>a b. a - b), d_round = (\<lambda>n d. d), d_of_int = id, d_of_float = id,
     d_of_float32 = id, d_to_float = id, d_is_int = (\<lambda>d. True), d_bigint = id,
     d_parse = (\<lambda>s. Inl ''cannot parse''), d_max32 = 2 ^ 50, d_min32 = - (2 ^ 50)\<rparr>"

definition sample_vars :: "int \<Rightarrow> (int, int) var_values" where
  "sample_vars x = (\<lambda>t. if t = '''' then Some (\<lambda>f. if f = ''x'' then Some (VInt64 x) else None) else None)"

definition sample_ctx :: "bool \<Rightarrow> int \<Rightarrow> (int, int) eval_ctx" where
  "sample_ctx agg x = (newPlainEvalCtxInternal sample_ops agg)\<lparr>evalVars := Some (sample_vars x)\<rparr>"

lemma plain_expression_frame_witness:
  "fst (Eval sample_ops (BinaryExpr (Ident ''x'') ADD (BasicLit TINT ''1'')) (sample_ctx False 4)) =
   fst (Eval sample_ops (BinaryExpr (Ident ''x'') ADD (BasicLit TINT ''1'')) (sample_ctx True 4)) \<and>
   fst (Eval sample_ops (BinaryExpr (Ident ''x'') ADD (BasicLit TINT ''1'')) (sample_ctx True 4)) =
     (VInt64 5, None)"
proof
  show "fst (Eval sample_ops (BinaryExpr (Ident ''x'') ADD (BasicLit TINT ''1'')) (sample_ctx False 4)) =
     fst (Eval sample_ops (BinaryExpr (Ident ''x'') ADD (BasicLit TINT ''1'')) (sample_ctx True 4))"
    by (rule plain_expression_frame [THEN conjunct1])
      (simp_all add: same_env_def sample_ctx_def newPlainEvalCtxInternal_def)
qed (simp add: sample_ctx_def newPlainEvalCtxInternal_def sample_vars_def eval_lit_def eval_name_def
       ParseInt_def is_digit_def digits_val_def digit_val_def assign_def binary_op_def
       evalBinaryArithmeticExp_def castNumberPairToCommonType_def castNumberToStandardType_def
       is_float64_def is_dec_def CastToInt64_def EvalBinaryInt_def wrap_def)

subsection \<open>One aggregate function per expression\<close>

text \<open>What the aggregate functions keep: the call that is collected and whether they are enabled.\<close>

definition agg_mono :: "(('f, 'd) eval_ctx \<Rightarrow> 'r \<times> ('f, 'd) eval_ctx) \<Rightarrow> bool" where
  "agg_mono f \<longleftrightarrow> (\<forall>c. aggEnabled (snd (f c)) = aggEnabled c \<and>
     (\<forall>p. aggCallExp c = Some p \<longrightarrow> aggCallExp (snd (f c)) = Some p))"

lemma framed_agg_mono: "framed f \<Longrightarrow> agg_mono f"
  unfolding framed_def agg_mono_def only_value_def
proof (intro allI conjI impI)
  fix c p
  assume "(\<forall>c d. same_env c d \<longrightarrow> fst (f c) = fst (f d)) \<and>
          (\<forall>c. c\<lparr>ctx_value := VNil\<rparr> = (snd (f c))\<lparr>ctx_value := VNil\<rparr>)"
  then have *: "c\<lparr>ctx_value := VNil\<rparr> = (snd (f c))\<lparr>ctx_value := VNil\<rparr>" by blast
  show "aggEnabled (snd (f c)) = aggEnabled c"
    using arg_cong [OF *, of aggEnabled] by simp
  show "aggCallExp (snd (f c)) = Some p" if "aggCallExp c = Some p"
    using arg_cong [OF *, of aggCallExp] that by simp
qed

lemma agg_start_keeps:
  "agg_start n t c = Inr c1 \<Longrightarrow> aggCallExp c1 = aggCallExp c \<and> aggEnabled c1 = aggEnabled c"
  by (auto simp: agg_start_def split: if_splits)

definition agg_keeps :: "(('f, 'd) eval_ctx \<Rightarrow> 'r \<times> ('f, 'd) eval_ctx) \<Rightarrow> bool" where
  "agg_keeps f \<longleftrightarrow> (\<forall>c. aggCallExp (snd (f c)) = aggCallExp c \<and> aggEnabled (snd (f c)) = aggEnabled c)"

lemma agg_keeps_start:
  assumes "\<And>c1. snd (g c1) = c1\<lparr>sumCollector := s c1\<rparr> \<or> snd (g c1) = c1\<lparr>avgCollector := a c1\<rparr> \<or>
             snd (g c1) = c1\<lparr>minCollector := mi c1\<rparr> \<or> snd (g c1) = c1\<lparr>maxCollector := ma c1\<rparr>"
  shows "agg_keeps (\<lambda>c. case agg_start n t c of Inl e \<Rightarrow> ((VNil, Some e), c) | Inr c1 \<Rightarrow> g c1)"
  unfolding agg_keeps_def
proof
  fix c
  show "aggCallExp (snd (case agg_start n t c of Inl e \<Rightarrow> ((VNil, Some e), c) | Inr c1 \<Rightarrow> g c1)) = aggCallExp c \<and>
        aggEnabled (snd (case agg_start n t c of Inl e \<Rightarrow> ((VNil, Some e), c) | Inr c1 \<Rightarrow> g c1)) = aggEnabled c"
  proof (cases "agg_start n t c")
    case (Inr c1)
    then show ?thesis using agg_start_keeps [OF Inr] assms [of c1] by auto
  qed simp
qed

lemma agg_keeps_Pair: "agg_keeps (\<lambda>c. (r, c))" by (simp add: agg_keeps_def)

lemma sum_keeps: "agg_keeps (callAggSumInternal N n args b)"
  unfolding callAggSumInternal_def [abs_def]
  by (cases "castNumberToStandardType (args ! 0)"; cases "projr (castNumberToStandardType (args ! 0))")
    (simp_all add: agg_keeps_Pair, (rule agg_keeps_start, force simp: Let_def)+)

lemma avg_keeps: "agg_keeps (callAggAvgInternal N n args b)"
  unfolding callAggAvgInternal_def [abs_def]
  by (cases "castNumberToStandardType (args ! 0)"; cases "projr (castNumberToStandardType (args ! 0))")
    (simp_all add: agg_keeps_Pair, (rule agg_keeps_start, force simp: Let_def)+)

lemma min_keeps: "agg_keeps (callAggMinInternal N n args b)"
  unfolding callAggMinInternal_def [abs_def]
  by (cases "args ! 0"; simp add: castNumberToStandardType_def agg_keeps_Pair;
      (rule agg_keeps_start, force simp: Let_def)?)

lemma max_keeps: "agg_keeps (callAggMaxInternal N n args b)"
  unfolding callAggMaxInternal_def [abs_def]
  by (cases "args ! 0"; simp add: castNumberToStandardType_def agg_keeps_Pair;
      (rule agg_keeps_start, force simp: Let_def)?)

lemma count_keeps: "agg_keeps (callAggCountInternal b)"
  by (simp add: agg_keeps_def callAggCountInternal_def Let_def)

lemma string_agg_keeps: "agg_keeps (callAggStringAggInternal n args b)"
  unfolding callAggStringAggInternal_def [abs_def]
  by (cases "args ! 0") (simp_all add: agg_keeps_def Let_def)

lemma call_agg_if_keeps:
  assumes "\<And>b. agg_keeps (inner b)"
  shows "agg_keeps (call_agg_if n cond inner)"
  using assms by (cases "checkIf n cond") (simp_all add: call_agg_if_def [abs_def] agg_keeps_Pair)

lemmas inner_keeps = sum_keeps avg_keeps min_keeps max_keeps count_keeps string_agg_keeps call_agg_if_keeps

text \<open>A call of an aggregate that succeeds is the one the context collects.\<close>

definition agg_claims :: "nat \<Rightarrow> (('f, 'd) eval_ctx \<Rightarrow> ('f, 'd) eval_out) \<Rightarrow> bool" where
  "agg_claims pos f \<longleftrightarrow> agg_mono f \<and>
     (\<forall>c v c'. f c = ((v, None), c') \<longrightarrow> aggCallExp c' = Some pos \<and> aggEnabled c)"

lemma call_agg_claims:
  assumes "agg_keeps inner"
  shows "agg_claims pos (call_agg n pos f k args inner)"
proof -
  have k: "aggCallExp (snd (inner c)) = aggCallExp c" "aggEnabled (snd (inner c)) = aggEnabled c" for c
    using assms by (auto simp: agg_keeps_def)
  show ?thesis unfolding agg_claims_def agg_mono_def
  proof (intro conjI allI impI)
    fix c p
    show "aggEnabled (snd (call_agg n pos f k args inner c)) = aggEnabled c"
      by (auto simp: call_agg_def checkAgg_def k split: option.splits)
    show "aggCallExp (snd (call_agg n pos f k args inner c)) = Some p" if "aggCallExp c = Some p"
      using that by (auto simp: call_agg_def checkAgg_def k split: option.splits)
  next
    fix c v c'
    assume a: "call_agg n pos f k args inner c = ((v, None), c')"
    then obtain c1 where "checkAgg n pos f c = (None, c1)" "inner c1 = ((v, None), c')"
      by (auto simp: call_agg_def split: prod.splits option.splits)
    moreover from this have "aggCallExp c1 = Some pos" "aggEnabled c"
      by (auto simp: checkAgg_def split: if_splits option.splits)
    ultimately show "aggCallExp c' = Some pos" "aggEnabled c" using k(1) [of c1] by simp_all
  qed
qed

lemma agg_claims_store: "agg_claims pos f \<Longrightarrow> agg_claims pos (\<lambda>c. case f c of ((v, e), c1) \<Rightarrow> assign v e c1)"
proof -
  assume f: "agg_claims pos f"
  have "aggCallExp c' = Some pos \<and> aggEnabled c"
    if "(case f c of ((v, e), c1) \<Rightarrow> assign v e c1) = ((v, None), c')" for c v c'
  proof -
    obtain v1 e1 c1 where fc: "f c = ((v1, e1), c1)" by (metis prod.exhaust)
    with that have "e1 = None" "aggCallExp c' = aggCallExp c1" by (auto simp: assign_def)
    with fc show ?thesis using f by (simp add: agg_claims_def)
  qed
  moreover have "agg_mono (\<lambda>c. case f c of ((v, e), c1) \<Rightarrow> assign v e c1)"
    using f by (simp add: agg_claims_def agg_mono_def assign_def split_def)
  ultimately show ?thesis by (simp add: agg_claims_def)
qed

lemmas CallAgg_defs =
  CallAggStringAgg_def CallAggStringAggIf_def CallAggSum_def CallAggSumIf_def CallAggCount_def
  CallAggCountIf_def CallAggAvg_def CallAggAvgIf_def CallAggMin_def CallAggMinIf_def
  CallAggMax_def CallAggMaxIf_def

lemma CallAgg_claims:
  "agg_claims pos (CallAggStringAgg pos args)" "agg_claims pos (CallAggStringAggIf pos args)"
  "agg_claims pos (CallAggSum N pos args)" "agg_claims pos (CallAggSumIf N pos args)"
  "agg_claims pos (CallAggCount pos args)" "agg_claims pos (CallAggCountIf pos args)"
  "agg_claims pos (CallAggAvg N pos args)" "agg_claims pos (CallAggAvgIf N pos args)"
  "agg_claims pos (CallAggMin N pos args)" "agg_claims pos (CallAggMinIf N pos args)"
  "agg_claims pos (CallAggMax N pos args)" "agg_claims pos (CallAggMaxIf N pos args)"
  unfolding CallAgg_defs by (intro call_agg_claims inner_keeps)+

lemma EvalFunc_agg_claims:
  assumes "StringToAggFunc f \<noteq> AggUnknown"
  shows "agg_claims pos (EvalFunc N pos f args)"
proof -
  have "f = ''string_agg'' \<or> f = ''string_agg_if'' \<or> f = ''sum'' \<or> f = ''sum_if'' \<or> f = ''count'' \<or>
        f = ''count_if'' \<or> f = ''avg'' \<or> f = ''avg_if'' \<or> f = ''min_if'' \<or> f = ''min'' \<or>
        f = ''max'' \<or> f = ''max_if''"
    using assms by (simp add: StringToAggFunc_def split: if_splits)
  then show ?thesis
    by (elim disjE) (simp_all only: EvalFunc_def [abs_def] Let_def list.inject char.inject simp_thms if_False if_True
      list.distinct agg_claims_store CallAgg_claims)
qed

text \<open>A step that, where it succeeds, has used the aggregate calls \<open>P\<close>.\<close>

definition agg_uses :: "('r \<Rightarrow> bool) \<Rightarrow> nat set \<Rightarrow> (('f, 'd) eval_ctx \<Rightarrow> 'r \<times> ('f, 'd) eval_ctx) \<Rightarrow> bool" where
  "agg_uses ok P f \<longleftrightarrow> agg_mono f \<and>
     (\<forall>c. ok (fst (f c)) \<longrightarrow> (\<forall>p\<in>P. aggCallExp (snd (f c)) = Some p \<and> aggEnabled c))"

definition out_ok :: "('f, 'd) gval \<times> goerr option \<Rightarrow> bool" where "out_ok r \<longleftrightarrow> snd r = None"
definition args_ok :: "goerr + ('f, 'd) gval list \<Rightarrow> bool" where "args_ok r \<longleftrightarrow> \<not> isl r"

lemma agg_uses_framed: "framed f \<Longrightarrow> agg_uses ok {} f"
  by (simp add: agg_uses_def framed_agg_mono)

lemma agg_uses_failed: "\<not> ok r \<Longrightarrow> agg_uses ok P (Pair r)"
  by (simp add: agg_uses_def framed_agg_mono frame_simps)

lemma agg_uses_fail: "agg_uses out_ok P (fail e)"
  by (simp add: agg_uses_def framed_agg_mono frame_simps fail_def out_ok_def)

lemma agg_uses_claims: "agg_claims pos f \<Longrightarrow> agg_uses out_ok {pos} f"
  unfolding agg_uses_def agg_claims_def out_ok_def by (metis prod.collapse singletonD)

lemma agg_mono_bind:
  assumes "agg_mono f" "\<And>r. agg_mono (g r)"
  shows "agg_mono (\<lambda>c. case f c of (r, c1) \<Rightarrow> g r c1)"
  using assms unfolding agg_mono_def case_prod_unfold by blast

lemma agg_uses_bind:
  assumes "agg_uses ok P f" "\<And>r. agg_uses ok' Q (g r)" "\<And>r c. ok' (fst (g r c)) \<Longrightarrow> ok r"
  shows "agg_uses ok' (P \<union> Q) (\<lambda>c. case f c of (r, c1) \<Rightarrow> g r c1)"
proof -
  have m: "agg_mono f" "\<And>r. agg_mono (g r)" using assms(1,2) by (auto simp: agg_uses_def)
  have "aggCallExp (snd (g (fst (f c)) (snd (f c)))) = Some p \<and> aggEnabled c"
    if o: "ok' (fst (g (fst (f c)) (snd (f c))))" and p: "p \<in> P \<union> Q" for c p
  proof (cases "p \<in> P")
    case True
    then have "aggCallExp (snd (f c)) = Some p" "aggEnabled c"
      using assms(1) assms(3) [OF o] by (auto simp: agg_uses_def)
    then show ?thesis using m(2) unfolding agg_mono_def by blast
  next
    case False
    then have "aggCallExp (snd (g (fst (f c)) (snd (f c)))) = Some p" "aggEnabled (snd (f c))"
      using assms(2) [of "fst (f c)"] o p by (auto simp: agg_uses_def)
    then show ?thesis using m(1) unfolding agg_mono_def by blast
  qed
  then show ?thesis using agg_mono_bind [of f g, OF m] unfolding agg_uses_def case_prod_unfold
    by (intro conjI allI impI ballI) (assumption | blast)+
qed

lemma agg_uses_not_ok: "framed f \<Longrightarrow> (\<And>c. \<not> ok (fst (f c))) \<Longrightarrow> agg_uses ok P f"
  by (simp add: agg_uses_def framed_agg_mono)

text \<open>The error check after a call of Eval.\<close>

lemma agg_uses_try:
  assumes f: "agg_uses out_ok P f" and g: "\<And>v. agg_uses ok' Q (g v)"
    and k: "\<And>v e. framed (k v e)" "\<And>v e c. \<not> ok' (fst (k v e c))"
  shows "agg_uses ok' (P \<union> Q) (\<lambda>c. case f c of ((v, Some e), c1) \<Rightarrow> k v e c1 | ((v, None), c1) \<Rightarrow> g v c1)"
proof (rule agg_uses_bind [OF f])
  fix r :: "('a, 'b) gval \<times> goerr option"
  obtain v eo where r: "r = (v, eo)" by (cases r)
  show "agg_uses ok' Q (\<lambda>c1. case r of (v, None) \<Rightarrow> g v c1 | (v, Some e) \<Rightarrow> k v e c1)"
    using g r by (cases eo) (simp_all add: agg_uses_not_ok k)
  show "out_ok r" if "ok' (fst (case r of (v, None) \<Rightarrow> g v c | (v, Some e) \<Rightarrow> k v e c))" for c
    using that k(2) r by (cases eo) (simp_all add: out_ok_def)
qed

lemma agg_uses_try_framed:
  assumes "agg_uses out_ok P f" "\<And>v. framed (g v)" "\<And>v e. framed (k v e)"
    "\<And>v e c. \<not> ok' (fst (k v e c))"
  shows "agg_uses ok' P (\<lambda>c. case f c of ((v, Some e), c1) \<Rightarrow> k v e c1 | ((v, None), c1) \<Rightarrow> g v c1)"
  using agg_uses_try [of P f ok' "{}" g k, OF assms(1) agg_uses_framed [OF assms(2)] assms(3,4)] by simp

lemma agg_uses_args:
  assumes f: "agg_uses args_ok P f" and g: "\<And>vs. agg_uses ok' Q (g vs)"
    and k: "\<And>e. framed (k e)" "\<And>e c. \<not> ok' (fst (k e c))"
  shows "agg_uses ok' (P \<union> Q) (\<lambda>c. case f c of (Inl e, c1) \<Rightarrow> k e c1 | (Inr vs, c1) \<Rightarrow> g vs c1)"
proof (rule agg_uses_bind [OF f])
  fix r :: "goerr + ('a, 'b) gval list"
  show "agg_uses ok' Q (\<lambda>c1. case r of Inl e \<Rightarrow> k e c1 | Inr vs \<Rightarrow> g vs c1)"
    using g by (cases r) (simp_all add: agg_uses_not_ok k)
  show "args_ok r" if "ok' (fst (case r of Inl e \<Rightarrow> k e c | Inr vs \<Rightarrow> g vs c))" for c
    using that k(2) by (cases r) (simp_all add: args_ok_def)
qed

lemma not_ok [simp]:
  "\<not> out_ok (fst (fail e c))" "out_ok (fst (assign v eo c)) = (eo = None)" "out_ok (v, eo) = (eo = None)"
  "\<not> args_ok (Inl e)" "args_ok (Inr vs)"
  by (simp_all add: out_ok_def args_ok_def fail_def assign_def)

lemma agg_uses_ext: "(\<And>c. f c = g c) \<Longrightarrow> agg_uses ok P g \<Longrightarrow> agg_uses ok P f"
  by (drule ext) simp

lemma agg_uses_call_named:
  "agg_uses out_ok (case fn of Ident f \<Rightarrow> (if StringToAggFunc f \<noteq> AggUnknown then {pos} else {}) | _ \<Rightarrow> {})
     (call_named N pos fn args)"
proof (cases "\<exists>f. fn = Ident f \<and> StringToAggFunc f \<noteq> AggUnknown")
  case True
  then obtain f where f: "fn = Ident f" "StringToAggFunc f \<noteq> AggUnknown" by blast
  have "agg_uses out_ok {pos} (\<lambda>c. case EvalFunc N pos f args c of ((v, e), c1) \<Rightarrow> assign v e c1)"
    by (intro agg_uses_claims agg_claims_store EvalFunc_agg_claims f)
  then show ?thesis using f by (simp add: call_named_def [abs_def])
next
  case False
  then have "framed (call_named N pos fn args)" by (intro framed_call) blast
  moreover have "(case fn of Ident f \<Rightarrow> (if StringToAggFunc f \<noteq> AggUnknown then {pos} else {}) | _ \<Rightarrow> {}) = {}"
    using False by (cases fn) auto
  ultimately show ?thesis by (simp add: agg_uses_framed)
qed

lemma Eval_agg_uses: "agg_uses out_ok (agg_calls e) (Eval N e)"
  and eval_args_agg_uses: "agg_uses args_ok (agg_calls_list es) (eval_args N es)"
proof (induction e and es rule: agg_calls_agg_calls_list.induct)
  case (1 x op y)
  show ?case unfolding agg_calls.simps
    by (rule agg_uses_ext, rule Eval.simps, intro agg_uses_try [OF 1(1)] agg_uses_try_framed [OF 1(2)])
      (simp_all add: framed_binary_op frame_simps)
next
  case (3 op x)
  have a: "framed (\<lambda>c. case unary_not v of (b, e) \<Rightarrow> assign (VBool b) e c)"
    "framed (\<lambda>c. case unary_minus N v of (b, e) \<Rightarrow> assign b e c)" for v :: "('a, 'b) gval"
    by (intro framed_prod framed_assign)+
  have u: "agg_uses out_ok (agg_calls x) (\<lambda>c. case Eval N x c of
           ((_, Some e), c1) \<Rightarrow> assign (VBool False) (Some e) c1
         | ((v, None), c1) \<Rightarrow> (case unary_not v of (b, e) \<Rightarrow> assign (VBool b) e c1))"
    "agg_uses out_ok (agg_calls x) (\<lambda>c. case Eval N x c of
           ((_, Some e), c1) \<Rightarrow> assign (VBool False) (Some e) c1
         | ((v, None), c1) \<Rightarrow> (case unary_minus N v of (b, e) \<Rightarrow> assign b e c1))"
    by (intro agg_uses_try_framed [OF 3] a; simp add: frame_simps)+
  show ?case unfolding agg_calls.simps
    by (rule agg_uses_ext, rule Eval.simps, cases "op = NOT"; cases "op = SUB") (simp_all add: u agg_uses_fail)
next
  case (5 pos fn args)
  show ?case unfolding agg_calls.simps Un_commute [of _ "agg_calls_list args"]
    by (rule agg_uses_ext, rule Eval.simps, intro agg_uses_args [OF 5] agg_uses_call_named)
      (simp_all add: frame_simps)
next
  case (6 x sel)
  have "framed (Eval N (SelectorExpr x sel))" by (rule Eval_framed) simp
  then show ?case unfolding agg_calls.simps by (rule agg_uses_framed)
next
  case (10 x xs)
  have "agg_uses args_ok (agg_calls_list xs) (\<lambda>c. case eval_args N xs c of
             (Inl e, c2) \<Rightarrow> (Inl e, c2) | (Inr vs, c2) \<Rightarrow> (Inr (v # vs), c2))" for v
    using agg_uses_args [OF 10(2), of args_ok "{}" "\<lambda>vs. Pair (Inr (v # vs))" "\<lambda>e. Pair (Inl e)"]
    by (simp add: agg_uses_framed frame_simps)
  then show ?case unfolding agg_calls_list.simps
    by (intro agg_uses_ext [OF eval_args.simps(2)] agg_uses_try [OF 10(1)]) (simp_all add: frame_simps)
qed (simp_all add: Eval_fun agg_uses_framed framed_lit framed_name agg_uses_fail frame_simps)

text \<open>C17: An expression that evaluates has used every aggregate call in it, whether or not the
  value needed it, and they were all the one call that the context collects; so an expression with
  two aggregate calls, one inside another included, is an error, and so is one with any aggregate
  call in a context that has aggregates off.\<close>

theorem one_aggregate_per_expression:
  assumes "Eval N e c = ((v, None), c')" "p \<in> agg_calls e"
  shows "agg_calls e = {p} \<and> aggCallExp c' = Some p \<and> aggEnabled c \<and>
         (\<forall>q. aggCallExp c = Some q \<longrightarrow> q = p)"
proof -
  note u = Eval_agg_uses [of e N, unfolded agg_uses_def agg_mono_def]
  have all: "aggCallExp c' = Some q \<and> aggEnabled c" if "q \<in> agg_calls e" for q
    using u that assms(1) by (auto dest!: spec [of _ c])
  moreover have "aggCallExp c' = Some q" if "aggCallExp c = Some q" for q
    using u that assms(1) by (auto dest!: spec [of _ c])
  ultimately show ?thesis using assms(2) by (metis insertI1 option.inject singletonD subsetI subset_antisym empty_iff insert_iff)
qed

subsection \<open>The value a context keeps\<close>

fun string_lit :: "expr \<Rightarrow> string option" where
  "string_lit (BasicLit TSTRING s) = Some s"
| "string_lit (ParenExpr x) = string_lit x"
| "string_lit _ = None"

definition unquote :: "string \<Rightarrow> string" where
  "unquote s = (if s \<noteq> [] \<and> hd s = CHR 0x22 then Trim s dquote else Trim s ''`'')"

definition stores :: "(('f, 'd) eval_ctx \<Rightarrow> ('f, 'd) eval_out) \<Rightarrow> bool" where
  "stores f \<longleftrightarrow> (\<forall>c v c'. f c = ((v, None), c') \<longrightarrow> ctx_value c' = v)"

lemma stores_assign: "stores (assign v e)" "stores (\<lambda>c. assign v e c)"
  by (simp_all add: stores_def assign_def)

lemma stores_fail: "stores (fail e)" "stores (\<lambda>c. fail e c)" "stores (\<lambda>c. ((v, Some e), c))"
  by (simp_all add: stores_def fail_def)

lemma stores_bind: "(\<And>r. stores (g r)) \<Longrightarrow> stores (\<lambda>c. case f c of (r, c1) \<Rightarrow> g r c1)"
  by (auto simp: stores_def split: prod.splits)

lemma stores_prod: "(\<And>a b. stores (h a b)) \<Longrightarrow> stores (\<lambda>c. case p of (a, b) \<Rightarrow> h a b c)"
  by (cases p) simp

lemma stores_option:
  "stores f \<Longrightarrow> (\<And>a. stores (h a)) \<Longrightarrow> stores (\<lambda>c. case x of None \<Rightarrow> f c | Some a \<Rightarrow> h a c)"
  by (cases x) simp_all

lemma stores_sum:
  "(\<And>a. stores (f a)) \<Longrightarrow> (\<And>a. stores (h a)) \<Longrightarrow> stores (\<lambda>c. case x of Inl a \<Rightarrow> f a c | Inr a \<Rightarrow> h a c)"
  by (cases x) simp_all

lemma stores_if: "stores f \<Longrightarrow> stores g \<Longrightarrow> stores (\<lambda>c. if b then f c else g c)"
  by (cases b) simp_all

lemma stores_ext: "(\<And>c. f c = g c) \<Longrightarrow> stores g \<Longrightarrow> stores f" by (drule ext) simp

lemmas stores_intros = stores_bind stores_prod stores_option stores_sum stores_if stores_assign stores_fail

text \<open>An operator stores what it returns: its result is that of assign, or a failure.\<close>

definition stored_out :: "('f, 'd) eval_out \<Rightarrow> bool" where
  "stored_out out \<longleftrightarrow> snd (fst out) = None \<longrightarrow> ctx_value (snd out) = fst (fst out)"

lemma stores_stored: "stores f \<longleftrightarrow> (\<forall>c. stored_out (f c))"
  unfolding stores_def stored_out_def by (metis fst_conv prod.collapse snd_conv)

lemma stored_out_simps [simp]: "stored_out (assign v eo c)" "stored_out (fail e c)"
  by (simp_all add: stored_out_def assign_def fail_def)

lemma stores_binary_op: "stores (binary_op N l op r)"
proof -
  have p: "stored_out (case p of (v, e) \<Rightarrow> assign (h v) e c)" for p :: "'x res" and h c by (cases p) simp
  have "stored_out (evalBinaryArithmeticExp N l op r c)" for c
  proof (cases "castNumberPairToCommonType N l r")
    case (Inl e)
    then show ?thesis by (cases l) (simp_all add: evalBinaryArithmeticExp_def p)
  next
    case (Inr q)
    then show ?thesis by (cases q; cases "fst q"; cases l) (simp_all add: evalBinaryArithmeticExp_def p)
  qed
  moreover have "stored_out (evalBinaryBoolToBoolExp l op r c)" for c
    by (cases l) (simp_all add: evalBinaryBoolToBoolExp_def p)
  moreover have "stored_out (evalBinaryCompareExp N l op r c)" for c
  proof (cases "castNumberPairToCommonType N l r")
    case (Inl e)
    then show ?thesis by (cases l; cases "r = VNil") (simp_all add: evalBinaryCompareExp_def p)
  next
    case (Inr q)
    then show ?thesis
      by (cases q; cases "fst q"; cases l; cases "r = VNil") (simp_all add: evalBinaryCompareExp_def p)
  qed
  ultimately show ?thesis unfolding stores_stored binary_op_def by simp
qed

lemma stores_call_named: "stores (call_named N pos fn args)"
proof (cases fn)
  case (SelectorExpr x f)
  then show ?thesis unfolding call_named_def [abs_def] by (cases x) (auto intro: stores_intros)
qed (auto simp: call_named_def [abs_def] intro: stores_intros)

lemma stores_name: "stores (eval_name a b d)"
  unfolding stores_stored eval_name_def by (auto split: option.split)

lemma Eval_stores: "string_lit e = None \<Longrightarrow> stores (Eval N e)"
proof (induction e)
  case (BinaryExpr x op y)
  show ?case by (rule stores_ext, rule Eval.simps) (intro stores_intros stores_binary_op)
next
  case (BasicLit k s)
  then show ?case
    by (cases k) (auto simp: Eval_fun stores_stored eval_lit_def split: option.split sum.split prod.split)
next
  case (UnaryExpr op x)
  show ?case by (rule stores_ext, rule Eval.simps) (intro stores_intros)
next
  case (CallExpr pos fn args)
  show ?case by (rule stores_ext, rule Eval.simps) (intro stores_intros stores_call_named)
next
  case (SelectorExpr x sel)
  show ?case by (rule stores_ext, rule Eval.simps, cases x) (simp_all add: stores_name stores_fail)
qed (simp_all add: Eval_fun stores_name stores_fail)

text \<open>C18: An evaluation that succeeds leaves in the context the value that it returns, which is what
  a grouped field writes, unless the expression is a string literal: then the value returned is the
  text and the value kept is the literal with its quotes.\<close>

theorem kept_value_is_returned:
  assumes "Eval N e c = ((v, None), c')"
  shows "case string_lit e of None \<Rightarrow> ctx_value c' = v
         | Some s \<Rightarrow> v = VStr (unquote s) \<and> ctx_value c' = VStr s"
proof (cases "string_lit e")
  case None
  then show ?thesis using Eval_stores [OF None, of N] assms by (simp add: stores_def)
next
  case (Some s)
  then show ?thesis using assms
    by (induction e rule: string_lit.induct) (auto simp: eval_lit_def unquote_def)
qed

subsection \<open>Comparison of strings\<close>

lemma replace_from_no_escape:
  "CHR 0x5C \<notin> set p \<Longrightarrow>
     replace_from 0 (p @ t) (backslash @ dquote) n = p @ replace_from 0 t (backslash @ dquote) n"
  by (induction p) (auto simp: HasPrefix_def backslash_def)

lemma Trim_no_change: "CHR 0x22 \<notin> set s \<Longrightarrow> Trim s dquote = s"
proof -
  assume s: "CHR 0x22 \<notin> set s"
  have "dropWhile (\<lambda>c. c \<in> set dquote) t = t" if "CHR 0x22 \<notin> set t" for t
    using that by (cases t) (auto simp: dquote_def)
  then show ?thesis using s by (simp add: Trim_def)
qed

lemma Trim_inner:
  assumes "CHR 0x22 \<notin> set p" "CHR 0x22 \<notin> set q" "p \<noteq> []" "q \<noteq> []"
  shows "Trim (p @ t @ q) dquote = p @ t @ q"
proof -
  have d: "dropWhile (\<lambda>c. c \<in> set dquote) (u @ w) = u @ w" if "CHR 0x22 \<notin> set u" "u \<noteq> []" for u w
    using that by (cases u) (auto simp: dquote_def)
  show ?thesis using d [of p "t @ q"] d [of "rev q" "rev t @ rev p"] assms by (simp add: Trim_def)
qed

lemma compared_plain:
  assumes "CHR 0x22 \<notin> set s" "CHR 0x5C \<notin> set s"
  shows "left_string s = s" "right_string s = s"
  using replace_from_no_escape [OF assms(2), of "[]"] Trim_no_change [OF assms(1)]
  by (simp_all add: left_string_def right_string_def ReplaceAll_def)

lemma compared_escape:
  assumes "CHR 0x22 \<notin> set p" "CHR 0x22 \<notin> set q" "p \<noteq> []" "q \<noteq> []" "CHR 0x5C \<notin> set p" "CHR 0x5C \<notin> set q"
  shows "left_string (p @ (backslash @ dquote) @ q) = p @ backslash @ q"
    "right_string (p @ (backslash @ dquote) @ q) = p @ dquote @ q"
  using assms Trim_inner [of p q "backslash @ dquote"]
    replace_from_no_escape [OF assms(5), of "(backslash @ dquote) @ q"]
    replace_from_no_escape [OF assms(6), of "[]"]
  by (simp_all add: left_string_def right_string_def ReplaceAll_def backslash_def dquote_def HasPrefix_def)


lemma one_aggregate_per_expression_witness:
  "agg_calls (CallExpr 7 (Ident ''count'') []) = {7} \<and> aggEnabled (sample_ctx True 0)"
proof -
  have e: "Eval sample_ops (CallExpr 7 (Ident ''count'') []) (sample_ctx True 0) =
      ((VInt64 1, None), (sample_ctx True 0)\<lparr>aggCallExp := Some 7, aggFunc := AggCount, agg_count := 1,
         ctx_value := VInt64 1\<rparr>)"
    by (simp add: sample_ctx_def newPlainEvalCtxInternal_def call_named_def EvalFunc_def CallAggCount_def
        call_agg_def checkAgg_def CheckArgs_def callAggCountInternal_def assign_def wrap_def)
  show ?thesis
    using one_aggregate_per_expression [OF e, of 7] by (simp add: StringToAggFunc_def)
qed

lemma kept_value_is_returned_witness:
  "ctx_value (snd (Eval sample_ops (BasicLit TSTRING (dquote @ ''abc'' @ dquote)) (sample_ctx False 0))) =
     VStr (dquote @ ''abc'' @ dquote) \<and> unquote (dquote @ ''abc'' @ dquote) = ''abc''"
proof -
  have "Eval sample_ops (BasicLit TSTRING (dquote @ ''abc'' @ dquote)) (sample_ctx False 0) =
      ((VStr ''abc'', None), (sample_ctx False 0)\<lparr>ctx_value := VStr (dquote @ ''abc'' @ dquote)\<rparr>)"
    by (simp add: eval_lit_def dquote_def Trim_def)
  from kept_value_is_returned [OF this] show ?thesis by (simp add: dquote_def eval_lit_def unquote_def Trim_def)
qed


end
