(* ===== verification/Eval_Group.thy ===== *)
theory Eval_Group
  imports Eval_Facts
begin

text \<open>
  What a grouped lookup makes of a field (evalRowGroupedFields and produceGroupedTableRecord in
  pkg/proc/proc_table_creator_lookup.go): the expression is evaluated once for every row on the
  right, in one context per row on the left, and the value the context keeps at the end is written.
\<close>

subsection \<open>The rows of a group\<close>

text \<open>One field of evalRowGroupedFields; \<open>vars\<close> are the exported rows of both sides.\<close>

definition eval_row ::
  "('f, 'd) numops \<Rightarrow> expr \<Rightarrow> ('f, 'd) eval_ctx \<Rightarrow> ('f, 'd) var_values \<Rightarrow> goerr + ('f, 'd) eval_ctx" where
  "eval_row N e c vars =
     (case Eval N e (SetVars vars c) of
        ((_, Some err), _) \<Rightarrow> Inl (''cannot evaluate target expression: '' @ err)
      | ((_, None), c1) \<Rightarrow> Inr c1)"

definition eval_group ::
  "('f, 'd) numops \<Rightarrow> expr \<Rightarrow> ('f, 'd) eval_ctx \<Rightarrow> ('f, 'd) var_values list \<Rightarrow> goerr + ('f, 'd) eval_ctx" where
  "eval_group N e c rows = foldr_err (eval_row N e) c rows"

text \<open>The context of a field: the loop body of setupEvalCtxForGroup.\<close>

definition group_ctx ::
  "('f, 'd) numops \<Rightarrow> expr \<Rightarrow> (string \<Rightarrow> (('f, 'd) gval list \<Rightarrow> goerr + ('f, 'd) gval) option) \<Rightarrow>
     (string \<Rightarrow> ('f, 'd) gval option) \<Rightarrow> goerr + ('f, 'd) eval_ctx" where
  "group_ctx N e fns consts =
     (case DetectRootAggFunc e of
        (True, f, args) \<Rightarrow>
          (case NewAggEvalCtx N f args fns consts (\<lambda>_. None) of
             Inl err \<Rightarrow> Inl (''cannot initialize ctx for group calc: '' @ err)
           | Inr c \<Rightarrow> Inr (SetRoundDec 2 c))
      | _ \<Rightarrow> Inr (NewPlainEvalCtx N fns consts (\<lambda>_. None)))"

subsection \<open>Integer aggregates\<close>

text \<open>What sum, avg, min and max of integers are meant to be.\<close>

definition int_agg :: "string \<Rightarrow> int list \<Rightarrow> int" where
  "int_agg f xs =
     (if f = ''sum'' then wrap64 (sum_list xs)
      else if f = ''avg'' then sum_list xs div int (length xs)
      else if f = ''min'' then Min (set xs)
      else Max (set xs))"

lemma only_value_fields:
  assumes "only_value c d"
  shows "aggEnabled d = aggEnabled c" "aggCallExp d = aggCallExp c" "aggType d = aggType c"
    "sumCollector d = sumCollector c" "avgCollector d = avgCollector c"
    "minCollector d = minCollector c" "maxCollector d = maxCollector c"
    "evalConstants d = evalConstants c" "evalFunctions d = evalFunctions c" "roundDec d = roundDec c"
proof -
  note * = assms [unfolded only_value_def]
  show "aggEnabled d = aggEnabled c" "aggCallExp d = aggCallExp c" "aggType d = aggType c"
    "sumCollector d = sumCollector c" "avgCollector d = avgCollector c"
    "minCollector d = minCollector c" "maxCollector d = maxCollector c"
    "evalConstants d = evalConstants c" "evalFunctions d = evalFunctions c" "roundDec d = roundDec c"
    using arg_cong [OF *, of aggEnabled] arg_cong [OF *, of aggCallExp] arg_cong [OF *, of aggType]
      arg_cong [OF *, of sumCollector] arg_cong [OF *, of avgCollector]
      arg_cong [OF *, of minCollector] arg_cong [OF *, of maxCollector]
      arg_cong [OF *, of evalConstants] arg_cong [OF *, of evalFunctions] arg_cong [OF *, of roundDec]
    by simp_all
qed

text \<open>The collectors after the values \<open>xs\<close>.\<close>

definition collected :: "string \<Rightarrow> int list \<Rightarrow> ('f, 'd) eval_ctx \<Rightarrow> bool" where
  "collected f xs c \<longleftrightarrow>
     (if f = ''sum'' then sum_Int (sumCollector c) = wrap64 (sum_list xs)
      else if f = ''avg'' then avg_Int (avgCollector c) = sum_list xs \<and>
                               avg_Count (avgCollector c) = int (length xs)
      else if f = ''min'' then ext_Int (minCollector c) = Min (insert (2 ^ 63 - 1) (set xs))
      else ext_Int (maxCollector c) = Max (insert (- (2 ^ 63)) (set xs)))"

definition collecting :: "nat \<Rightarrow> string \<Rightarrow> ('f, 'd) eval_ctx \<Rightarrow> int list \<Rightarrow> ('f, 'd) eval_ctx \<Rightarrow> bool" where
  "collecting pos f c0 xs c \<longleftrightarrow>
     aggEnabled c \<and> (aggCallExp c = None \<or> aggCallExp c = Some pos) \<and>
     (aggType c = AggTypeUnknown \<or> aggType c = AggTypeInt) \<and>
     evalConstants c = evalConstants c0 \<and> evalFunctions c = evalFunctions c0 \<and> roundDec c = roundDec c0 \<and>
     collected f xs c \<and> (xs \<noteq> [] \<longrightarrow> ctx_value c = VInt64 (int_agg f xs))"

lemma collecting_value:
  assumes "collecting pos f c0 xs c" "only_value (SetVars r c) d"
  shows "aggEnabled d" "aggCallExp d = None \<or> aggCallExp d = Some pos"
    "aggType d = AggTypeUnknown \<or> aggType d = AggTypeInt" "collected f xs d"
    "evalConstants d = evalConstants c0" "evalFunctions d = evalFunctions c0" "roundDec d = roundDec c0"
  using assms(1) only_value_fields [OF assms(2)] by (simp_all add: collecting_def collected_def SetVars_def)

lemma avg_bounds:
  assumes "\<forall>x\<in>set xs. in_range 64 x" "xs \<noteq> []"
  shows "in_range 64 (sum_list xs div int (length xs))"
proof -
  have "- (2 ^ 63) * int (length xs) \<le> sum_list xs \<and> sum_list xs \<le> (2 ^ 63 - 1) * int (length xs)"
    using assms(1) by (induction xs) (auto simp: in_range_def algebra_simps)
  moreover have n: "0 < int (length xs)" using assms(2) by simp
  ultimately have "(- (2 ^ 63) * int (length xs)) div int (length xs) \<le> sum_list xs div int (length xs)"
    "sum_list xs div int (length xs) \<le> ((2 ^ 63 - 1) * int (length xs)) div int (length xs)"
    by (intro zdiv_mono1; simp)+
  then have "- (2 ^ 63) \<le> sum_list xs div int (length xs)" "sum_list xs div int (length xs) \<le> 2 ^ 63 - 1"
    using n by (simp_all only: nonzero_mult_div_cancel_right [OF less_imp_neq [OF n, symmetric]])
  then show ?thesis by (simp add: in_range_def)
qed

text \<open>A context in which the aggregate call \<open>pos\<close> may go on with integers.\<close>

definition agg_ready :: "nat \<Rightarrow> ('f, 'd) eval_ctx \<Rightarrow> bool" where
  "agg_ready pos c \<longleftrightarrow> aggEnabled c \<and> (aggCallExp c = None \<or> aggCallExp c = Some pos) \<and>
     (aggType c = AggTypeUnknown \<or> aggType c = AggTypeInt)"

definition same_collectors :: "('f, 'd) eval_ctx \<Rightarrow> ('f, 'd) eval_ctx \<Rightarrow> bool" where
  "same_collectors c d \<longleftrightarrow> sumCollector d = sumCollector c \<and> avgCollector d = avgCollector c \<and>
     minCollector d = minCollector c \<and> maxCollector d = maxCollector c \<and>
     evalConstants d = evalConstants c \<and> evalFunctions d = evalFunctions c \<and> roundDec d = roundDec c"

lemma checkAgg_ready:
  assumes "agg_ready pos c"
  obtains d where "checkAgg n pos k c = (None, d)" "agg_ready pos d" "same_collectors c d"
  using assms by (auto simp: agg_ready_def checkAgg_def same_collectors_def)

lemma agg_start_ready:
  assumes "agg_ready pos c"
  obtains d where "agg_start n AggTypeInt c = Inr d" "agg_ready pos d" "same_collectors c d"
  using assms by (auto simp: agg_ready_def agg_start_def same_collectors_def)

lemma collected_same: "same_collectors c d \<Longrightarrow> collected f xs d = collected f xs c"
  by (simp add: collected_def same_collectors_def)

lemma same_collectors_trans: "same_collectors c d \<Longrightarrow> same_collectors d e \<Longrightarrow> same_collectors c e"
  by (simp add: same_collectors_def)

text \<open>What one call of an aggregate on an integer does, in the terms of the collected values.\<close>

definition int_step :: "nat \<Rightarrow> string \<Rightarrow> int list \<Rightarrow> int \<Rightarrow> ('f, 'd) eval_ctx \<Rightarrow> ('f, 'd) eval_out \<Rightarrow> bool" where
  "int_step pos f xs x c out \<longleftrightarrow>
     fst out = (VInt64 (int_agg f (xs @ [x])), None) \<and> agg_ready pos (snd out) \<and>
     collected f (xs @ [x]) (snd out) \<and> evalConstants (snd out) = evalConstants c \<and>
     evalFunctions (snd out) = evalFunctions c \<and> roundDec (snd out) = roundDec c"

lemma call_agg_int_step:
  assumes r: "agg_ready pos c" and xs: "collected f xs c" and l: "length args = n"
    and inner: "\<And>d. agg_ready pos d \<Longrightarrow> collected f xs d \<Longrightarrow> int_step pos f xs x d (inner d)"
  shows "int_step pos f xs x c (call_agg name pos k n args inner c)"
proof -
  obtain d where d: "checkAgg name pos k c = (None, d)" "agg_ready pos d" "same_collectors c d"
    using checkAgg_ready [OF r] .
  have "int_step pos f xs x d (inner d)" using inner d(2,3) xs by (simp add: collected_same)
  then have "int_step pos f xs x c (inner d)" using d(3) by (simp add: int_step_def same_collectors_def)
  then show ?thesis using d(1) l by (simp add: call_agg_def CheckArgs_def)
qed

lemma step_Min:
  assumes "finite A" "A \<noteq> {}"
  shows "(if x < Min A then x else Min A) = Min (insert (x::int) A)"
proof -
  have "Min (insert x A) = min x (Min A)" using assms by simp
  then show ?thesis by (simp only: min_def split: if_split) linarith
qed

lemma step_Max:
  assumes "finite A" "A \<noteq> {}"
  shows "(if Max A < x then x else Max A) = Max (insert (x::int) A)"
proof -
  have "Max (insert x A) = max x (Max A)" using assms by simp
  then show ?thesis by (simp only: max_def split: if_split) linarith
qed

lemma sum_int_step:
  assumes "agg_ready pos c" "collected ''sum'' xs c" "castNumberToStandardType v = Inr (VInt64 x)"
  shows "int_step pos ''sum'' xs x c (callAggSumInternal N n [v] True c)"
proof -
  obtain d where d: "agg_start n AggTypeInt c = Inr d" "agg_ready pos d" "same_collectors c d"
    using agg_start_ready [OF assms(1)] .
  have "wrap64 (wrap64 (sum_list xs) + x) = wrap64 (sum_list xs + x)"
    by (simp add: wrap_def mod_simps algebra_simps)
  then show ?thesis using assms(2,3) d
    by (simp add: callAggSumInternal_def int_step_def agg_ready_def collected_def same_collectors_def
        int_agg_def Let_def)
qed

lemma avg_int_step:
  assumes "agg_ready pos c" "collected ''avg'' xs c" "castNumberToStandardType v = Inr (VInt64 x)"
    "\<forall>y\<in>set (xs @ [x]). in_range 64 y" "int (length xs) + 1 < 2 ^ 63"
  shows "int_step pos ''avg'' xs x c (callAggAvgInternal N n [v] True c)"
proof -
  obtain d where d: "agg_start n AggTypeInt c = Inr d" "agg_ready pos d" "same_collectors c d"
    using agg_start_ready [OF assms(1)] .
  have n: "wrap64 (int (length xs) + 1) = int (length xs) + 1"
    using assms(5) by (intro wrap_id) (auto simp: in_range_def)
  have "in_range 64 (sum_list (xs @ [x]) div int (length (xs @ [x])))"
    using avg_bounds [of "xs @ [x]"] assms(4) by simp
  then have "wrap64 ((sum_list xs + x) div (int (length xs) + 1)) = (sum_list xs + x) div (int (length xs) + 1)"
    by (intro wrap_id) (simp_all add: add.commute)
  then show ?thesis using assms(2,3) d n
    by (simp add: callAggAvgInternal_def int_step_def agg_ready_def collected_def same_collectors_def
        int_agg_def Let_def add.commute)
qed

lemma min_int_step:
  assumes "agg_ready pos c" "collected ''min'' xs c" "castNumberToStandardType v = Inr (VInt64 x)"
    "\<forall>y\<in>set (xs @ [x]). in_range 64 y"
  shows "int_step pos ''min'' xs x c (callAggMinInternal N n [v] True c)"
proof -
  obtain d where d: "agg_start n AggTypeInt c = Inr d" "agg_ready pos d" "same_collectors c d"
    using agg_start_ready [OF assms(1)] .
  let ?s = "(minCollector d)\<lparr>ext_Count := wrap64 (ext_Count (minCollector d) + 1), ext_Int := Min (set (xs @ [x]))\<rparr>"
  have t: "Min (insert (2 ^ 63 - 1) (set (xs @ [x]))) = Min (set (xs @ [x]))"
    using assms(4) by (subst Min_insert) (auto simp: in_range_def intro!: min_absorb2 Min_le_iff [THEN iffD2])
  have c: "ext_Int (minCollector d) = Min (insert (2 ^ 63 - 1) (set xs))"
    using assms(2) d(3) by (simp add: collected_def same_collectors_def)
  have st: "(if x < Min (insert (2 ^ 63 - 1) (set xs)) then x else Min (insert (2 ^ 63 - 1) (set xs))) = Min (insert x (insert (2 ^ 63 - 1) (set xs)))"
    by (rule step_Min) simp_all
  have sw: "insert x (insert (2 ^ 63 - 1) (set xs)) = insert (2 ^ 63 - 1) (set (xs @ [x]))" by auto
  have e: "(if x < ext_Int (minCollector d) then x else ext_Int (minCollector d)) = Min (set (xs @ [x]))"
    unfolding c by (rule trans [OF st [unfolded sw] t])
  have "callAggMinInternal N n [v] True c =
      ((VInt64 (Min (set (xs @ [x]))), None), d\<lparr>minCollector := ?s\<rparr>)"
    using assms(3) d(1) by (cases v) (simp_all only: callAggMinInternal_def castNumberToStandardType_def
      gval.case sum.case sum.inject gval.inject gval.distinct nth_Cons_0 Let_def if_True e
      ext_collector.simps sum.distinct, simp_all)
  then show ?thesis using d(2,3) t
    by (simp only: int_step_def) (simp add: agg_ready_def collected_def same_collectors_def int_agg_def)
qed

lemma max_int_step:
  assumes "agg_ready pos c" "collected ''max'' xs c" "castNumberToStandardType v = Inr (VInt64 x)"
    "\<forall>y\<in>set (xs @ [x]). in_range 64 y"
  shows "int_step pos ''max'' xs x c (callAggMaxInternal N n [v] True c)"
proof -
  obtain d where d: "agg_start n AggTypeInt c = Inr d" "agg_ready pos d" "same_collectors c d"
    using agg_start_ready [OF assms(1)] .
  let ?s = "(maxCollector d)\<lparr>ext_Count := wrap64 (ext_Count (maxCollector d) + 1), ext_Int := Max (set (xs @ [x]))\<rparr>"
  have t: "Max (insert (- (2 ^ 63)) (set (xs @ [x]))) = Max (set (xs @ [x]))"
    using assms(4) by (subst Max_insert) (auto simp: in_range_def intro!: max_absorb2 Max_ge_iff [THEN iffD2])
  have c: "ext_Int (maxCollector d) = Max (insert (- (2 ^ 63)) (set xs))"
    using assms(2) d(3) by (simp add: collected_def same_collectors_def)
  have st: "(if x > Max (insert (- (2 ^ 63)) (set xs)) then x else Max (insert (- (2 ^ 63)) (set xs))) = Max (insert x (insert (- (2 ^ 63)) (set xs)))"
    by (rule step_Max) simp_all
  have sw: "insert x (insert (- (2 ^ 63)) (set xs)) = insert (- (2 ^ 63)) (set (xs @ [x]))" by auto
  have e: "(if x > ext_Int (maxCollector d) then x else ext_Int (maxCollector d)) = Max (set (xs @ [x]))"
    unfolding c by (rule trans [OF st [unfolded sw] t])
  have "callAggMaxInternal N n [v] True c =
      ((VInt64 (Max (set (xs @ [x]))), None), d\<lparr>maxCollector := ?s\<rparr>)"
    using assms(3) d(1) by (cases v) (simp_all only: callAggMaxInternal_def castNumberToStandardType_def
      gval.case sum.case sum.inject gval.inject gval.distinct nth_Cons_0 Let_def if_True e
      ext_collector.simps sum.distinct, simp_all)
  then show ?thesis using d(2,3) t
    by (simp only: int_step_def) (simp add: agg_ready_def collected_def same_collectors_def int_agg_def)
qed

text \<open>One row of the group.\<close>

definition int_agg_name :: "string \<Rightarrow> bool" where
  "int_agg_name f \<longleftrightarrow> f \<in> {''sum'', ''avg'', ''min'', ''max''}"

lemma EvalFunc_int_step:
  assumes "int_agg_name f" "agg_ready pos c" "collected f xs c"
    "castNumberToStandardType v = Inr (VInt64 x)" "\<forall>y\<in>set (xs @ [x]). in_range 64 y"
    "int (length xs) + 1 < 2 ^ 63"
  obtains c' where "call_named N pos (Ident f) [v] c = assign (VInt64 (int_agg f (xs @ [x]))) None c'"
    "agg_ready pos c'" "collected f (xs @ [x]) c'" "evalConstants c' = evalConstants c"
    "evalFunctions c' = evalFunctions c" "roundDec c' = roundDec c"
proof -
  note goal = that
  have fin: thesis if o: "call_named N pos (Ident f) [v] c = (case out of ((w, e), c1) \<Rightarrow> assign w e c1)"
    and st: "int_step pos f xs x c out" for out
  proof -
    obtain w e c1 where out: "out = ((w, e), c1)" by (metis prod.exhaust)
    show thesis using o st goal [of c1] unfolding out by (simp add: int_step_def)
  qed
  have store: "call_named N pos (Ident f) [v] c = (case out of ((w, e), c1) \<Rightarrow> assign w e c1)"
    if "EvalFunc N pos f [v] c = (case out of ((w, e), c1) \<Rightarrow> assign w e c1)" for out
    using that by (simp add: call_named_def assign_def split: prod.split)
  consider "f = ''sum''" | "f = ''avg''" | "f = ''min''" | "f = ''max''"
    using assms(1) by (auto simp: int_agg_name_def)
  then show thesis
  proof cases
    case 1
    show ?thesis
      by (rule fin [OF store, of "CallAggSum N pos [v] c"], simp add: 1 EvalFunc_def, unfold 1 CallAggSum_def)
        (rule call_agg_int_step [OF assms(2) assms(3) [unfolded 1]]; simp add: sum_int_step assms(4))
  next
    case 2
    show ?thesis
      by (rule fin [OF store, of "CallAggAvg N pos [v] c"], simp add: 2 EvalFunc_def, unfold 2 CallAggAvg_def)
        (rule call_agg_int_step [OF assms(2) assms(3) [unfolded 2]], simp,
          rule avg_int_step [OF _ _ assms(4,5,6)])
  next
    case 3
    show ?thesis
      by (rule fin [OF store, of "CallAggMin N pos [v] c"], simp add: 3 EvalFunc_def, unfold 3 CallAggMin_def)
        (rule call_agg_int_step [OF assms(2) assms(3) [unfolded 3]], simp,
          rule min_int_step [OF _ _ assms(4,5)])
  next
    case 4
    show ?thesis
      by (rule fin [OF store, of "CallAggMax N pos [v] c"], simp add: 4 EvalFunc_def, unfold 4 CallAggMax_def)
        (rule call_agg_int_step [OF assms(2) assms(3) [unfolded 4]], simp,
          rule max_int_step [OF _ _ assms(4,5)])
  qed
qed

text \<open>The value of the argument in a row, and when it is an integer.\<close>

definition int_arg :: "('f, 'd) numops \<Rightarrow> expr \<Rightarrow> ('f, 'd) eval_ctx \<Rightarrow> ('f, 'd) var_values \<Rightarrow> int \<Rightarrow> bool" where
  "int_arg N a c r x \<longleftrightarrow> in_range 64 x \<and>
     (case Eval N a (SetVars r c) of
        ((v, None), _) \<Rightarrow> castNumberToStandardType v = Inr (VInt64 x)
      | _ \<Rightarrow> False)"

lemma eval_row_collecting:
  assumes a: "agg_calls a = {}" and f: "int_agg_name f" and c: "collecting pos f c0 xs c"
    and x: "int_arg N a c0 r x" "\<forall>y\<in>set xs. in_range 64 y" "int (length xs) + 1 < 2 ^ 63"
  shows "\<exists>c'. eval_row N (CallExpr pos (Ident f) [a]) c r = Inr c' \<and> collecting pos f c0 (xs @ [x]) c'"
proof -
  note fr = Eval_framed [OF a, of N]
  have "same_env (SetVars r c0) (SetVars r c)"
    using c by (simp add: collecting_def same_env_def SetVars_def)
  then have "fst (Eval N a (SetVars r c)) = fst (Eval N a (SetVars r c0))"
    using fr unfolding framed_def by metis
  moreover obtain v d0 where "Eval N a (SetVars r c0) = ((v, None), d0)"
    and v: "castNumberToStandardType v = Inr (VInt64 x)"
    using x(1) by (auto simp: int_arg_def split: prod.splits option.splits)
  ultimately obtain d where d: "Eval N a (SetVars r c) = ((v, None), d)" by (metis fst_conv prod.collapse)
  then have "only_value (SetVars r c) d" using fr unfolding framed_def by (metis snd_conv)
  note dv = collecting_value [OF c this]
  have "agg_ready pos d" using dv(1-3) by (simp add: agg_ready_def)
  moreover have "\<forall>y\<in>set (xs @ [x]). in_range 64 y" using x by (simp add: int_arg_def)
  ultimately obtain c' where
    c': "call_named N pos (Ident f) [v] d = assign (VInt64 (int_agg f (xs @ [x]))) None c'"
    "agg_ready pos c'" "collected f (xs @ [x]) c'" "evalConstants c' = evalConstants d"
    "evalFunctions c' = evalFunctions d" "roundDec c' = roundDec d"
    using EvalFunc_int_step [OF f _ dv(4) v _ x(3)] by blast
  let ?c = "c'\<lparr>ctx_value := VInt64 (int_agg f (xs @ [x]))\<rparr>"
  have "eval_row N (CallExpr pos (Ident f) [a]) c r = Inr ?c"
    using d c'(1) by (simp add: eval_row_def assign_def)
  moreover have "collecting pos f c0 (xs @ [x]) ?c"
    using c'(2-) dv(5-7) by (simp add: collecting_def agg_ready_def collected_def)
  ultimately show ?thesis by blast
qed

lemma eval_group_collecting:
  assumes a: "agg_calls a = {}" and f: "int_agg_name f" and c: "collecting pos f c0 [] c"
    and x: "list_all2 (int_arg N a c0) rows xs" "int (length rows) < 2 ^ 63"
  shows "\<exists>c'. eval_group N (CallExpr pos (Ident f) [a]) c rows = Inr c' \<and> collecting pos f c0 xs c'"
  using x
proof (induction rows arbitrary: xs rule: rev_induct)
  case Nil
  then show ?case using c by (simp add: eval_group_def)
next
  case (snoc r rows)
  then obtain ys y where xs: "xs = ys @ [y]" "list_all2 (int_arg N a c0) rows ys" "int_arg N a c0 r y"
    by (auto simp: list_all2_append1 list_all2_Cons1)
  moreover have "length ys = length rows" using xs(2) by (simp add: list_all2_lengthD)
  moreover have "\<forall>z\<in>set ys. in_range 64 z"
    using xs(2) by (auto simp: list_all2_conv_all_nth in_set_conv_nth int_arg_def)
  moreover obtain c1 where "eval_group N (CallExpr pos (Ident f) [a]) c rows = Inr c1" "collecting pos f c0 ys c1"
    using snoc.IH [OF xs(2)] snoc.prems(2) by auto
  ultimately show ?case using eval_row_collecting [OF a f, of pos c0 ys c1 N r y] snoc.prems(2)
    by (auto simp: eval_group_def foldr_err_snoc)
qed

text \<open>C20: A grouped field sum(a), avg(a), min(a) or max(a) over integers is, whatever the order of
  the rows on the right: the sum modulo 2^64, the exact mean rounded down, which never overflows,
  the least and the greatest value.\<close>

theorem grouped_integer_field:
  assumes "agg_calls a = {}" "int_agg_name f"
    "group_ctx N (CallExpr pos (Ident f) [a]) fns consts = Inr c0"
    "list_all2 (int_arg N a c0) rows xs" "rows \<noteq> []" "int (length rows) < 2 ^ 63"
  shows "\<exists>c. eval_group N (CallExpr pos (Ident f) [a]) c0 rows = Inr c \<and>
             GetSafeValue dflt c = VInt64 (int_agg f xs)"
proof -
  have k: "StringToAggFunc f \<in> {AggSum, AggAvg, AggMin, AggMax}"
    using assms(2) unfolding int_agg_name_def insert_iff empty_iff
    by (elim disjE) (simp_all add: StringToAggFunc_def)
  then have ne: "StringToAggFunc f \<noteq> AggUnknown" "StringToAggFunc f \<noteq> AggStringAgg"
    "StringToAggFunc f \<noteq> AggStringAggIf" by auto
  have c0: "c0 = SetRoundDec 2 ((newPlainEvalCtxInternal N True)\<lparr>aggFunc := StringToAggFunc f,
      evalFunctions := Some fns, evalConstants := Some consts, evalVars := Some (\<lambda>_. None)\<rparr>)"
    using assms(3) ne by (simp add: group_ctx_def DetectRootAggFunc_def NewAggEvalCtx_def)
  have "collecting pos f c0 [] c0"
    unfolding c0 collecting_def collected_def newPlainEvalCtxInternal_def SetRoundDec_def
    by (simp add: wrap_def)
  then obtain c where c: "eval_group N (CallExpr pos (Ident f) [a]) c0 rows = Inr c" "collecting pos f c0 xs c"
    using eval_group_collecting [OF assms(1,2) _ assms(4,6)] by blast
  moreover have "xs \<noteq> []" using assms(4,5) by auto
  ultimately have "ctx_value c = VInt64 (int_agg f xs)" by (simp add: collecting_def)
  then have "GetSafeValue dflt c = VInt64 (int_agg f xs)" by (simp add: GetSafeValue_def GetValue_def)
  then show ?thesis using c(1) by blast
qed

lemma grouped_integer_field_witness:
  "\<exists>c. eval_group sample_ops (CallExpr 1 (Ident ''avg'') [Ident ''x''])
         (projr (group_ctx sample_ops (CallExpr 1 (Ident ''avg'') [Ident ''x'']) (\<lambda>_. None) (\<lambda>_. None)))
         (map sample_vars [3, 4, -9]) = Inr c \<and>
       GetSafeValue VNil c = VInt64 (-1)"
proof -
  have "\<exists>c. eval_group sample_ops (CallExpr 1 (Ident ''avg'') [Ident ''x''])
         (projr (group_ctx sample_ops (CallExpr 1 (Ident ''avg'') [Ident ''x'']) (\<lambda>_. None) (\<lambda>_. None)))
         (map sample_vars [3, 4, -9]) = Inr c \<and>
       GetSafeValue VNil c = VInt64 (int_agg ''avg'' [3, 4, -9])"
    by (rule grouped_integer_field)
      (simp_all add: int_agg_name_def group_ctx_def DetectRootAggFunc_def StringToAggFunc_def NewAggEvalCtx_def
        int_arg_def sample_vars_def SetVars_def SetRoundDec_def newPlainEvalCtxInternal_def eval_name_def assign_def
        castNumberToStandardType_def in_range_def)
  then show ?thesis by (simp add: int_agg_def)
qed

end
