(* ===== verification/Field_Refs.thy ===== *)
theory Field_Refs
  imports Eval_Facts
begin

text \<open>
  References to fields and the checks of a script against them (pkg/sc/field_ref.go, table_def.go).
  Where the code builds a slice from a Go map, whose iteration order is arbitrary, the model takes
  the order of insertion; the lemmas do not depend on it. The parser of Go expressions is the
  parameter \<open>parse\<close>, the custom functions and the constants are \<open>fns\<close> and \<open>consts\<close>.
\<close>

record field_ref =
  fr_TableName :: string
  fr_FieldName :: string
  fr_FieldType :: field_type

type_synonym ('f, 'd) eval_funs = "string \<Rightarrow> (('f, 'd) gval list \<Rightarrow> goerr + ('f, 'd) gval) option"
type_synonym ('f, 'd) eval_consts = "string \<Rightarrow> ('f, 'd) gval option"

definition GetAliasHash :: "field_ref \<Rightarrow> string" where
  "GetAliasHash fr = fr_TableName fr @ ''.'' @ fr_FieldName fr"

definition HasFieldsWithTableAlias :: "field_ref list \<Rightarrow> string \<Rightarrow> bool" where
  "HasFieldsWithTableAlias refs tableAlias = list_ex (\<lambda>fr. tableAlias = fr_TableName fr) refs"

text \<open>A map from hashes to references that keeps the first reference of each hash.\<close>

definition add_hash :: "field_ref \<Rightarrow> (string \<times> field_ref) list \<Rightarrow> (string \<times> field_ref) list" where
  "add_hash fr m = (if map_of m (GetAliasHash fr) = None then m @ [(GetAliasHash fr, fr)] else m)"

definition JoinFieldRefs :: "field_ref list option list \<Rightarrow> field_ref list" where
  "JoinFieldRefs srcs =
     map snd (fold add_hash (concat (map (\<lambda>p. case p of None \<Rightarrow> [] | Some l \<Rightarrow> l) srcs)) [])"

definition RowidFieldRef :: "string \<Rightarrow> field_ref" where
  "RowidFieldRef t = \<lparr>fr_TableName = t, fr_FieldName = ''rowid'', fr_FieldType = FieldTypeInt\<rparr>"

definition BatchIdxFieldRef :: "string \<Rightarrow> field_ref" where
  "BatchIdxFieldRef t = \<lparr>fr_TableName = t, fr_FieldName = ''batch_idx'', fr_FieldType = FieldTypeInt\<rparr>"

definition RowidTokenFieldRef :: field_ref where
  "RowidTokenFieldRef = \<lparr>fr_TableName = ''db_system'', fr_FieldName = ''token(rowid)'', fr_FieldType = FieldTypeInt\<rparr>"

definition KeyTokenFieldRef :: field_ref where
  "KeyTokenFieldRef = \<lparr>fr_TableName = ''db_system'', fr_FieldName = ''token(key)'', fr_FieldType = FieldTypeInt\<rparr>"

definition IdxKeyFieldRef :: field_ref where
  "IdxKeyFieldRef = \<lparr>fr_TableName = ''db_system'', fr_FieldName = ''key'', fr_FieldType = FieldTypeString\<rparr>"

definition contributeUnresolved :: "string \<Rightarrow> string \<Rightarrow> field_ref list \<Rightarrow> field_ref list" where
  "contributeUnresolved tableName fieldName refs =
     (if list_ex (\<lambda>fr. fr_TableName fr = tableName \<and> fr_FieldName fr = fieldName) refs then refs
      else refs @ [\<lparr>fr_TableName = tableName, fr_FieldName = fieldName, fr_FieldType = FieldTypeUnknown\<rparr>])"

definition AppendWithFilter :: "field_ref list \<Rightarrow> string \<Rightarrow> field_ref list \<Rightarrow> field_ref list" where
  "AppendWithFilter others tableFilter refs =
     map snd (fold (\<lambda>fr m. if length tableFilter = 0 \<or> tableFilter = fr_TableName fr
                           then AList.update (GetAliasHash fr) fr m else m) others
               (fold (\<lambda>fr m. AList.update (GetAliasHash fr) fr m) refs []))"

definition Append :: "field_ref list \<Rightarrow> field_ref list \<Rightarrow> field_ref list" where
  "Append others refs = AppendWithFilter others '''' refs"

definition FindByFieldName :: "string \<Rightarrow> field_ref list \<Rightarrow> field_ref option" where
  "FindByFieldName fieldName refs = find (\<lambda>fr. fieldName = fr_FieldName fr) refs"

subsection \<open>Allowed fields\<close>

definition hash_map :: "field_ref list option \<Rightarrow> (string \<times> field_ref) list" where
  "hash_map refs = (case refs of None \<Rightarrow> [] | Some l \<Rightarrow> fold add_hash l [])"

text \<open>The errors of one reference, and the reference with its type resolved.\<close>

definition check_ref ::
  "(string \<times> field_ref) list \<Rightarrow> (string \<times> field_ref) list \<Rightarrow> field_ref \<Rightarrow> goerr list \<times> field_ref" where
  "check_ref prohibited allowed fr =
     (let es = (if length (fr_TableName fr) = 0 \<or> length (fr_FieldName fr) = 0
                then [''dev error, empty FieldRef''] else []);
          h = GetAliasHash fr
      in if map_of prohibited h \<noteq> None then (es @ [''prohibited field ''@ h], fr)
         else (case map_of allowed h of
                 None \<Rightarrow> (es @ [''unknown field '' @ h], fr)
               | Some a \<Rightarrow> (es, fr\<lparr>fr_FieldType := fr_FieldType a\<rparr>)))"

definition checkAllowedAndResolveFieldTypes ::
  "field_ref list option \<Rightarrow> field_ref list option \<Rightarrow> field_ref list option \<Rightarrow>
     goerr option \<times> field_ref list option" where
  "checkAllowedAndResolveFieldTypes toCheck prohibited allowed =
     (case toCheck of
        None \<Rightarrow> (None, None)
      | Some refs \<Rightarrow>
          (let rs = map (check_ref (hash_map prohibited) (hash_map allowed)) refs;
               es = concat (map fst rs)
           in (if es = [] then None else Some (Join es ''; ''), Some (map snd rs))))"

subsection \<open>The fields used by an expression\<close>

text \<open>\<open>relaxed\<close> is the flag FieldRefAllowUnknownIdents.\<close>

fun harvestFieldRefsFromParsedExpression ::
  "('f, 'd) eval_consts \<Rightarrow> bool \<Rightarrow> expr \<Rightarrow> field_ref list \<Rightarrow> goerr + field_ref list"
and harvest_args :: "('f, 'd) eval_consts \<Rightarrow> bool \<Rightarrow> expr list \<Rightarrow> field_ref list \<Rightarrow> goerr + field_ref list" where
  "harvestFieldRefsFromParsedExpression consts relaxed (BinaryExpr x op y) refs =
     bindr (harvestFieldRefsFromParsedExpression consts relaxed x refs)
       (harvestFieldRefsFromParsedExpression consts relaxed y)"
| "harvestFieldRefsFromParsedExpression consts relaxed (UnaryExpr op x) refs =
     harvestFieldRefsFromParsedExpression consts relaxed x refs"
| "harvestFieldRefsFromParsedExpression consts relaxed (CallExpr pos fn args) refs =
     harvest_args consts relaxed args refs"
| "harvestFieldRefsFromParsedExpression consts relaxed (SelectorExpr x sel) refs =
     (case x of
        Ident obj \<Rightarrow> Inr (if consts (obj @ ''.'' @ sel) = None then contributeUnresolved obj sel refs else refs)
      | _ \<Rightarrow> Inl ''selectors starting with non-ident are not allowed'')"
| "harvestFieldRefsFromParsedExpression consts relaxed (Ident n) refs =
     (if \<not> relaxed \<and> n \<noteq> ''true'' \<and> n \<noteq> ''false''
      then Inl ''plain (non-selector) identifiers are not allowed'' else Inr refs)"
| "harvestFieldRefsFromParsedExpression consts relaxed (ParenExpr x) refs =
     harvestFieldRefsFromParsedExpression consts relaxed x refs"
| "harvestFieldRefsFromParsedExpression consts relaxed (BasicLit k s) refs = Inr refs"
| "harvestFieldRefsFromParsedExpression consts relaxed OtherExpr refs = Inr refs"
| "harvest_args consts relaxed [] refs = Inr refs"
| "harvest_args consts relaxed (x # xs) refs =
     bindr (harvestFieldRefsFromParsedExpression consts relaxed x refs) (harvest_args consts relaxed xs)"

text \<open>A blank string is no expression; both parsing functions differ only in the flag and the text.\<close>

definition parse_and_harvest ::
  "(string \<Rightarrow> goerr + expr) \<Rightarrow> ('f, 'd) eval_consts \<Rightarrow> string \<Rightarrow> string \<Rightarrow> field_ref list option \<Rightarrow> bool \<Rightarrow>
     goerr + expr option \<times> field_ref list option" where
  "parse_and_harvest parse consts what strExp usedFields relaxed =
     (if length (TrimSpace strExp) = 0 then Inr (None, usedFields)
      else
        (case parse strExp of
           Inl e \<Rightarrow> Inl (what @ '' parsing error: ['' @ e @ '']'')
         | Inr ex \<Rightarrow>
             (case usedFields of
                None \<Rightarrow> Inr (Some ex, None)
              | Some refs \<Rightarrow>
                  bindr (harvestFieldRefsFromParsedExpression consts relaxed ex refs)
                    (\<lambda>refs'. Inr (Some ex, Some refs')))))"

definition ParseRawGolangExpressionStringAndHarvestFieldRefs ::
  "(string \<Rightarrow> goerr + expr) \<Rightarrow> ('f, 'd) eval_consts \<Rightarrow> string \<Rightarrow> field_ref list option \<Rightarrow>
     goerr + expr option \<times> field_ref list option" where
  "ParseRawGolangExpressionStringAndHarvestFieldRefs parse consts strExp usedFields =
     parse_and_harvest parse consts ''strict'' strExp usedFields False"

definition ParseRawRelaxedGolangExpressionStringAndHarvestFieldRefs ::
  "(string \<Rightarrow> goerr + expr) \<Rightarrow> ('f, 'd) eval_consts \<Rightarrow> string \<Rightarrow> field_ref list option \<Rightarrow> bool \<Rightarrow>
     goerr + expr option \<times> field_ref list option" where
  "ParseRawRelaxedGolangExpressionStringAndHarvestFieldRefs parse consts strExp usedFields relaxed =
     parse_and_harvest parse consts ''relaxed'' strExp usedFields relaxed"

subsection \<open>Values and types\<close>

definition GetDefaultFieldTypeValue :: "('f, 'd) numops \<Rightarrow> field_type \<Rightarrow> ('f, 'd) gval" where
  "GetDefaultFieldTypeValue N t =
     (case t of
        FieldTypeInt \<Rightarrow> VInt64 0
      | FieldTypeFloat \<Rightarrow> VFloat64 (f_of_int N 0)
      | FieldTypeString \<Rightarrow> VStr ''''
      | FieldTypeDecimal2 \<Rightarrow> VDec (d_of_float N (f_of_int N 0))
      | FieldTypeBool \<Rightarrow> VBool False
      | FieldTypeDateTime \<Rightarrow> VTime zero_time
      | FieldTypeUnknown \<Rightarrow> VNil)"

definition CheckValueType :: "('f, 'd) gval \<Rightarrow> field_type \<Rightarrow> goerr option" where
  "CheckValueType v t =
     (let expect = (\<lambda>u got. if t \<noteq> u then Some (''expected type '' @ field_type_str t @ '', but got '' @ got)
                            else None)
      in case v of
           VInt64 _ \<Rightarrow> expect FieldTypeInt ''int64''
         | VFloat64 _ \<Rightarrow> expect FieldTypeFloat ''float64''
         | VStr _ \<Rightarrow> expect FieldTypeString ''string''
         | VBool _ \<Rightarrow> expect FieldTypeBool ''bool''
         | VTime _ \<Rightarrow> expect FieldTypeDateTime ''datetime''
         | VDec _ \<Rightarrow> expect FieldTypeDecimal2 ''decimal''
         | _ \<Rightarrow> Some (''expected type '' @ field_type_str t @ '', but got unexpected type''))"

text \<open>The variables of a test evaluation: one value per type, moved on by the deltas.\<close>

definition test_value ::
  "('f, 'd) numops \<Rightarrow> gotime \<Rightarrow> int \<Rightarrow> 'f \<Rightarrow> 'd \<Rightarrow> field_type \<Rightarrow> goerr + ('f, 'd) gval" where
  "test_value N now deltaInt deltaFloat deltaDecimal t =
     (case t of
        FieldTypeInt \<Rightarrow> Inr (VInt64 (0 + deltaInt))
      | FieldTypeFloat \<Rightarrow> Inr (VFloat64 (f_add N (f_of_int N 0) deltaFloat))
      | FieldTypeBool \<Rightarrow> Inr (VBool False)
      | FieldTypeString \<Rightarrow> Inr (VStr ''12345'')
      | FieldTypeDateTime \<Rightarrow> Inr (VTime now)
      | FieldTypeDecimal2 \<Rightarrow> Inr (VDec (d_add N (d_of_float N (f_of_int N 0)) deltaDecimal))
      | FieldTypeUnknown \<Rightarrow> Inl ''evalExpressionWithFieldRefsAndCheckType unsupported field type'')"

definition set_var ::
  "string \<Rightarrow> string \<Rightarrow> ('f, 'd) gval \<Rightarrow> ('f, 'd) var_values \<Rightarrow> ('f, 'd) var_values" where
  "set_var t f v m = m(t \<mapsto> (case m t of None \<Rightarrow> Map.empty | Some r \<Rightarrow> r)(f \<mapsto> v))"

definition test_vars ::
  "('f, 'd) numops \<Rightarrow> gotime \<Rightarrow> int \<Rightarrow> 'f \<Rightarrow> 'd \<Rightarrow> field_ref list \<Rightarrow> goerr + ('f, 'd) var_values" where
  "test_vars N now deltaInt deltaFloat deltaDecimal refs =
     foldr_err (\<lambda>m fr. bindr (test_value N now deltaInt deltaFloat deltaDecimal (fr_FieldType fr))
                         (\<lambda>v. Inr (set_var (fr_TableName fr) (fr_FieldName fr) v m))) Map.empty refs"

definition test_ctx ::
  "('f, 'd) numops \<Rightarrow> ('f, 'd) eval_funs \<Rightarrow> ('f, 'd) eval_consts \<Rightarrow> expr \<Rightarrow> ('f, 'd) var_values \<Rightarrow>
     goerr + ('f, 'd) eval_ctx" where
  "test_ctx N fns consts ex vars =
     (case DetectRootAggFunc ex of
        (True, f, args) \<Rightarrow> bindr (NewAggEvalCtx N f args fns consts vars) (\<lambda>c. Inr (SetRoundDec 2 c))
      | _ \<Rightarrow> Inr (NewPlainEvalCtx N fns consts vars))"

text \<open>The loop \<open>for deltaInt < 5\<close>; the first argument is the number of rounds left.\<close>

fun test_eval_loop ::
  "nat \<Rightarrow> ('f, 'd) numops \<Rightarrow> ('f, 'd) eval_funs \<Rightarrow> ('f, 'd) eval_consts \<Rightarrow> gotime \<Rightarrow> expr \<Rightarrow> field_ref list \<Rightarrow>
     field_type \<Rightarrow> int \<Rightarrow> 'f \<Rightarrow> 'd \<Rightarrow> goerr option" where
  "test_eval_loop 0 N fns consts now ex refs t di df dd =
     Some ''unexpectedly keep getting divide by zero error when evalExpressionWithFieldRefsAndCheckType''"
| "test_eval_loop (Suc k) N fns consts now ex refs t di df dd =
     (case test_vars N now di df dd refs of
        Inl e \<Rightarrow> Some e
      | Inr vars \<Rightarrow>
          (case test_ctx N fns consts ex vars of
             Inl e \<Rightarrow> Some e
           | Inr c \<Rightarrow>
               (case Eval N ex c of
                  ((v, None), _) \<Rightarrow> CheckValueType v t
                | ((_, Some e), _) \<Rightarrow>
                    (if \<not> Contains e ''divide by zero'' \<and> \<not> Contains e ''decimal division by 0'' then Some e
                     else test_eval_loop k N fns consts now ex refs t (di + 1) (f_add N df (f_parse N ''2.35''))
                            (d_add N dd (d_of_float N (f_parse N ''3.45'')))))))"

definition evalExpressionWithFieldRefsAndCheckType ::
  "('f, 'd) numops \<Rightarrow> ('f, 'd) eval_funs \<Rightarrow> ('f, 'd) eval_consts \<Rightarrow> gotime \<Rightarrow> expr option \<Rightarrow> field_ref list \<Rightarrow>
     field_type \<Rightarrow> goerr option" where
  "evalExpressionWithFieldRefsAndCheckType N fns consts now ex refs t =
     (case ex of
        None \<Rightarrow> None
      | Some x \<Rightarrow> test_eval_loop 5 N fns consts now x refs t 0 (f_of_int N 0) (d_of_float N (f_of_int N 0)))"

subsection \<open>The check of allowed fields\<close>

lemma map_of_add_hash: "map_of (fold add_hash l m) h =
    (case map_of m h of Some a \<Rightarrow> Some a | None \<Rightarrow> find (\<lambda>a. GetAliasHash a = h) l)"
proof (induction l arbitrary: m)
  case (Cons fr l)
  have "map_of (add_hash fr m) h =
      (case map_of m h of Some a \<Rightarrow> Some a | None \<Rightarrow> if GetAliasHash fr = h then Some fr else None)"
    by (auto simp: add_hash_def map_add_def split: option.splits)
  then show ?case using Cons by (auto split: option.splits)
qed (simp split: option.split)

lemma map_of_hash_map: "map_of (hash_map refs) h =
    find (\<lambda>a. GetAliasHash a = h) (case refs of None \<Rightarrow> [] | Some l \<Rightarrow> l)"
  by (cases refs) (simp_all add: hash_map_def map_of_add_hash)

lemma find_None_iff_hash: "find (\<lambda>a. GetAliasHash a = h) l = None \<longleftrightarrow> h \<notin> GetAliasHash ` set l"
  by (auto simp: find_None_iff)

lemma check_ref_ok:
  "check_ref prohibited allowed fr = ([], fr') \<longleftrightarrow>
     fr_TableName fr \<noteq> [] \<and> fr_FieldName fr \<noteq> [] \<and> map_of prohibited (GetAliasHash fr) = None \<and>
     (\<exists>a. map_of allowed (GetAliasHash fr) = Some a \<and> fr' = fr\<lparr>fr_FieldType := fr_FieldType a\<rparr>)"
  by (auto simp: check_ref_def Let_def split: option.splits)

lemma all_checked:
  "concat (map fst rs) = [] \<and> map snd rs = refs' \<longleftrightarrow> list_all2 (\<lambda>r fr'. r = ([], fr')) rs refs'"
proof (induction rs arbitrary: refs')
  case (Cons r rs)
  then show ?case by (cases refs'; cases r) auto
qed auto

text \<open>C24: The check of used fields succeeds exactly when every reference is complete, is not among the
  prohibited and is among the allowed fields; it then gives each the type of the first allowed field
  of that table and name.\<close>

theorem allowed_fields_resolved:
  "checkAllowedAndResolveFieldTypes (Some refs) prohibited allowed = (None, Some refs') \<longleftrightarrow>
     list_all2 (\<lambda>fr fr'.
       fr_TableName fr \<noteq> [] \<and> fr_FieldName fr \<noteq> [] \<and>
       GetAliasHash fr \<notin> GetAliasHash ` set (case prohibited of None \<Rightarrow> [] | Some l \<Rightarrow> l) \<and>
       (\<exists>a. find (\<lambda>a. GetAliasHash a = GetAliasHash fr) (case allowed of None \<Rightarrow> [] | Some l \<Rightarrow> l) = Some a \<and>
            fr' = fr\<lparr>fr_FieldType := fr_FieldType a\<rparr>)) refs refs'"
proof -
  let ?c = "check_ref (hash_map prohibited) (hash_map allowed)"
  have "checkAllowedAndResolveFieldTypes (Some refs) prohibited allowed = (None, Some refs') \<longleftrightarrow>
      concat (map fst (map ?c refs)) = [] \<and> map snd (map ?c refs) = refs'"
    by (simp add: checkAllowedAndResolveFieldTypes_def Let_def split: if_split)
  also have "\<dots> \<longleftrightarrow> list_all2 (\<lambda>fr fr'. ?c fr = ([], fr')) refs refs'"
    unfolding all_checked by (simp add: list_all2_map1)
  finally show ?thesis unfolding check_ref_ok map_of_hash_map find_None_iff_hash .
qed

subsection \<open>The harvested fields suffice\<close>

text \<open>The value of a field, and two sets of variables that supply the same value.\<close>

definition field_value :: "('f, 'd) var_values \<Rightarrow> string \<Rightarrow> string \<Rightarrow> ('f, 'd) gval option" where
  "field_value vs t f = (case vs t of None \<Rightarrow> None | Some r \<Rightarrow> r f)"

definition supply_same :: "('f, 'd) var_values \<Rightarrow> ('f, 'd) var_values \<Rightarrow> string \<Rightarrow> string \<Rightarrow> bool" where
  "supply_same vs ws t f \<longleftrightarrow> field_value vs t f \<noteq> None \<and> field_value vs t f = field_value ws t f"

text \<open>A step that does the same when the variables are replaced.\<close>

definition tracks ::
  "('f, 'd) var_values \<Rightarrow> ('f, 'd) var_values \<Rightarrow> ('f, 'd) eval_consts \<Rightarrow>
     (('f, 'd) eval_ctx \<Rightarrow> 'r \<times> ('f, 'd) eval_ctx) \<Rightarrow> bool" where
  "tracks vs ws cs f \<longleftrightarrow> (\<forall>c. evalVars c = Some vs \<longrightarrow> evalConstants c = Some cs \<longrightarrow>
     f (SetVars ws c) = apsnd (SetVars ws) (f c) \<and>
     evalVars (snd (f c)) = Some vs \<and> evalConstants (snd (f c)) = Some cs)"

lemma tracks_assign: "tracks vs ws cs (assign v e)" "tracks vs ws cs (\<lambda>c. assign v e c)"
  by (simp_all add: tracks_def assign_def SetVars_def)

lemma tracks_fail: "tracks vs ws cs (fail e)" "tracks vs ws cs (\<lambda>c. fail e c)"
  by (simp_all add: tracks_def fail_def)

lemma tracks_Pair: "tracks vs ws cs (Pair r)" "tracks vs ws cs (\<lambda>c. (r, c))"
  by (simp_all add: tracks_def)

lemma tracks_bind:
  assumes "tracks vs ws cs f" "\<And>r. tracks vs ws cs (g r)"
  shows "tracks vs ws cs (\<lambda>c. case f c of (r, c1) \<Rightarrow> g r c1)"
  unfolding tracks_def
proof (intro allI impI)
  fix c :: "('a, 'b) eval_ctx" assume c: "evalVars c = Some vs" "evalConstants c = Some cs"
  obtain r d where fc: "f c = (r, d)" by (cases "f c")
  then have d: "f (SetVars ws c) = (r, SetVars ws d)" "evalVars d = Some vs" "evalConstants d = Some cs"
    using assms(1) c by (auto simp: tracks_def)
  then show "(case f (SetVars ws c) of (r, c1) \<Rightarrow> g r c1) = apsnd (SetVars ws) (case f c of (r, c1) \<Rightarrow> g r c1) \<and>
      evalVars (snd (case f c of (r, c1) \<Rightarrow> g r c1)) = Some vs \<and>
      evalConstants (snd (case f c of (r, c1) \<Rightarrow> g r c1)) = Some cs"
    using assms(2) [of r] fc by (simp add: tracks_def)
qed

lemma tracks_prod: "(\<And>a b. tracks vs ws cs (h a b)) \<Longrightarrow> tracks vs ws cs (\<lambda>c. case p of (a, b) \<Rightarrow> h a b c)"
  by (cases p) simp

lemma tracks_option:
  "tracks vs ws cs f \<Longrightarrow> (\<And>a. tracks vs ws cs (h a)) \<Longrightarrow>
     tracks vs ws cs (\<lambda>c. case x of None \<Rightarrow> f c | Some a \<Rightarrow> h a c)"
  by (cases x) simp_all

lemma tracks_sum:
  "(\<And>a. tracks vs ws cs (f a)) \<Longrightarrow> (\<And>a. tracks vs ws cs (h a)) \<Longrightarrow>
     tracks vs ws cs (\<lambda>c. case x of Inl a \<Rightarrow> f a c | Inr a \<Rightarrow> h a c)"
  by (cases x) simp_all

lemma tracks_if: "tracks vs ws cs f \<Longrightarrow> tracks vs ws cs g \<Longrightarrow> tracks vs ws cs (\<lambda>c. if b then f c else g c)"
  by (cases b) simp_all

lemma tracks_round:
  assumes "\<And>rd. tracks vs ws cs (f rd)"
  shows "tracks vs ws cs (\<lambda>c. f (roundDec c) c)"
  using assms unfolding tracks_def by (simp add: SetVars_def)

lemmas tracks_intros =
  tracks_bind tracks_prod tracks_option tracks_sum tracks_if tracks_assign tracks_fail tracks_Pair

lemma tracks_ext: "(\<And>c. f c = g c) \<Longrightarrow> tracks vs ws cs g \<Longrightarrow> tracks vs ws cs f" by (drule ext) simp

lemma tracks_arith: "tracks vs ws cs (evalBinaryArithmeticExp N l op r)"
proof -
  have "tracks vs ws cs (\<lambda>c. (\<lambda>rd c. case l of
        VStr _ \<Rightarrow> (case EvalBinaryString l op r of (v, e) \<Rightarrow> assign (VStr v) e c)
      | _ \<Rightarrow>
          (case castNumberPairToCommonType N l r of
             Inl _ \<Rightarrow> fail ''cannot perform binary arithmetic op, incompatible arg types'' c
           | Inr (sl, sr) \<Rightarrow>
               (case sl of
                  VInt64 _ \<Rightarrow> (case EvalBinaryInt sl op sr of (v, e) \<Rightarrow> assign (VInt64 v) e c)
                | VFloat64 _ \<Rightarrow> (case EvalBinaryFloat64 N sl op sr of (v, e) \<Rightarrow> assign (VFloat64 v) e c)
                | VDec _ \<Rightarrow> (case EvalBinaryDecimal N rd sl op sr of (v, e) \<Rightarrow> assign (VDec v) e c)
                | _ \<Rightarrow> fail ''cannot perform binary arithmetic op, unexpected std type'' c))) (roundDec c) c)"
  proof (rule tracks_round)
    fix rd
    have sl: "tracks vs ws cs (\<lambda>c. case sl of
                  VInt64 _ \<Rightarrow> (case EvalBinaryInt sl op sr of (v, e) \<Rightarrow> assign (VInt64 v) e c)
                | VFloat64 _ \<Rightarrow> (case EvalBinaryFloat64 N sl op sr of (v, e) \<Rightarrow> assign (VFloat64 v) e c)
                | VDec _ \<Rightarrow> (case EvalBinaryDecimal N rd sl op sr of (v, e) \<Rightarrow> assign (VDec v) e c)
                | _ \<Rightarrow> fail ''cannot perform binary arithmetic op, unexpected std type'' c)" for sl sr
      by (cases sl) (simp_all, (intro tracks_intros)+)
    show "tracks vs ws cs (\<lambda>c. case l of
        VStr _ \<Rightarrow> (case EvalBinaryString l op r of (v, e) \<Rightarrow> assign (VStr v) e c)
      | _ \<Rightarrow>
          (case castNumberPairToCommonType N l r of
             Inl _ \<Rightarrow> fail ''cannot perform binary arithmetic op, incompatible arg types'' c
           | Inr (sl, sr) \<Rightarrow>
               (case sl of
                  VInt64 _ \<Rightarrow> (case EvalBinaryInt sl op sr of (v, e) \<Rightarrow> assign (VInt64 v) e c)
                | VFloat64 _ \<Rightarrow> (case EvalBinaryFloat64 N sl op sr of (v, e) \<Rightarrow> assign (VFloat64 v) e c)
                | VDec _ \<Rightarrow> (case EvalBinaryDecimal N rd sl op sr of (v, e) \<Rightarrow> assign (VDec v) e c)
                | _ \<Rightarrow> fail ''cannot perform binary arithmetic op, unexpected std type'' c)))"
      by (cases l) (simp_all, (intro tracks_sum tracks_fail tracks_prod sl tracks_assign)+)
  qed
  then show ?thesis by (simp only: evalBinaryArithmeticExp_def [abs_def])
qed

lemma tracks_compare: "tracks vs ws cs (evalBinaryCompareExp N l op r)"
proof -
  have sl: "tracks vs ws cs (\<lambda>c. case sl of
                     VInt64 _ \<Rightarrow> (case EvalBinaryIntToBool sl op sr of (v, e) \<Rightarrow> assign (VBool v) e c)
                   | VFloat64 _ \<Rightarrow>
                       (case EvalBinaryFloat64ToBool N sl op sr of (v, e) \<Rightarrow> assign (VBool v) e c)
                   | VDec _ \<Rightarrow>
                       (case EvalBinaryDecimal2ToBool N sl op sr of (v, e) \<Rightarrow> assign (VBool v) e c)
                   | _ \<Rightarrow> fail ''cannot perform binary comp op, unexpected std type'' c)" for sl sr
    by (cases sl) (simp_all, (intro tracks_intros)+)
  show ?thesis unfolding evalBinaryCompareExp_def [abs_def]
    by (intro tracks_if tracks_assign, cases l)
      (simp_all, (intro tracks_sum tracks_fail tracks_prod sl tracks_assign)+)
qed

lemma tracks_binary_op: "tracks vs ws cs (binary_op N l op r)"
proof -
  have b: "tracks vs ws cs (evalBinaryBoolToBoolExp l op r)"
    unfolding evalBinaryBoolToBoolExp_def [abs_def] by (cases l) (simp_all, (intro tracks_intros)+)
  show ?thesis unfolding binary_op_def [abs_def]
    by (intro tracks_if tracks_arith tracks_compare b tracks_fail)
qed

lemma tracks_name:
  assumes "cs const \<noteq> None \<or> supply_same vs ws obj field"
  shows "tracks vs ws cs (eval_name const obj field)"
  unfolding tracks_def
proof (intro allI impI)
  fix c :: "('a, 'b) eval_ctx"
  assume c: "evalVars c = Some vs" "evalConstants c = Some cs"
  show "eval_name const obj field (SetVars ws c) = apsnd (SetVars ws) (eval_name const obj field c) \<and>
      evalVars (snd (eval_name const obj field c)) = Some vs \<and>
      evalConstants (snd (eval_name const obj field c)) = Some cs"
  proof (cases "cs const")
    case (Some v)
    then show ?thesis using c by (simp add: eval_name_def SetVars_def assign_def)
  next
    case None
    then have s: "supply_same vs ws obj field" using assms by simp
    then obtain r v where "vs obj = Some r" "r field = Some v"
      by (auto simp: supply_same_def field_value_def split: option.splits)
    moreover from this s obtain r' where "ws obj = Some r'" "r' field = Some v"
      by (auto simp: supply_same_def field_value_def split: option.splits)
    ultimately show ?thesis using c None by (simp add: eval_name_def SetVars_def assign_def)
  qed
qed

lemma tracks_start:
  assumes "\<And>c1. f (SetVars ws c1) = apsnd (SetVars ws) (f c1) \<and> evalVars (snd (f c1)) = evalVars c1 \<and>
             evalConstants (snd (f c1)) = evalConstants c1"
  shows "tracks vs ws cs (\<lambda>c. case agg_start n t c of Inl e \<Rightarrow> ((VNil, Some e), c) | Inr c1 \<Rightarrow> f c1)"
proof -
  have s: "agg_start n t (SetVars ws c) = (case agg_start n t c of Inl e \<Rightarrow> Inl e | Inr c1 \<Rightarrow> Inr (SetVars ws c1))"
    "agg_start n t c = Inr c1 \<Longrightarrow> evalVars c1 = evalVars c \<and> evalConstants c1 = evalConstants c" for c c1
    by (auto simp: agg_start_def SetVars_def split: if_splits)
  show ?thesis unfolding tracks_def
  proof (intro allI impI)
    fix c :: "('a, 'b) eval_ctx"
    assume c: "evalVars c = Some vs" "evalConstants c = Some cs"
    show "(case agg_start n t (SetVars ws c) of Inl e \<Rightarrow> ((VNil, Some e), SetVars ws c) | Inr c1 \<Rightarrow> f c1) =
        apsnd (SetVars ws) (case agg_start n t c of Inl e \<Rightarrow> ((VNil, Some e), c) | Inr c1 \<Rightarrow> f c1) \<and>
        evalVars (snd (case agg_start n t c of Inl e \<Rightarrow> ((VNil, Some e), c) | Inr c1 \<Rightarrow> f c1)) = Some vs \<and>
        evalConstants (snd (case agg_start n t c of Inl e \<Rightarrow> ((VNil, Some e), c) | Inr c1 \<Rightarrow> f c1)) = Some cs"
      using s(1) [of c] s(2) [of c] assms c by (cases "agg_start n t c") auto
  qed
qed

lemma tracks_sum_inner: "tracks vs ws cs (callAggSumInternal N n args b)"
  unfolding callAggSumInternal_def [abs_def]
  by (cases "args ! 0"; simp add: castNumberToStandardType_def tracks_Pair;
      (rule tracks_start, simp add: SetVars_def Let_def)?)

lemma tracks_avg_inner: "tracks vs ws cs (callAggAvgInternal N n args b)"
  unfolding callAggAvgInternal_def [abs_def]
  by (cases "args ! 0"; simp add: castNumberToStandardType_def tracks_Pair;
      (rule tracks_start, simp add: SetVars_def Let_def split: option.split)?)

lemma tracks_min_inner: "tracks vs ws cs (callAggMinInternal N n args b)"
  unfolding callAggMinInternal_def [abs_def]
  by (cases "args ! 0"; simp add: castNumberToStandardType_def tracks_Pair;
      (rule tracks_start, simp add: SetVars_def Let_def)?)

lemma tracks_max_inner: "tracks vs ws cs (callAggMaxInternal N n args b)"
  unfolding callAggMaxInternal_def [abs_def]
  by (cases "args ! 0"; simp add: castNumberToStandardType_def tracks_Pair;
      (rule tracks_start, simp add: SetVars_def Let_def)?)

lemma tracks_count_inner: "tracks vs ws cs (callAggCountInternal b)"
  by (simp add: tracks_def callAggCountInternal_def SetVars_def Let_def)

lemma tracks_string_inner: "tracks vs ws cs (callAggStringAggInternal n args b)"
  unfolding callAggStringAggInternal_def [abs_def]
  by (cases "args ! 0") (simp_all add: tracks_def SetVars_def Let_def)

lemma tracks_agg_if: "(\<And>b. tracks vs ws cs (inner b)) \<Longrightarrow> tracks vs ws cs (call_agg_if n cond inner)"
  unfolding call_agg_if_def [abs_def] by (intro tracks_sum tracks_Pair)

lemma tracks_call_agg: "tracks vs ws cs inner \<Longrightarrow> tracks vs ws cs (call_agg n pos k m args inner)"
proof -
  assume i: "tracks vs ws cs inner"
  have "tracks vs ws cs (checkAgg n pos k)"
    by (auto simp: tracks_def checkAgg_def SetVars_def split: option.split)
  then have "tracks vs ws cs (\<lambda>c. case checkAgg n pos k c of (r, c1) \<Rightarrow> (case r of Some e \<Rightarrow> ((VNil, Some e), c1)
      | None \<Rightarrow> (case CheckArgs n m (length args) of Some e \<Rightarrow> ((VNil, Some e), c1) | None \<Rightarrow> inner c1)))"
    by (intro tracks_bind tracks_option tracks_Pair i)
  moreover have "call_agg n pos k m args inner = (\<lambda>c. case checkAgg n pos k c of (r, c1) \<Rightarrow> (case r of Some e \<Rightarrow> ((VNil, Some e), c1)
      | None \<Rightarrow> (case CheckArgs n m (length args) of Some e \<Rightarrow> ((VNil, Some e), c1) | None \<Rightarrow> inner c1)))"
    by (rule ext) (simp add: call_agg_def split: prod.split option.split)
  ultimately show ?thesis by simp
qed

lemmas tracks_inner = tracks_sum_inner tracks_avg_inner tracks_min_inner tracks_max_inner
  tracks_count_inner tracks_string_inner tracks_agg_if

lemma tracks_CallAgg:
  "tracks vs ws cs (CallAggStringAgg pos args)" "tracks vs ws cs (CallAggStringAggIf pos args)"
  "tracks vs ws cs (CallAggSum N pos args)" "tracks vs ws cs (CallAggSumIf N pos args)"
  "tracks vs ws cs (CallAggCount pos args)" "tracks vs ws cs (CallAggCountIf pos args)"
  "tracks vs ws cs (CallAggAvg N pos args)" "tracks vs ws cs (CallAggAvgIf N pos args)"
  "tracks vs ws cs (CallAggMin N pos args)" "tracks vs ws cs (CallAggMinIf N pos args)"
  "tracks vs ws cs (CallAggMax N pos args)" "tracks vs ws cs (CallAggMaxIf N pos args)"
  unfolding CallAgg_defs by (intro tracks_call_agg tracks_inner)+

lemma tracks_user: "tracks vs ws cs (user_func name args)"
  by (auto simp: tracks_def user_func_def SetVars_def fail_def split: option.split sum.split)

lemma tracks_store: "tracks vs ws cs f \<Longrightarrow> tracks vs ws cs (\<lambda>c. case f c of ((v, e), c1) \<Rightarrow> assign v e c1)"
  by (intro tracks_bind tracks_prod tracks_assign)

lemma tracks_EvalFunc: "tracks vs ws cs (EvalFunc N pos f args)"
proof (cases "StringToAggFunc f = AggUnknown")
  case True
  then have "EvalFunc N pos f args = user_func f args" by (intro ext EvalFunc_user)
  then show ?thesis by (simp add: tracks_user)
next
  case False
  then have "f = ''string_agg'' \<or> f = ''string_agg_if'' \<or> f = ''sum'' \<or> f = ''sum_if'' \<or> f = ''count'' \<or>
        f = ''count_if'' \<or> f = ''avg'' \<or> f = ''avg_if'' \<or> f = ''min_if'' \<or> f = ''min'' \<or>
        f = ''max'' \<or> f = ''max_if''"
    by (simp add: StringToAggFunc_def split: if_splits)
  then show ?thesis
    by (elim disjE) (simp_all only: EvalFunc_def [abs_def] Let_def list.inject char.inject simp_thms if_False if_True
      list.distinct tracks_store tracks_CallAgg)
qed

lemma tracks_call_named: "tracks vs ws cs (call_named N pos fn args)"
proof (cases fn)
  case (SelectorExpr x f)
  then show ?thesis unfolding call_named_def [abs_def]
    by (cases x) (simp_all add: tracks_store tracks_EvalFunc tracks_fail)
qed (simp_all add: call_named_def [abs_def] tracks_store tracks_EvalFunc tracks_fail)

text \<open>Every field that an evaluation can read was harvested.\<close>

definition supplied_refs :: "('f, 'd) var_values \<Rightarrow> ('f, 'd) var_values \<Rightarrow> field_ref list \<Rightarrow> bool" where
  "supplied_refs vs ws refs \<longleftrightarrow> (\<forall>fr\<in>set refs. supply_same vs ws (fr_TableName fr) (fr_FieldName fr))"

lemma supplied_refs_mono: "supplied_refs vs ws refs' \<Longrightarrow> set refs \<subseteq> set refs' \<Longrightarrow> supplied_refs vs ws refs"
  by (auto simp: supplied_refs_def)

lemma contribute_keeps: "set refs \<subseteq> set (contributeUnresolved t f refs)"
  by (auto simp: contributeUnresolved_def)

lemma contribute_supplies: "supplied_refs vs ws (contributeUnresolved t f refs) \<Longrightarrow> supply_same vs ws t f"
  by (fastforce simp: contributeUnresolved_def supplied_refs_def list_ex_iff split: if_splits)

lemma harvest_keeps:
  "harvestFieldRefsFromParsedExpression cs relaxed e refs = Inr refs' \<Longrightarrow> set refs \<subseteq> set refs'"
  "harvest_args cs relaxed es refs = Inr refs' \<Longrightarrow> set refs \<subseteq> set refs'"
proof (induction e and es arbitrary: refs refs' and refs refs' rule: agg_calls_agg_calls_list.induct)
  case (1 x op y)
  then show ?case unfolding harvestFieldRefsFromParsedExpression.simps bindr_Inr_conv by blast
next
  case (6 x sel)
  then show ?case using contribute_keeps [of refs] by (cases x) (auto split: if_splits)
next
  case (10 x xs)
  then show ?case unfolding harvest_args.simps bindr_Inr_conv by blast
qed (auto split: if_splits)

lemma harvest_tracks:
  assumes lits: "cs ''true'' \<noteq> None" "cs ''false'' \<noteq> None"
  shows "harvestFieldRefsFromParsedExpression cs False e refs = Inr refs' \<Longrightarrow> supplied_refs vs ws refs' \<Longrightarrow>
      tracks vs ws cs (Eval N e)"
    and "harvest_args cs False es refs = Inr refs' \<Longrightarrow> supplied_refs vs ws refs' \<Longrightarrow>
      tracks vs ws cs (eval_args N es)"
proof (induction e and es arbitrary: refs refs' and refs refs' rule: agg_calls_agg_calls_list.induct)
  case (1 x op y)
  then obtain r1 where h: "harvestFieldRefsFromParsedExpression cs False x refs = Inr r1"
    "harvestFieldRefsFromParsedExpression cs False y r1 = Inr refs'" by (auto simp: bindr_Inr_conv)
  have xy: "tracks vs ws cs (Eval N x)" "tracks vs ws cs (Eval N y)"
    using "1.IH"(1) [OF h(1) supplied_refs_mono [OF "1.prems"(2) harvest_keeps(1) [OF h(2)]]]
      "1.IH"(2) [OF h(2) "1.prems"(2)] by simp_all
  show ?case by (rule tracks_ext, rule Eval.simps) (intro tracks_intros tracks_binary_op xy)
next
  case (2 k s)
  have "tracks vs ws cs (eval_lit N k s)"
    by (cases k) (auto simp: tracks_def eval_lit_def assign_def fail_def SetVars_def
        split: prod.split option.split sum.split)
  then show ?case by (simp add: Eval_fun)
next
  case (3 op x)
  then have x: "tracks vs ws cs (Eval N x)" by simp
  show ?case by (rule tracks_ext, rule Eval.simps) (intro tracks_intros x)
next
  case (4 n)
  then have "cs n \<noteq> None" using lits by (auto split: if_splits)
  then show ?case by (simp add: Eval_fun tracks_name)
next
  case (5 pos fn args)
  then have a: "tracks vs ws cs (eval_args N args)" by simp
  show ?case by (rule tracks_ext, rule Eval.simps) (intro tracks_intros tracks_call_named a)
next
  case (6 x sel)
  show ?case
  proof (cases x)
    case (Ident obj)
    then have "cs (obj @ ''.'' @ sel) \<noteq> None \<or> supply_same vs ws obj sel"
      using 6 contribute_supplies by (auto split: if_splits)
    then show ?thesis using Ident by (intro tracks_ext [OF Eval.simps(6)]) (simp add: tracks_name)
  qed (use 6 in simp_all)
next
  case (10 x xs)
  then obtain r1 where h: "harvestFieldRefsFromParsedExpression cs False x refs = Inr r1"
    "harvest_args cs False xs r1 = Inr refs'" by (auto simp: bindr_Inr_conv)
  have xs: "tracks vs ws cs (Eval N x)" "tracks vs ws cs (eval_args N xs)"
    using "10.IH"(1) [OF h(1) supplied_refs_mono [OF "10.prems"(2) harvest_keeps(2) [OF h(2)]]]
      "10.IH"(2) [OF h(2) "10.prems"(2)] by simp_all
  show ?case by (rule tracks_ext, rule eval_args.simps) (intro tracks_intros xs)
qed (simp_all add: Eval_fun tracks_fail tracks_Pair)

text \<open>C23: The fields that the strict harvest finds in an expression are all that its evaluation reads:
  two sets of variables that supply the same values for them give the same value or error and, the
  variables apart, the same context.\<close>

theorem harvested_fields_suffice:
  assumes "ParseRawGolangExpressionStringAndHarvestFieldRefs parse consts s (Some []) = Inr (Some e, Some refs)"
    and "consts ''true'' \<noteq> None" "consts ''false'' \<noteq> None"
    and "evalVars c = Some vs" "evalConstants c = Some consts"
    and "\<forall>fr\<in>set refs. field_value vs (fr_TableName fr) (fr_FieldName fr) \<noteq> None \<and>
           field_value ws (fr_TableName fr) (fr_FieldName fr) = field_value vs (fr_TableName fr) (fr_FieldName fr)"
  shows "Eval N e (SetVars ws c) = apsnd (SetVars ws) (Eval N e c)"
proof -
  have "harvestFieldRefsFromParsedExpression consts False e [] = Inr refs"
    using assms(1) by (auto simp: ParseRawGolangExpressionStringAndHarvestFieldRefs_def parse_and_harvest_def
        bindr_Inr_conv split: if_splits sum.splits)
  then have "tracks vs ws consts (Eval N e)"
    using assms(6) by (intro harvest_tracks(1) [OF assms(2,3)]) (auto simp: supplied_refs_def supply_same_def)
  then show ?thesis using assms(4,5) by (simp add: tracks_def)
qed

lemma harvested_fields_suffice_witness:
  "Eval sample_ops (SelectorExpr (Ident ''r'') ''a'')
     (SetVars (set_var ''r'' ''a'' (VInt64 5) Map.empty)
       ((sample_ctx False 0)\<lparr>evalVars := Some (set_var ''r'' ''b'' (VInt64 9) (set_var ''r'' ''a'' (VInt64 5) Map.empty)),
          evalConstants := Some [''true'' \<mapsto> VBool True, ''false'' \<mapsto> VBool False]\<rparr>)) =
   apsnd (SetVars (set_var ''r'' ''a'' (VInt64 5) Map.empty))
     (Eval sample_ops (SelectorExpr (Ident ''r'') ''a'')
       ((sample_ctx False 0)\<lparr>evalVars := Some (set_var ''r'' ''b'' (VInt64 9) (set_var ''r'' ''a'' (VInt64 5) Map.empty)),
          evalConstants := Some [''true'' \<mapsto> VBool True, ''false'' \<mapsto> VBool False]\<rparr>))"
proof -
  have "TrimSpace ''r.a'' = ''r.a''" by code_simp
  then show ?thesis
    by (intro harvested_fields_suffice [where parse = "\<lambda>s. Inr (SelectorExpr (Ident ''r'') ''a'')" and s = "''r.a''"
        and refs = "[\<lparr>fr_TableName = ''r'', fr_FieldName = ''a'', fr_FieldType = FieldTypeUnknown\<rparr>]"
        and vs = "set_var ''r'' ''b'' (VInt64 9) (set_var ''r'' ''a'' (VInt64 5) Map.empty)"])
      (simp_all add: ParseRawGolangExpressionStringAndHarvestFieldRefs_def parse_and_harvest_def
        contributeUnresolved_def set_var_def field_value_def)
qed

end
