(* ===== verification/Keys.thy ===== *)
theory Keys
  imports Field_Refs
begin

text \<open>
  Index definitions (pkg/sc/index_def.go) and the key string of a record for an index
  (pkg/sc/key.go), and the order of those strings. The text of a float under the verb
  \<open>%.32f\<close> is the parameter \<open>fmt32\<close>, the removal of accents from a string is \<open>unaccent\<close>, and the
  upper case of a string that is not ASCII is \<open>upper\<close>.
\<close>

subsection \<open>Index definitions\<close>

datatype idx_sort_order = IdxSortAsc | IdxSortDesc | IdxSortUnknown
datatype idx_case = IdxCaseSensitive | IdxIgnoreCase | IdxCaseSensitivityUnknown
datatype idx_uniqueness = IdxUnique | IdxNonUnique | IdxUniquenessUnknown

definition DefaultStringComponentLen :: int where "DefaultStringComponentLen = 64"
definition MinStringComponentLen :: int where "MinStringComponentLen = 16"
definition MaxStringComponentLen :: int where "MaxStringComponentLen = 1024"

record idx_component =
  ic_FieldName :: string
  ic_CaseSensitivity :: idx_case
  ic_SortOrder :: idx_sort_order
  ic_StringLen :: int
  ic_FieldType :: field_type

record idx_def =
  idx_Uniqueness :: idx_uniqueness
  idx_Components :: "idx_component list"

definition getComponentFieldRefs :: "idx_def \<Rightarrow> string \<Rightarrow> field_ref list" where
  "getComponentFieldRefs idxDef tableName =
     map (\<lambda>c. \<lparr>fr_TableName = tableName, fr_FieldName = ic_FieldName c, fr_FieldType = ic_FieldType c\<rparr>)
       (idx_Components idxDef)"

definition new_component :: idx_component where
  "new_component = \<lparr>ic_FieldName = ''unknown_field_name'', ic_CaseSensitivity = IdxCaseSensitivityUnknown,
     ic_SortOrder = IdxSortUnknown, ic_StringLen = DefaultStringComponentLen, ic_FieldType = FieldTypeUnknown\<rparr>"

text \<open>One argument of a component: asc, desc, case_sensitive, ignore_case or a length.\<close>

definition modifier_step :: "idx_component \<Rightarrow> expr \<Rightarrow> goerr + idx_component" where
  "modifier_step idc m =
     (case m of
        Ident n \<Rightarrow>
          (if n = ''case_sensitive'' then Inr (idc\<lparr>ic_CaseSensitivity := IdxCaseSensitive\<rparr>)
           else if n = ''ignore_case'' then Inr (idc\<lparr>ic_CaseSensitivity := IdxIgnoreCase\<rparr>)
           else if n = ''asc'' then Inr (idc\<lparr>ic_SortOrder := IdxSortAsc\<rparr>)
           else if n = ''desc'' then Inr (idc\<lparr>ic_SortOrder := IdxSortDesc\<rparr>)
           else Inl (''unknown modifier '' @ n))
      | BasicLit TINT v \<Rightarrow>
          (if ic_FieldType idc \<noteq> FieldTypeString
           then Inl ''component length modifier is valid only for string fields''
           else let n = fst (ParseInt v)
                in if n < MinStringComponentLen then Inr (idc\<lparr>ic_StringLen := MinStringComponentLen\<rparr>)
                   else if n > MaxStringComponentLen
                   then Inl ''component length modifier for string fields cannot exceed the maximum''
                   else Inr (idc\<lparr>ic_StringLen := n\<rparr>))
      | BasicLit _ v \<Rightarrow> Inl ''expected an integer for string component length''
      | _ \<Rightarrow> Inl ''invalid expression, expected a modifier'')"

definition apply_modifier :: "idx_component \<Rightarrow> expr \<Rightarrow> goerr + idx_component" where
  "apply_modifier idc m =
     bindr (modifier_step idc m) (\<lambda>c.
       if ic_FieldType c \<noteq> FieldTypeString \<and> ic_CaseSensitivity c \<noteq> IdxCaseSensitivityUnknown
       then Inl ''index component cannot have case sensitivity modifier'' else Inr c)"

definition component_defaults :: "idx_component \<Rightarrow> idx_component" where
  "component_defaults idc =
     (let c1 = (if ic_FieldType idc = FieldTypeString \<and> ic_CaseSensitivity idc = IdxCaseSensitivityUnknown
                then idc\<lparr>ic_CaseSensitivity := IdxCaseSensitive\<rparr> else idc)
      in if ic_SortOrder c1 = IdxSortUnknown then c1\<lparr>ic_SortOrder := IdxSortAsc\<rparr> else c1)"

definition component_of :: "expr \<Rightarrow> field_ref list \<Rightarrow> goerr + idx_component" where
  "component_of fldExp refs =
     (case fldExp of
        CallExpr pos fn args \<Rightarrow>
          (case fn of
             Ident n \<Rightarrow>
               (case FindByFieldName n refs of
                  None \<Rightarrow> Inl (''cannot parse order component func expression, field unknown: '' @ n)
                | Some fr \<Rightarrow>
                    foldr_err apply_modifier
                      (new_component\<lparr>ic_FieldType := fr_FieldType fr, ic_FieldName := n\<rparr>) args)
           | _ \<Rightarrow> Inl ''cannot parse order component func expression, field is not an ident'')
      | Ident n \<Rightarrow>
          (case FindByFieldName n refs of
             None \<Rightarrow> Inl (''cannot parse order component ident expression, field unknown: '' @ n)
           | Some fr \<Rightarrow> Inr (new_component\<lparr>ic_FieldType := fr_FieldType fr, ic_FieldName := n\<rparr>))
      | _ \<Rightarrow> Inl ''invalid expression in index component definition'')"

definition parseComponentExpr :: "expr \<Rightarrow> field_ref list \<Rightarrow> idx_def \<Rightarrow> goerr + idx_def" where
  "parseComponentExpr fldExp refs idxDef =
     bindr (component_of fldExp refs)
       (\<lambda>c. Inr (idxDef\<lparr>idx_Components := idx_Components idxDef @ [component_defaults c]\<rparr>))"

text \<open>The components of one definition: an error is collected and the next one is parsed.\<close>

definition component_step ::
  "string \<Rightarrow> field_ref list \<Rightarrow> idx_def \<times> goerr list \<Rightarrow> expr \<Rightarrow> idx_def \<times> goerr list" where
  "component_step raw refs st fldExp =
     (case parseComponentExpr fldExp refs (fst st) of
        Inl e \<Rightarrow> (fst st, snd st @ [''index '' @ raw @ '': ['' @ e @ '']''])
      | Inr d \<Rightarrow> (d, snd st))"

definition raw_index_step ::
  "(string \<Rightarrow> goerr + expr) \<Rightarrow> field_ref list \<Rightarrow> (string \<times> idx_def) list \<times> goerr list \<Rightarrow> string \<times> string \<Rightarrow>
     goerr + (string \<times> idx_def) list \<times> goerr list" where
  "raw_index_step parse refs st p =
     (case parse (snd p) of
        Inl e \<Rightarrow> Inl (''cannot parse order def: '' @ e)
      | Inr ex \<Rightarrow>
          (case ex of
             CallExpr pos fn args \<Rightarrow>
               (case fn of
                  Ident n \<Rightarrow>
                    bindr (if n = ''unique'' then Inr IdxUnique
                           else if n = ''non_unique'' then Inr IdxNonUnique
                           else Inl (''cannot parse index def: expected unique() or non_unique(), found '' @ n))
                      (\<lambda>u. let (d, es) = foldl (component_step (snd p) refs)
                                           (\<lparr>idx_Uniqueness = u, idx_Components = []\<rparr>, snd st) args
                           in Inr (AList.update (fst p) d (fst st), es))
                | _ \<Rightarrow> Inl ''cannot parse call exp, expected ident'')
           | _ \<Rightarrow> Inl ''cannot parse index def: found unknown expression''))"

definition parseRawIndexDefMap ::
  "(string \<Rightarrow> goerr + expr) \<Rightarrow> (string \<times> string) list \<Rightarrow> field_ref list \<Rightarrow> (string \<times> idx_def) list \<Rightarrow>
     goerr + (string \<times> idx_def) list" where
  "parseRawIndexDefMap parse raws refs m =
     bindr (foldr_err (raw_index_step parse refs) (m, []) raws)
       (\<lambda>(m', es). if length es > 0 then Inl (''cannot parse order definitions: ['' @ Join es ''; '' @ '']'')
                   else Inr m')"

subsection \<open>Keys\<close>

definition BeginningOfTimeMicro :: int where
  "BeginningOfTimeMicro = -62135596800000000"

text \<open>The sign, which is part of the key, and the value without it; \<open>-n\<close> of the least int64 is itself.\<close>

definition getNumericValueSign ::
  "('f, 'd) numops \<Rightarrow> ('f, 'd) gval \<Rightarrow> field_type \<Rightarrow> goerr + string \<times> ('f, 'd) gval" where
  "getNumericValueSign N v t =
     (case t of
        FieldTypeInt \<Rightarrow>
          (case v of
             VInt64 n \<Rightarrow> Inr (if n \<ge> 0 then (''0'', VInt64 n) else (''-'', VInt64 (wrap64 (- n))))
           | _ \<Rightarrow> Inl ''cannot convert value to type int'')
      | FieldTypeFloat \<Rightarrow>
          (case v of
             VFloat64 f \<Rightarrow> Inr (if f_le N (f_of_int N 0) f then (''0'', VFloat64 f) else (''-'', VFloat64 (f_neg N f)))
           | _ \<Rightarrow> Inl ''cannot convert value to type float'')
      | FieldTypeDecimal2 \<Rightarrow>
          (case v of
             VDec d \<Rightarrow> Inr (if d_cmp N d (d_of_int N 0) \<ge> 0 then (''0'', VDec d) else (''-'', VDec (d_neg N d)))
           | _ \<Rightarrow> Inl ''cannot convert value to type decimal2'')
      | _ \<Rightarrow> Inl ''cannot convert value, type not supported'')"

definition flip_char :: "char \<Rightarrow> char" where
  "flip_char c = (if is_digit c then char_of (105 - (of_char c :: nat)) else c)"

definition flip_digits :: "string \<Rightarrow> string" where
  "flip_digits s = map flip_char s"

definition signed_key :: "string \<Rightarrow> string \<Rightarrow> string" where
  "signed_key sign s = (if sign = ''-'' then flip_digits s else s)"

text \<open>The verb \<open>%66s\<close>, with the padding then made zeros.\<close>

definition pad_left :: "nat \<Rightarrow> string \<Rightarrow> string" where
  "pad_left w s = replicate (w - length s) (CHR '' '') @ s"

definition float_key :: "string \<Rightarrow> string \<Rightarrow> string" where
  "float_key sign s = signed_key sign (ReplaceAll (sign @ pad_left 66 s) '' '' ''0'')"

definition UnixMicro :: "gotime \<Rightarrow> int" where
  "UnixMicro t = wrap64 (t div 1000)"

text \<open>The runes of a valid UTF-8 string: the bytes that do not continue another.\<close>

definition rune_count :: "string \<Rightarrow> nat" where
  "rune_count s = length (filter (\<lambda>c. (of_char c :: nat) < 128 \<or> (of_char c :: nat) \<ge> 192) s)"

definition pad_right :: "nat \<Rightarrow> string \<Rightarrow> string" where
  "pad_right w s = s @ replicate (w - rune_count s) (CHR '' '')"

definition is_ascii :: "string \<Rightarrow> bool" where
  "is_ascii s = list_all (\<lambda>c. (of_char c :: nat) < 128) s"

definition upper_char :: "char \<Rightarrow> char" where
  "upper_char c = (let n = of_char c :: nat in if 97 \<le> n \<and> n \<le> 122 then char_of (n - 32) else c)"

definition ToUpper :: "(string \<Rightarrow> string) \<Rightarrow> string \<Rightarrow> string" where
  "ToUpper upper s = (if is_ascii s then map upper_char s else upper s)"

definition hex_digit :: "nat \<Rightarrow> char" where
  "hex_digit d = (if d < 10 then char_of (48 + d) else char_of (87 + d))"

definition hex_byte :: "char \<Rightarrow> string" where
  "hex_byte c = [hex_digit (of_char c div 16), hex_digit (of_char c mod 16)]"

definition EncodeToString :: "string \<Rightarrow> string" where
  "EncodeToString s = concat (map hex_byte s)"

definition desc_key :: "string \<Rightarrow> string" where
  "desc_key s = EncodeToString (map (\<lambda>c. char_of (255 - (of_char c :: nat))) s)"

text \<open>The value of one component as a string.\<close>

definition component_value ::
  "('f, 'd) numops \<Rightarrow> ('f \<Rightarrow> string) \<Rightarrow> (string \<Rightarrow> string) \<Rightarrow> (string \<Rightarrow> string) \<Rightarrow> idx_component \<Rightarrow>
     ('f, 'd) gval \<Rightarrow> goerr + string" where
  "component_value N fmt32 unaccent upper idc v =
     (case ic_FieldType idc of
        FieldTypeInt \<Rightarrow>
          bindr (getNumericValueSign N v FieldTypeInt) (\<lambda>(sign, absVal).
            Inr (signed_key sign (sign @ int_str0 20 (case absVal of VInt64 n \<Rightarrow> n | _ \<Rightarrow> 0))))
      | FieldTypeFloat \<Rightarrow>
          bindr (getNumericValueSign N v FieldTypeFloat) (\<lambda>(sign, absVal).
            Inr (float_key sign (fmt32 (case absVal of VFloat64 f \<Rightarrow> f | _ \<Rightarrow> f_of_int N 0))))
      | FieldTypeDecimal2 \<Rightarrow>
          bindr (getNumericValueSign N v FieldTypeDecimal2) (\<lambda>(sign, absVal).
            (case absVal of
               VDec d \<Rightarrow> Inr (float_key sign (fmt32 (d_to_float N d)))
             | _ \<Rightarrow> Inl ''unexpectedly cannot convert value to type decimal2''))
      | FieldTypeDateTime \<Rightarrow>
          (case v of
             VTime t \<Rightarrow> Inr (int_str0 20 (wrap64 (UnixMicro t - BeginningOfTimeMicro)))
           | _ \<Rightarrow> Inl ''cannot convert value to type datetime'')
      | FieldTypeString \<Rightarrow>
          (case v of
             VStr s \<Rightarrow>
               (let w = nat (ic_StringLen idc); s1 = take w (pad_right w (unaccent s))
                in Inr (if ic_CaseSensitivity idc = IdxIgnoreCase then ToUpper upper s1 else s1))
           | _ \<Rightarrow> Inl ''cannot convert value to type string'')
      | FieldTypeBool \<Rightarrow>
          (case v of VBool b \<Rightarrow> Inr (if b then ''T'' else ''F'') | _ \<Rightarrow> Inl ''cannot convert value to type bool'')
      | FieldTypeUnknown \<Rightarrow> Inl ''cannot build key, unsupported field data type'')"

definition component_key ::
  "('f, 'd) numops \<Rightarrow> ('f \<Rightarrow> string) \<Rightarrow> (string \<Rightarrow> string) \<Rightarrow> (string \<Rightarrow> string) \<Rightarrow> ('f, 'd) row \<Rightarrow>
     idx_component \<Rightarrow> goerr + string" where
  "component_key N fmt32 unaccent upper fieldMap idc =
     (case fieldMap (ic_FieldName idc) of
        None \<Rightarrow> Inl (''cannot find value for field '' @ ic_FieldName idc)
      | Some v \<Rightarrow>
          bindr (component_value N fmt32 unaccent upper idc v)
            (\<lambda>s. Inr (if ic_SortOrder idc = IdxSortDesc then desc_key s else s)))"

definition BuildKey ::
  "('f, 'd) numops \<Rightarrow> ('f \<Rightarrow> string) \<Rightarrow> (string \<Rightarrow> string) \<Rightarrow> (string \<Rightarrow> string) \<Rightarrow> ('f, 'd) row \<Rightarrow> idx_def \<Rightarrow>
     goerr + string" where
  "BuildKey N fmt32 unaccent upper fieldMap idxDef =
     foldr_err (\<lambda>buf idc. bindr (component_key N fmt32 unaccent upper fieldMap idc) (\<lambda>s. Inr (buf @ s)))
       [] (idx_Components idxDef)"

subsection \<open>The order of keys\<close>

text \<open>What an index needs of the string of a component: a fixed length and the order of the values.\<close>

locale fixed_code =
  fixes enc :: "'v \<Rightarrow> string" and ok :: "'v \<Rightarrow> bool" and below :: "'v \<Rightarrow> 'v \<Rightarrow> bool" and len :: nat
  assumes enc_length: "ok v \<Longrightarrow> length (enc v) = len"
    and enc_less: "ok v \<Longrightarrow> ok w \<Longrightarrow> enc v < enc w \<longleftrightarrow> below v w"
begin

lemma enc_eq: "ok v \<Longrightarrow> ok w \<Longrightarrow> enc v = enc w \<longleftrightarrow> \<not> below v w \<and> \<not> below w v"
  using enc_less [of v w] enc_less [of w v] by (metis less_irrefl linorder_less_linear)

lemma append_less:
  assumes "ok v" "ok w"
  shows "enc v @ s < enc w @ t \<longleftrightarrow> below v w \<or> \<not> below w v \<and> s < t"
  using list_less_append [of "enc v" "enc w" s t] enc_length assms enc_less [of v w] enc_less [of w v]
    enc_eq [of v w] by auto

end

text \<open>Bytes in hexadecimal keep their order; complemented they reverse it.\<close>

lemma hex_digit_less: "d < 16 \<Longrightarrow> e < 16 \<Longrightarrow> hex_digit d < hex_digit e \<longleftrightarrow> d < e"
  by (auto simp: hex_digit_def less_char_def)

lemma hex_digit_eq: "d < 16 \<Longrightarrow> e < 16 \<Longrightarrow> hex_digit d = hex_digit e \<longleftrightarrow> d = e"
  using hex_digit_less by (metis less_irrefl linorder_neqE_nat)

lemma hex_byte_less: "hex_byte c < hex_byte d \<longleftrightarrow> c < d"
proof -
  let ?m = "of_char c :: nat" and ?n = "of_char d :: nat"
  have b: "?m div 16 < 16" "?n div 16 < 16"
    using of_char_of [of ?m] by (simp_all add: less_mult_imp_div_less)
  have "hex_byte c < hex_byte d \<longleftrightarrow>
      ?m div 16 < ?n div 16 \<or> ?m div 16 = ?n div 16 \<and> ?m mod 16 < ?n mod 16"
    using b by (simp add: hex_byte_def Cons_less_Cons hex_digit_less hex_digit_eq)
  also have "\<dots> \<longleftrightarrow> ?m < ?n"
  proof -
    have "?m = 16 * (?m div 16) + ?m mod 16" "?n = 16 * (?n div 16) + ?n mod 16"
      "?m mod 16 < 16" "?n mod 16 < 16" by simp_all
    then show ?thesis by linarith
  qed
  finally show ?thesis by (simp add: less_char_def)
qed

lemma hex_byte_eq: "hex_byte c = hex_byte d \<longleftrightarrow> c = d"
  using hex_byte_less [of c d] hex_byte_less [of d c] by (metis less_irrefl linorder_less_linear)

lemma length_desc_key [simp]: "length (desc_key s) = 2 * length s"
  by (induction s) (simp_all add: desc_key_def EncodeToString_def hex_byte_def)

lemma complement_less:
  "char_of (255 - (of_char c :: nat)) < (char_of (255 - (of_char d :: nat)) :: char) \<longleftrightarrow> d < c"
proof -
  have "255 - x < 255 - y \<longleftrightarrow> y < x" if "x < 256" "y < 256" for x y :: nat using that by linarith
  from this [of "of_char c" "of_char d"] show ?thesis by (simp add: less_char_def)
qed

lemma desc_key_less: "length a = length b \<Longrightarrow> desc_key a < desc_key b \<longleftrightarrow> b < a"
proof (induction a b rule: list_induct2)
  case (Cons c a d b)
  let ?f = "\<lambda>c. char_of (255 - (of_char c :: nat)) :: char"
  have k: "desc_key (x # s) = hex_byte (?f x) @ desc_key s" for x s
    by (simp add: desc_key_def EncodeToString_def)
  have e: "hex_byte (?f c) = hex_byte (?f d) \<longleftrightarrow> c = d"
    using complement_less [of c d] complement_less [of d c] hex_byte_eq
    by (metis less_irrefl linorder_less_linear)
  have "desc_key (c # a) < desc_key (d # b) \<longleftrightarrow>
      hex_byte (?f c) < hex_byte (?f d) \<or> hex_byte (?f c) = hex_byte (?f d) \<and> desc_key a < desc_key b"
    unfolding k by (rule list_less_append) (simp add: hex_byte_def)
  then show ?case using Cons.IH e by (auto simp: hex_byte_less complement_less Cons_less_Cons)
qed (simp add: desc_key_def EncodeToString_def)

text \<open>A component sorted in either direction.\<close>

locale sort_code = asc: fixed_code enc ok below len
  for enc :: "'v \<Rightarrow> string" and ok and below and len

sublocale sort_code \<subseteq> desc: fixed_code "\<lambda>v. desc_key (enc v)" ok "\<lambda>v w. below w v" "2 * len"
  using asc.enc_length asc.enc_less by unfold_locales (simp_all add: desc_key_less)

text \<open>Integers.\<close>

lemma flip_digit_char: "d < 10 \<Longrightarrow> flip_char (digit_char d) = digit_char (9 - d)"
  by (simp add: flip_char_def is_digit_def digit_char_def)

lemma flip_digits_digits: "n < 10 ^ w \<Longrightarrow> flip_digits (digits w n) = digits w (10 ^ w - 1 - n)"
proof (induction w arbitrary: n)
  case (Suc w)
  let ?m = "10 ^ Suc w - 1 - n"
  have n: "n div 10 < 10 ^ w" using Suc.prems by auto
  have "?m div 10 = 10 ^ w - 1 - n div 10" "?m mod 10 = 9 - n mod 10"
  proof -
    have "10 ^ Suc w - 1 - n = 10 * (10 ^ w - 1 - n div 10) + (9 - n mod 10)"
      using n by (simp add: algebra_simps)
    moreover have "(10 * q + r) div 10 = q" "(10 * q + r) mod 10 = r" if "r < 10" for q r :: nat
      using that by simp_all
    moreover have "9 - n mod 10 < 10" by simp
    ultimately show "?m div 10 = 10 ^ w - 1 - n div 10" "?m mod 10 = 9 - n mod 10" by metis+
  qed
  then show ?case using Suc.IH [OF n] by (simp add: flip_digits_def flip_digit_char)
qed (simp add: flip_digits_def)

definition int_key :: "int \<Rightarrow> string" where
  "int_key n = (if n \<ge> 0 then ''0'' @ int_str0 20 n else flip_digits (''-'' @ int_str0 20 (wrap64 (- n))))"

lemma int_key_cases:
  assumes "in_range 64 n"
  shows "0 \<le> n \<Longrightarrow> int_key n = ''0'' @ digits 20 (nat n)"
    and "n < 0 \<Longrightarrow> n \<noteq> - (2 ^ 63) \<Longrightarrow> int_key n = ''-'' @ digits 20 (10 ^ 20 - 1 - nat (- n))"
    and "n = - (2 ^ 63) \<Longrightarrow> int_key n = ''--'' @ digits 19 (10 ^ 19 - 1 - 2 ^ 63)"
proof -
  assume n: "0 \<le> n"
  moreover have "nat n < 10 ^ 20" using assms n by (simp add: in_range_def nat_less_iff)
  ultimately show "int_key n = ''0'' @ digits 20 (nat n)" by (simp add: int_key_def int_str0_def pad0_digits)
next
  assume n: "n < 0" "n \<noteq> - (2 ^ 63)"
  have w: "wrap64 (- n) = - n" using assms n by (intro wrap_id) (auto simp: in_range_def)
  have "nat (- n) < 10 ^ 20" using assms n by (simp add: in_range_def nat_less_iff)
  then have "int_str0 20 (- n) = digits 20 (nat (- n))" "flip_digits (digits 20 (nat (- n))) = digits 20 (10 ^ 20 - 1 - nat (- n))"
    using n by (simp_all add: int_str0_def pad0_digits flip_digits_digits)
  then show "int_key n = ''-'' @ digits 20 (10 ^ 20 - 1 - nat (- n))"
    using n by (simp add: int_key_def w flip_digits_def flip_char_def is_digit_def)
next
  assume n: "n = - (2 ^ 63)"
  have "wrap64 (- n) = - (2 ^ 63)" by (simp add: n wrap_def)
  moreover have "pad0 19 (nat_str (2 ^ 63)) = digits 19 (2 ^ 63)" by (rule pad0_digits) simp_all
  moreover have "flip_digits (digits 19 (2 ^ 63)) = digits 19 (10 ^ 19 - 1 - 2 ^ 63)"
    by (rule flip_digits_digits) simp
  ultimately show "int_key n = ''--'' @ digits 19 (10 ^ 19 - 1 - 2 ^ 63)"
    using n by (simp add: int_key_def int_str0_def flip_digits_def flip_char_def is_digit_def)
qed

lemma length_int_key: "in_range 64 n \<Longrightarrow> length (int_key n) = 21"
  using int_key_cases [of n] by (cases "0 \<le> n"; cases "n = - (2 ^ 63)") simp_all

lemma digit_not_below_minus: "\<not> digits (Suc w) n < CHR ''-'' # s" "CHR ''-'' # s < digits (Suc w) n"
proof -
  have m: "CHR ''-'' < digit_char d" if "d < 10" for d
    using that by (simp add: digit_char_def less_char_def)
  have "\<exists>d r. d < 10 \<and> digits (Suc w) n = digit_char d # r"
  proof (induction w arbitrary: n)
    case 0
    have "digits (Suc 0) n = [digit_char (n mod 10)]" by simp
    then show ?case by (metis mod_less_divisor zero_less_numeral)
  next
    case (Suc w)
    then obtain d r where "d < 10" "digits (Suc w) (n div 10) = digit_char d # r" by blast
    then show ?case by (subst digits.simps) auto
  qed
  then obtain d r where "d < 10" "digits (Suc w) n = digit_char d # r" by blast
  then show "\<not> digits (Suc w) n < CHR ''-'' # s" "CHR ''-'' # s < digits (Suc w) n"
    using m [of d] by (auto simp: Cons_less_Cons)
qed

lemma int_key_less:
  assumes "in_range 64 a" "in_range 64 b"
  shows "int_key a < int_key b \<longleftrightarrow> a < b"
proof -
  note ka = int_key_cases [OF assms(1)] and kb = int_key_cases [OF assms(2)]
  have bound: "nat x < 10 ^ 20" "10 ^ 20 - 1 - nat x < 10 ^ 20" if "x \<le> 2 ^ 63" for x
    using that by auto
  have below: "\<not> digits 20 n < CHR ''-'' # s" "CHR ''-'' # s < digits 20 n" for n s
    using digit_not_below_minus [where w = 19 and n = n and s = s] by (simp_all del: digits.simps)
  consider "0 \<le> a" "0 \<le> b" | "0 \<le> a" "b < 0" | "a < 0" "0 \<le> b"
    | "a < 0" "b < 0" "a \<noteq> - (2 ^ 63)" "b \<noteq> - (2 ^ 63)" | "a = - (2 ^ 63)" "b < 0" | "a < 0" "b = - (2 ^ 63)"
    by linarith
  then show ?thesis
  proof cases
    case 1
    then show ?thesis using ka(1) kb(1) digits_less [OF bound(1) [of a] bound(1) [of b]] assms
      by (auto simp: in_range_def Cons_less_Cons)
  next
    case 2
    then show ?thesis using ka(1) kb(2,3)
      by (cases "b = - (2 ^ 63)") (simp_all add: Cons_less_Cons less_char_def)
  next
    case 3
    then show ?thesis using ka(2,3) kb(1)
      by (cases "a = - (2 ^ 63)") (simp_all add: Cons_less_Cons less_char_def)
  next
    case 4
    then have le: "- a \<le> 2 ^ 63" "- b \<le> 2 ^ 63" using assms by (simp_all add: in_range_def)
    have "10 ^ 20 - 1 - nat (- a) < 10 ^ 20 - 1 - nat (- b) \<longleftrightarrow> a < b"
      using 4 bound(1) [OF le(1)] bound(1) [OF le(2)] by linarith
    then show ?thesis using 4 ka(2) kb(2) digits_less [OF bound(2) [OF le(1)] bound(2) [OF le(2)]]
      by (simp add: Cons_less_Cons)
  next
    case 5
    then show ?thesis using ka(3) kb(2,3) below(2) assms
      by (cases "b = - (2 ^ 63)") (simp_all add: Cons_less_Cons in_range_def)
  next
    case 6
    then show ?thesis using ka(2,3) kb(3) below(1) assms
      by (cases "a = - (2 ^ 63)") (simp_all add: Cons_less_Cons in_range_def)
  qed
qed

text \<open>The text of a string component, and the values for which a component has its fixed length.\<close>

definition string_key :: "(string \<Rightarrow> string) \<Rightarrow> (string \<Rightarrow> string) \<Rightarrow> idx_component \<Rightarrow> string \<Rightarrow> string" where
  "string_key unaccent upper idc s =
     (let s1 = take (nat (ic_StringLen idc)) (pad_right (nat (ic_StringLen idc)) (unaccent s))
      in if ic_CaseSensitivity idc = IdxIgnoreCase then ToUpper upper s1 else s1)"

definition time_ok :: "gotime \<Rightarrow> bool" where
  "time_ok t \<longleftrightarrow> 0 \<le> t div 1000 - BeginningOfTimeMicro \<and> t div 1000 - BeginningOfTimeMicro < 2 ^ 63"

definition proper ::
  "(string \<Rightarrow> string) \<Rightarrow> (string \<Rightarrow> string) \<Rightarrow> idx_component \<Rightarrow> ('f, 'd) gval \<Rightarrow> bool" where
  "proper unaccent upper idc v =
     (case ic_FieldType idc of
        FieldTypeInt \<Rightarrow> (case v of VInt64 n \<Rightarrow> in_range 64 n | _ \<Rightarrow> False)
      | FieldTypeBool \<Rightarrow> (case v of VBool _ \<Rightarrow> True | _ \<Rightarrow> False)
      | FieldTypeDateTime \<Rightarrow> (case v of VTime t \<Rightarrow> time_ok t | _ \<Rightarrow> False)
      | FieldTypeString \<Rightarrow>
          (case v of VStr s \<Rightarrow> length (string_key unaccent upper idc s) = nat (ic_StringLen idc) | _ \<Rightarrow> False)
      | _ \<Rightarrow> False)"

definition value_less ::
  "(string \<Rightarrow> string) \<Rightarrow> (string \<Rightarrow> string) \<Rightarrow> idx_component \<Rightarrow> ('f, 'd) gval \<Rightarrow> ('f, 'd) gval \<Rightarrow> bool" where
  "value_less unaccent upper idc v w =
     (case (v, w) of
        (VInt64 a, VInt64 b) \<Rightarrow> a < b
      | (VBool a, VBool b) \<Rightarrow> \<not> a \<and> b
      | (VTime a, VTime b) \<Rightarrow> a div 1000 < b div 1000
      | (VStr a, VStr b) \<Rightarrow> string_key unaccent upper idc a < string_key unaccent upper idc b
      | _ \<Rightarrow> False)"

definition key_length :: "idx_component \<Rightarrow> nat" where
  "key_length idc =
     (case ic_FieldType idc of FieldTypeInt \<Rightarrow> 21 | FieldTypeBool \<Rightarrow> 1 | FieldTypeDateTime \<Rightarrow> 20
      | _ \<Rightarrow> nat (ic_StringLen idc))"

text \<open>Strings have their length whenever no upper case beyond ASCII is involved.\<close>

lemma length_pad_right: "w \<le> length (pad_right w s)"
proof -
  have "rune_count s \<le> length s" by (simp add: rune_count_def)
  then show ?thesis by (simp add: pad_right_def)
qed

lemma string_proper:
  assumes "ic_FieldType idc = FieldTypeString"
    "ic_CaseSensitivity idc = IdxIgnoreCase \<Longrightarrow> is_ascii (unaccent s)"
  shows "proper unaccent upper idc (VStr s)"
proof -
  let ?w = "nat (ic_StringLen idc)"
  have l: "length (take ?w (pad_right ?w (unaccent s))) = ?w"
    using length_pad_right [of ?w "unaccent s"] by (simp add: min_absorb2)
  have "is_ascii (take ?w (pad_right ?w (unaccent s)))" if "is_ascii (unaccent s)"
    using that by (auto simp: is_ascii_def pad_right_def list_all_iff dest: in_set_takeD)
  then show ?thesis using l assms by (simp add: proper_def string_key_def Let_def ToUpper_def)
qed

definition component_code ::
  "('f, 'd) numops \<Rightarrow> ('f \<Rightarrow> string) \<Rightarrow> (string \<Rightarrow> string) \<Rightarrow> (string \<Rightarrow> string) \<Rightarrow> idx_component \<Rightarrow>
     ('f, 'd) gval \<Rightarrow> string" where
  "component_code N fmt32 unaccent upper idc v = projr (component_value N fmt32 unaccent upper idc v)"

lemma time_key:
  assumes "time_ok t"
  shows "int_str0 20 (wrap64 (UnixMicro t - BeginningOfTimeMicro)) =
    digits 20 (nat (t div 1000 - BeginningOfTimeMicro))"
proof -
  have "UnixMicro t = t div 1000" unfolding UnixMicro_def
    using assms by (intro wrap_id) (auto simp: time_ok_def in_range_def BeginningOfTimeMicro_def)
  moreover have "wrap64 (t div 1000 - BeginningOfTimeMicro) = t div 1000 - BeginningOfTimeMicro"
    using assms by (intro wrap_id) (auto simp: time_ok_def in_range_def)
  moreover have "nat (t div 1000 - BeginningOfTimeMicro) < 10 ^ 20" using assms by (auto simp: time_ok_def)
  ultimately show ?thesis using assms by (simp add: int_str0_def pad0_digits time_ok_def)
qed

lemma component_value_code:
  assumes "proper unaccent upper idc v"
  shows "component_value N fmt32 unaccent upper idc v = Inr (component_code N fmt32 unaccent upper idc v)"
    and "component_code N fmt32 unaccent upper idc v =
      (case v of VInt64 n \<Rightarrow> int_key n | VBool b \<Rightarrow> (if b then ''T'' else ''F'')
       | VTime t \<Rightarrow> digits 20 (nat (t div 1000 - BeginningOfTimeMicro)) | VStr s \<Rightarrow> string_key unaccent upper idc s
       | _ \<Rightarrow> [])"
  using assms
  by (cases "ic_FieldType idc"; cases v; simp add: proper_def component_code_def component_value_def
      getNumericValueSign_def int_key_def signed_key_def time_key string_key_def Let_def)+

text \<open>Every component type with exact text is a sort code on its proper values.\<close>

interpretation component: sort_code "component_code N fmt32 unaccent upper idc" "proper unaccent upper idc"
    "value_less unaccent upper idc" "key_length idc" for N fmt32 unaccent upper idc
proof unfold_locales
  fix v :: "('a, 'b) gval"
  assume v: "proper unaccent upper idc v"
  then show "length (component_code N fmt32 unaccent upper idc v) = key_length idc"
    unfolding component_value_code(2) [OF v]
    by (cases "ic_FieldType idc"; cases v) (auto simp: proper_def key_length_def length_int_key)
next
  fix v w :: "('a, 'b) gval"
  assume v: "proper unaccent upper idc v" and w: "proper unaccent upper idc w"
  have t: "digits 20 (nat (a div 1000 - BeginningOfTimeMicro)) < digits 20 (nat (b div 1000 - BeginningOfTimeMicro))
      \<longleftrightarrow> a div 1000 < b div 1000" if "time_ok a" "time_ok b" for a b
  proof -
    have "nat (a div 1000 - BeginningOfTimeMicro) < 10 ^ 20" "nat (b div 1000 - BeginningOfTimeMicro) < 10 ^ 20"
      using that by (auto simp: time_ok_def)
    from digits_less [OF this] show ?thesis using that by (auto simp: time_ok_def)
  qed
  show "component_code N fmt32 unaccent upper idc v < component_code N fmt32 unaccent upper idc w \<longleftrightarrow>
      value_less unaccent upper idc v w"
    unfolding component_value_code(2) [OF v] component_value_code(2) [OF w]
    using v w by (cases "ic_FieldType idc"; cases v; cases w)
      (auto simp: proper_def value_less_def int_key_less t less_char_def)
qed

text \<open>The order that an index definition asks for: component by component, each in its direction.\<close>

definition field_less ::
  "(string \<Rightarrow> string) \<Rightarrow> (string \<Rightarrow> string) \<Rightarrow> idx_component \<Rightarrow> ('f, 'd) row \<Rightarrow> ('f, 'd) row \<Rightarrow> bool" where
  "field_less unaccent upper idc f g =
     (let v = the (f (ic_FieldName idc)); w = the (g (ic_FieldName idc))
      in if ic_SortOrder idc = IdxSortDesc then value_less unaccent upper idc w v
         else value_less unaccent upper idc v w)"

fun record_less ::
  "(string \<Rightarrow> string) \<Rightarrow> (string \<Rightarrow> string) \<Rightarrow> idx_component list \<Rightarrow> ('f, 'd) row \<Rightarrow> ('f, 'd) row \<Rightarrow> bool" where
  "record_less unaccent upper [] f g = False"
| "record_less unaccent upper (c # cs) f g =
     (field_less unaccent upper c f g \<or>
      \<not> field_less unaccent upper c g f \<and> record_less unaccent upper cs f g)"

definition proper_record ::
  "(string \<Rightarrow> string) \<Rightarrow> (string \<Rightarrow> string) \<Rightarrow> idx_component list \<Rightarrow> ('f, 'd) row \<Rightarrow> bool" where
  "proper_record unaccent upper cs f \<longleftrightarrow>
     list_all (\<lambda>c. case f (ic_FieldName c) of None \<Rightarrow> False | Some v \<Rightarrow> proper unaccent upper c v) cs"

definition component_text ::
  "('f, 'd) numops \<Rightarrow> ('f \<Rightarrow> string) \<Rightarrow> (string \<Rightarrow> string) \<Rightarrow> (string \<Rightarrow> string) \<Rightarrow> ('f, 'd) row \<Rightarrow>
     idx_component \<Rightarrow> string" where
  "component_text N fmt32 unaccent upper f c =
     (let s = component_code N fmt32 unaccent upper c (the (f (ic_FieldName c)))
      in if ic_SortOrder c = IdxSortDesc then desc_key s else s)"

lemma component_text_less:
  assumes "proper_record unaccent upper [c] f" "proper_record unaccent upper [c] g"
  shows "component_text N fmt32 unaccent upper f c @ s < component_text N fmt32 unaccent upper g c @ t \<longleftrightarrow>
    field_less unaccent upper c f g \<or> \<not> field_less unaccent upper c g f \<and> s < t"
    and "length (component_text N fmt32 unaccent upper f c) =
      (if ic_SortOrder c = IdxSortDesc then 2 * key_length c else key_length c)"
proof -
  obtain v w where v: "f (ic_FieldName c) = Some v" "proper unaccent upper c v"
    and w: "g (ic_FieldName c) = Some w" "proper unaccent upper c w"
    using assms by (auto simp: proper_record_def split: option.splits)
  show "component_text N fmt32 unaccent upper f c @ s < component_text N fmt32 unaccent upper g c @ t \<longleftrightarrow>
    field_less unaccent upper c f g \<or> \<not> field_less unaccent upper c g f \<and> s < t"
    using v w component.asc.append_less [OF v(2) w(2), of N fmt32 s t]
      component.desc.append_less [OF v(2) w(2), of N fmt32 s t]
    by (simp add: component_text_def field_less_def Let_def)
  show "length (component_text N fmt32 unaccent upper f c) =
      (if ic_SortOrder c = IdxSortDesc then 2 * key_length c else key_length c)"
    using v component.asc.enc_length [OF v(2), of N fmt32]
    by (simp add: component_text_def Let_def)
qed

lemma BuildKey_text:
  assumes "proper_record unaccent upper (idx_Components d) f"
  shows "BuildKey N fmt32 unaccent upper f d =
    Inr (concat (map (component_text N fmt32 unaccent upper f) (idx_Components d)))"
proof -
  have "foldr_err (\<lambda>buf c. bindr (component_key N fmt32 unaccent upper f c) (\<lambda>s. Inr (buf @ s))) buf cs =
      Inr (buf @ concat (map (component_text N fmt32 unaccent upper f) cs))"
    if "proper_record unaccent upper cs f" for buf cs
    using that
  proof (induction cs arbitrary: buf)
    case (Cons c cs)
    then obtain v where v: "f (ic_FieldName c) = Some v" "proper unaccent upper c v"
      and cs: "proper_record unaccent upper cs f"
      by (auto simp: proper_record_def split: option.splits)
    have "component_key N fmt32 unaccent upper f c = Inr (component_text N fmt32 unaccent upper f c)"
      using v component_value_code(1) [OF v(2), of N fmt32]
      by (simp add: component_key_def component_text_def Let_def)
    then show ?case using Cons.IH [OF cs] by simp
  qed simp
  from this [OF assms, of "[]"] show ?thesis by (simp add: BuildKey_def)
qed

lemma record_keys:
  assumes "proper_record unaccent upper (idx_Components d) f" "proper_record unaccent upper (idx_Components d) g"
  shows "\<exists>k l. BuildKey N fmt32 unaccent upper f d = Inr k \<and> BuildKey N fmt32 unaccent upper g d = Inr l \<and>
    length k = length l \<and> (k < l \<longleftrightarrow> record_less unaccent upper (idx_Components d) f g)"
proof -
  let ?t = "component_text N fmt32 unaccent upper"
  have "length (concat (map (?t f) cs)) = length (concat (map (?t g) cs)) \<and>
      (concat (map (?t f) cs) < concat (map (?t g) cs) \<longleftrightarrow> record_less unaccent upper cs f g)"
    if "proper_record unaccent upper cs f" "proper_record unaccent upper cs g" for cs
    using that
  proof (induction cs)
    case (Cons c cs)
    then have c: "proper_record unaccent upper [c] f" "proper_record unaccent upper [c] g"
      and cs: "proper_record unaccent upper cs f" "proper_record unaccent upper cs g"
      by (simp_all add: proper_record_def)
    show ?case using component_text_less(2) [OF c(1) c(1)] component_text_less(2) [OF c(2) c(2)]
        component_text_less(1) [OF c] Cons.IH [OF cs] by simp
  qed simp
  from this [OF assms] show ?thesis using BuildKey_text [OF assms(1)] BuildKey_text [OF assms(2)] by blast
qed



subsection \<open>Parsed index definitions\<close>

definition component_ok :: "field_ref list \<Rightarrow> idx_component \<Rightarrow> bool" where
  "component_ok refs c \<longleftrightarrow>
     (\<exists>fr. FindByFieldName (ic_FieldName c) refs = Some fr \<and> fr_FieldType fr = ic_FieldType c) \<and>
     MinStringComponentLen \<le> ic_StringLen c \<and> ic_StringLen c \<le> MaxStringComponentLen \<and>
     (ic_FieldType c \<noteq> FieldTypeString \<longrightarrow> ic_CaseSensitivity c = IdxCaseSensitivityUnknown \<and>
        ic_StringLen c = DefaultStringComponentLen)"

lemma modifier_ok:
  assumes "apply_modifier c m = Inr c'" "component_ok refs c"
  shows "component_ok refs c'"
proof -
  have m: "modifier_step c m = Inr c'"
    and t: "ic_FieldType c' \<noteq> FieldTypeString \<longrightarrow> ic_CaseSensitivity c' = IdxCaseSensitivityUnknown"
    using assms(1) by (auto simp: apply_modifier_def bindr_Inr_conv split: if_splits)
  have "ic_FieldName c' = ic_FieldName c \<and> ic_FieldType c' = ic_FieldType c \<and>
      MinStringComponentLen \<le> ic_StringLen c' \<and> ic_StringLen c' \<le> MaxStringComponentLen \<and>
      (ic_FieldType c' \<noteq> FieldTypeString \<longrightarrow> ic_StringLen c' = ic_StringLen c)"
    using m assms(2)
    by (auto simp: modifier_step_def component_ok_def Let_def MinStringComponentLen_def MaxStringComponentLen_def
        split: expr.splits lit_kind.splits if_splits)
  then show ?thesis using t assms(2) by (auto simp: component_ok_def)
qed

definition index_ok :: "field_ref list \<Rightarrow> idx_def \<Rightarrow> bool" where
  "index_ok refs d \<longleftrightarrow> idx_Uniqueness d \<noteq> IdxUniquenessUnknown \<and>
     (\<forall>c\<in>set (idx_Components d). component_ok refs c \<and> ic_SortOrder c \<noteq> IdxSortUnknown \<and>
        (ic_FieldType c = FieldTypeString \<longleftrightarrow> ic_CaseSensitivity c \<noteq> IdxCaseSensitivityUnknown))"

lemma new_component_ok:
  "FindByFieldName n refs = Some fr \<Longrightarrow>
     component_ok refs (new_component\<lparr>ic_FieldType := fr_FieldType fr, ic_FieldName := n\<rparr>)"
  by (simp add: component_ok_def new_component_def MinStringComponentLen_def MaxStringComponentLen_def
      DefaultStringComponentLen_def)

lemma defaults_ok:
  assumes "component_ok refs c"
  shows "component_ok refs (component_defaults c) \<and> ic_SortOrder (component_defaults c) \<noteq> IdxSortUnknown \<and>
    (ic_FieldType (component_defaults c) = FieldTypeString \<longleftrightarrow>
       ic_CaseSensitivity (component_defaults c) \<noteq> IdxCaseSensitivityUnknown)"
  using assms by (auto simp: component_ok_def component_defaults_def Let_def)

lemma component_of_ok:
  assumes "component_of e refs = Inr c"
  shows "component_ok refs c"
proof (cases e)
  case (CallExpr pos fn args)
  then obtain n fr where "FindByFieldName n refs = Some fr"
    "foldr_err apply_modifier (new_component\<lparr>ic_FieldType := fr_FieldType fr, ic_FieldName := n\<rparr>) args = Inr c"
    using assms by (cases fn) (auto simp: component_of_def split: option.splits)
  then show ?thesis using foldr_err_inv [where P = "component_ok refs"] new_component_ok modifier_ok by blast
next
  case (Ident n)
  then show ?thesis using assms by (auto simp: component_of_def new_component_ok split: option.splits)
qed (use assms in \<open>simp_all add: component_of_def\<close>)

lemma parseComponentExpr_ok:
  assumes "parseComponentExpr e refs d = Inr d'" "index_ok refs d"
  shows "index_ok refs d'"
proof -
  obtain c where c: "component_ok refs c"
    and d': "d' = d\<lparr>idx_Components := idx_Components d @ [component_defaults c]\<rparr>"
    using assms(1) component_of_ok by (auto simp: parseComponentExpr_def bindr_Inr_conv)
  then show ?thesis using defaults_ok [OF c] assms(2) by (auto simp: index_ok_def)
qed

lemma set_alist_update: "(n, d) \<in> set (AList.update k e m) \<Longrightarrow> (n = k \<and> d = e) \<or> (n, d) \<in> set m"
  by (induction m) (auto split: if_splits)

lemma components_ok:
  "index_ok refs (fst st) \<Longrightarrow> index_ok refs (fst (foldl (component_step raw refs) st args))"
proof (induction args arbitrary: st)
  case (Cons a args)
  have "index_ok refs (fst (component_step raw refs st a))"
    using Cons.prems parseComponentExpr_ok by (auto simp: component_step_def split: sum.split)
  then show ?case using Cons.IH by simp
qed simp

text \<open>C22: The indexes that a script's definitions parse to are complete: each is unique or not, and
  each component is a field of the table with its type, in a definite direction, between 16 and 1024
  bytes for strings and 64 otherwise, with a case rule exactly for strings.\<close>

theorem parsed_indexes_are_complete:
  assumes "parseRawIndexDefMap parse raws refs [] = Inr m" "(name, d) \<in> set m"
  shows "idx_Uniqueness d \<noteq> IdxUniquenessUnknown \<and> name \<in> fst ` set raws \<and>
    (\<forall>c\<in>set (idx_Components d).
       (\<exists>fr. FindByFieldName (ic_FieldName c) refs = Some fr \<and> fr_FieldType fr = ic_FieldType c) \<and>
       ic_SortOrder c \<noteq> IdxSortUnknown \<and> 16 \<le> ic_StringLen c \<and> ic_StringLen c \<le> 1024 \<and>
       (ic_FieldType c \<noteq> FieldTypeString \<longrightarrow> ic_StringLen c = 64) \<and>
       (ic_FieldType c = FieldTypeString \<longleftrightarrow> ic_CaseSensitivity c \<noteq> IdxCaseSensitivityUnknown))"
proof -
  obtain es where f: "foldr_err (raw_index_step parse refs) ([], []) raws = Inr (m, es)"
    using assms(1) by (auto simp: parseRawIndexDefMap_def bindr_Inr_conv split: if_splits)
  have "\<forall>(n, d)\<in>set (fst (m, es)). index_ok refs d \<and> n \<in> fst ` set raws"
  proof (rule foldr_err_inv [OF f])
    fix st p st'
    assume p: "p \<in> set raws" and inv: "\<forall>(n, d)\<in>set (fst st). index_ok refs d \<and> n \<in> fst ` set raws"
      and st': "raw_index_step parse refs st p = Inr st'"
    obtain ex where ex: "parse (snd p) = Inr ex" using st' by (auto simp: raw_index_step_def split: sum.splits)
    then obtain pos n args where e: "ex = CallExpr pos (Ident n) args"
      using st' by (cases ex) (auto simp: raw_index_step_def split: expr.splits)
    obtain u where u: "u \<noteq> IdxUniquenessUnknown"
      and st: "st' = (case foldl (component_step (snd p) refs) (\<lparr>idx_Uniqueness = u, idx_Components = []\<rparr>, snd st) args
                      of (d, es) \<Rightarrow> (AList.update (fst p) d (fst st), es))"
    proof (cases "n = ''unique''")
      case True
      then show ?thesis using st' ex e that [of IdxUnique] by (simp add: raw_index_step_def Let_def split_def)
    next
      case False
      then have "n = ''non_unique''" using st' ex e by (auto simp: raw_index_step_def split: if_splits)
      then show ?thesis using st' ex e that [of IdxNonUnique] by (simp add: raw_index_step_def Let_def split_def)
    qed
    let ?r = "foldl (component_step (snd p) refs) (\<lparr>idx_Uniqueness = u, idx_Components = []\<rparr>, snd st) args"
    have "index_ok refs (fst ?r)" using u by (intro components_ok) (simp add: index_ok_def)
    moreover have "fst st' = AList.update (fst p) (fst ?r) (fst st)" using st by (simp add: split_def)
    ultimately show "\<forall>(n, d)\<in>set (fst st'). index_ok refs d \<and> n \<in> fst ` set raws"
      using inv p by (auto dest!: set_alist_update)
  qed simp
  then have "index_ok refs d" "name \<in> fst ` set raws" using assms(2) by auto
  then show ?thesis
    by (auto simp: index_ok_def component_ok_def MinStringComponentLen_def MaxStringComponentLen_def
        DefaultStringComponentLen_def)
qed

lemma parsed_indexes_are_complete_witness:
  "let f = \<lparr>fr_TableName = ''t'', fr_FieldName = ''b'', fr_FieldType = FieldTypeString\<rparr>;
       parse = (\<lambda>s. Inr (CallExpr 0 (Ident ''unique'') [CallExpr 1 (Ident ''b'') [Ident ''desc'', BasicLit TINT ''8'']]))
   in \<exists>d c. parseRawIndexDefMap parse [(''idx_b'', ''unique(b(desc,8))'')] [f] [] = Inr [(''idx_b'', d)] \<and>
        idx_Components d = [c] \<and> ic_StringLen c \<ge> 16 \<and> ic_SortOrder c = IdxSortDesc"
proof -
  let ?f = "\<lparr>fr_TableName = ''t'', fr_FieldName = ''b'', fr_FieldType = FieldTypeString\<rparr>"
  let ?parse = "\<lambda>s. Inr (CallExpr 0 (Ident ''unique'') [CallExpr 1 (Ident ''b'') [Ident ''desc'', BasicLit TINT ''8'']])"
  let ?c = "\<lparr>ic_FieldName = ''b'', ic_CaseSensitivity = IdxCaseSensitive, ic_SortOrder = IdxSortDesc,
    ic_StringLen = 16, ic_FieldType = FieldTypeString\<rparr>"
  have "fst (ParseInt ''8'') = 8" by code_simp
  then have p: "parseRawIndexDefMap ?parse [(''idx_b'', ''unique(b(desc,8))'')] [?f] [] =
      Inr [(''idx_b'', \<lparr>idx_Uniqueness = IdxUnique, idx_Components = [?c]\<rparr>)]"
    by (simp add: parseRawIndexDefMap_def raw_index_step_def component_step_def parseComponentExpr_def
        component_of_def FindByFieldName_def apply_modifier_def modifier_step_def new_component_def
        component_defaults_def MinStringComponentLen_def)
  have "16 \<le> ic_StringLen ?c"
    using parsed_indexes_are_complete [OF p, of "''idx_b''" "\<lparr>idx_Uniqueness = IdxUnique, idx_Components = [?c]\<rparr>"]
    by simp
  with p show ?thesis by simp
qed

end
