(* ===== verification/Lang.thy ===== *)
theory Lang
  imports Keys
begin

text \<open>
  What the definitions of a script share: the parts of the expression language that are supplied
  from outside (the parser, the arithmetic, the custom functions and the constants), the
  conversions of the Go library between text and values, the aliases of the tables
  (pkg/sc/script_node_def.go), and one evaluation of an expression in a fresh plain context.
\<close>

record ('f, 'd) lang =
  l_parse :: "string \<Rightarrow> goerr + expr"
  l_ops :: "('f, 'd) numops"
  l_funs :: "('f, 'd) eval_funs"
  l_consts :: "('f, 'd) eval_consts"
  l_now :: gotime

text \<open>
  strconv.ParseFloat, math.Round, time.Parse with a layout, inf.NewDec, and fmt.Sscanf with a
  format given by the script.
\<close>

record ('f, 'd) conversions =
  c_ParseFloat :: "string \<Rightarrow> goerr + 'f"
  c_Round :: "'f \<Rightarrow> 'f"
  c_ParseTime :: "string \<Rightarrow> string \<Rightarrow> goerr + gotime"
  c_NewDec :: "int \<Rightarrow> int \<Rightarrow> ('f, 'd) gval"
  c_SscanInt :: "string \<Rightarrow> string \<Rightarrow> goerr + int"
  c_SscanFloat :: "string \<Rightarrow> string \<Rightarrow> goerr + 'f"

definition ReaderAlias :: string where "ReaderAlias = ''r''"
definition CreatorAlias :: string where "CreatorAlias = ''w''"
definition LookupAlias :: string where "LookupAlias = ''l''"
definition CustomProcessorAlias :: string where "CustomProcessorAlias = ''p''"

text \<open>strconv.ParseBool.\<close>

definition ParseBool :: "string \<Rightarrow> goerr + bool" where
  "ParseBool s =
     (if s \<in> set [''1'', ''t'', ''T'', ''true'', ''TRUE'', ''True''] then Inr True
      else if s \<in> set [''0'', ''f'', ''F'', ''false'', ''FALSE'', ''False''] then Inr False
      else Inl ''strconv.ParseBool: invalid syntax'')"

text \<open>A parsed expression may be nil, which no case of Eval takes.\<close>

definition eval_opt ::
  "('f, 'd) numops \<Rightarrow> expr option \<Rightarrow> ('f, 'd) eval_ctx \<Rightarrow> ('f, 'd) eval_out" where
  "eval_opt N ex c =
     (case ex of None \<Rightarrow> ((VNil, Some ''cannot evaluate expression of unsupported type''), c)
      | Some e \<Rightarrow> Eval N e c)"

definition plain_ctx :: "('f, 'd) lang \<Rightarrow> ('f, 'd) var_values \<Rightarrow> ('f, 'd) eval_ctx" where
  "plain_ctx L vars = NewPlainEvalCtx (l_ops L) (l_funs L) (l_consts L) vars"

definition eval_plain ::
  "('f, 'd) lang \<Rightarrow> expr option \<Rightarrow> ('f, 'd) var_values \<Rightarrow> ('f, 'd) gval \<times> goerr option" where
  "eval_plain L ex vars = fst (eval_opt (l_ops L) ex (plain_ctx L vars))"

definition eval_round2 ::
  "('f, 'd) lang \<Rightarrow> expr option \<Rightarrow> ('f, 'd) var_values \<Rightarrow> ('f, 'd) gval \<times> goerr option" where
  "eval_round2 L ex vars = fst (eval_opt (l_ops L) ex (SetRoundDec 2 (plain_ctx L vars)))"

definition parse_exp ::
  "('f, 'd) lang \<Rightarrow> string \<Rightarrow> field_ref list \<Rightarrow> goerr + expr option \<times> field_ref list" where
  "parse_exp L raw used =
     bindr (ParseRawGolangExpressionStringAndHarvestFieldRefs (l_parse L) (l_consts L) raw (Some used))
       (\<lambda>(e, u). Inr (e, case u of None \<Rightarrow> used | Some u \<Rightarrow> u))"

text \<open>A condition: a boolean, or an error with one of the two texts of the caller.\<close>

definition eval_bool ::
  "('f, 'd) lang \<Rightarrow> string \<Rightarrow> string \<Rightarrow> expr option \<Rightarrow> ('f, 'd) var_values \<Rightarrow> goerr + bool" where
  "eval_bool L cannotEval noBool ex vars =
     (case eval_plain L ex vars of
        (_, Some e) \<Rightarrow> Inl (cannotEval @ '': ['' @ e @ '']'')
      | (VBool b, None) \<Rightarrow> Inr b
      | _ \<Rightarrow> Inl noBool)"

subsection \<open>The fields that matter\<close>

text \<open>Two sets of variables agree on the given references.\<close>

definition agree_on :: "('f, 'd) var_values \<Rightarrow> ('f, 'd) var_values \<Rightarrow> field_ref list \<Rightarrow> bool" where
  "agree_on vs ws refs \<longleftrightarrow> (\<forall>fr\<in>set refs. supply_same vs ws (fr_TableName fr) (fr_FieldName fr))"

definition lang_ok :: "('f, 'd) lang \<Rightarrow> bool" where
  "lang_ok L \<longleftrightarrow> l_consts L ''true'' \<noteq> None \<and> l_consts L ''false'' \<noteq> None"

lemma parse_exp_used:
  assumes "parse_exp L raw used = Inr (Some e, used')"
  shows "harvestFieldRefsFromParsedExpression (l_consts L) False e used = Inr used' \<and> l_parse L raw = Inr e"
  using assms
  by (auto simp: parse_exp_def ParseRawGolangExpressionStringAndHarvestFieldRefs_def parse_and_harvest_def
      bindr_Inr_conv split: if_splits sum.splits)

lemma parse_exp_none:
  assumes "parse_exp L raw used = Inr (None, used')"
  shows "used' = used \<and> TrimSpace raw = []"
  using assms
  by (auto simp: parse_exp_def ParseRawGolangExpressionStringAndHarvestFieldRefs_def parse_and_harvest_def
      bindr_Inr_conv split: if_splits sum.splits)

lemma eval_agree:
  assumes "lang_ok L" "parse_exp L raw used = Inr (e, used')" "agree_on vs ws used'"
  shows "eval_plain L e ws = eval_plain L e vs" "eval_round2 L e ws = eval_round2 L e vs"
proof -
  have "fst (eval_opt (l_ops L) e (SetRoundDec r (plain_ctx L ws))) =
      fst (eval_opt (l_ops L) e (SetRoundDec r (plain_ctx L vs)))" for r
  proof (cases e)
    case (Some x)
    have "tracks vs ws (l_consts L) (Eval (l_ops L) x)"
      using assms parse_exp_used [of L raw used x used'] Some unfolding lang_ok_def agree_on_def
      by (intro harvest_tracks(1) [of "l_consts L" x used used']) (simp_all add: supplied_refs_def)
    moreover have "SetRoundDec r (plain_ctx L ws) = SetVars ws (SetRoundDec r (plain_ctx L vs))"
      by (simp add: plain_ctx_def NewPlainEvalCtx_def SetRoundDec_def SetVars_def)
    ultimately show ?thesis using Some
      by (simp add: eval_opt_def tracks_def plain_ctx_def NewPlainEvalCtx_def SetRoundDec_def)
  qed (simp add: eval_opt_def)
  from this [of 2] this [of "-1"]
  show "eval_plain L e ws = eval_plain L e vs" "eval_round2 L e ws = eval_round2 L e vs"
    by (simp_all add: eval_plain_def eval_round2_def SetRoundDec_def plain_ctx_def NewPlainEvalCtx_def
        newPlainEvalCtxInternal_def)
qed

lemma eval_bool_agree:
  assumes "lang_ok L" "parse_exp L raw used = Inr (e, used')" "agree_on vs ws used'"
  shows "eval_bool L t1 t2 e ws = eval_bool L t1 t2 e vs"
  using eval_agree(1) [OF assms] by (simp add: eval_bool_def)

end
