(* ===== verification/Table_Creator.thy ===== *)
theory Table_Creator
  imports Lang Cql
begin

text \<open>
  The table that a node writes: its definition, the checks when it is read from a script, the
  defaults of its fields, and the record calculated for it (pkg/sc/table_creator_def.go,
  write_table_field_def.go). A Go map is a list of pairs in the order the code happens to iterate
  over it; what json.Unmarshal makes of the text is the argument of \<open>Deserialize\<close>.
\<close>

definition MaxTableNameLen :: nat where "MaxTableNameLen = 42"

record write_field =
  wf_RawExpression :: string
  wf_Type :: field_type
  wf_DefaultValue :: string
  wf_ParsedExpression :: "expr option"
  wf_UsedFields :: "field_ref list"

record table_creator =
  tc_Name :: string
  tc_CreateProperties :: string
  tc_RawHaving :: string
  tc_Having :: "expr option"
  tc_UsedInHavingFields :: "field_ref list"
  tc_UsedInTargetExpressionsFields :: "field_ref list"
  tc_Fields :: "(string \<times> write_field) list"
  tc_RawIndexes :: "(string \<times> string) list"
  tc_Indexes :: "(string \<times> idx_def) list"

definition GetFieldRefsUsedInAllTargetExpressions :: "(string \<times> write_field) list \<Rightarrow> field_ref list" where
  "GetFieldRefsUsedInAllTargetExpressions fieldDefs =
     map snd (fold add_hash (concat (map (wf_UsedFields \<circ> snd) fieldDefs)) [])"

text \<open>The loop keeps the name found so far; an empty name counts as none found.\<close>

definition unique_index_step ::
  "string \<times> idx_def option \<Rightarrow> string \<times> idx_def \<Rightarrow> goerr + string \<times> idx_def option" where
  "unique_index_step st p =
     (if idx_Uniqueness (snd p) = IdxUnique then
        (if length (fst st) > 0 then Inl ''cannot process distinct_table node configuration with more than one unique index''
         else Inr (fst p, Some (snd p)))
      else Inr st)"

definition GetSingleUniqueIndexDef :: "table_creator \<Rightarrow> goerr + string \<times> idx_def option" where
  "GetSingleUniqueIndexDef tc =
     bindr (foldr_err unique_index_step ('''', None) (tc_Indexes tc)) (\<lambda>st.
       if length (fst st) = 0 then Inl ''cannot process distinct_table node configuration with no unique indexes''
       else Inr st)"

definition GetFieldRefsWithAlias :: "string \<Rightarrow> table_creator \<Rightarrow> field_ref list" where
  "GetFieldRefsWithAlias useTableAlias tc =
     map (\<lambda>(fieldName, fieldDef).
            \<lparr>fr_TableName = (if length useTableAlias > 0 then useTableAlias else tc_Name tc),
             fr_FieldName = fieldName, fr_FieldType = wf_Type fieldDef\<rparr>) (tc_Fields tc)"

definition GetFieldRefs :: "table_creator \<Rightarrow> field_ref list" where
  "GetFieldRefs tc = GetFieldRefsWithAlias '''' tc"

subsection \<open>Names\<close>

definition word_char :: "char \<Rightarrow> bool" where
  "word_char c = (let n = of_char c :: nat in
     (65 \<le> n \<and> n \<le> 90) \<or> (97 \<le> n \<and> n \<le> 122) \<or> (48 \<le> n \<and> n \<le> 57) \<or> n = 95)"

text \<open>FindString of the three regular expressions: the leftmost match, "" if there is none.\<close>

definition find_prohibited :: "string \<Rightarrow> string" where
  "find_prohibited s =
     (if HasPrefix s ''idx'' then ''idx'' else if HasPrefix s ''wf'' then ''wf''
      else if HasPrefix s ''system'' then ''system'' else '''')"

definition find_allowed_table :: "string \<Rightarrow> string" where
  "find_allowed_table s = takeWhile word_char (dropWhile (\<lambda>c. \<not> word_char c) s)"

definition find_allowed_idx :: "string \<Rightarrow> string" where
  "find_allowed_idx s =
     (if HasPrefix s ''idx'' \<and> takeWhile word_char (drop 3 s) \<noteq> []
      then ''idx'' @ takeWhile word_char (drop 3 s) else '''')"

definition check_table_name :: "string \<Rightarrow> goerr option" where
  "check_table_name name =
     (if length (find_prohibited name) > 0 then Some (''invalid table name ['' @ name @ '']: prohibited regex'')
      else if length (find_allowed_table name) \<noteq> length name
      then Some (''invalid table name ['' @ name @ '']: allowed regex'')
      else if length name > MaxTableNameLen then Some (''table name ['' @ name @ ''] too long'')
      else None)"

definition check_idx_name :: "string \<Rightarrow> goerr option" where
  "check_idx_name name =
     (if length (find_allowed_idx name) \<noteq> length name
      then Some (''invalid index name ['' @ name @ '']: allowed regex'')
      else if length name > MaxTableNameLen then Some (''index name ['' @ name @ ''] too long'')
      else None)"

subsection \<open>Deserialize\<close>

definition parse_write_field ::
  "('f, 'd) lang \<Rightarrow> string \<times> write_field \<Rightarrow> goerr + string \<times> write_field" where
  "parse_write_field L p =
     (case parse_exp L (wf_RawExpression (snd p)) (wf_UsedFields (snd p)) of
        Inl e \<Rightarrow> Inl (''cannot parse field expression ['' @ wf_RawExpression (snd p) @ '']: ['' @ e @ '']'')
      | Inr (ex, used) \<Rightarrow>
          (if \<not> IsValidFieldType (wf_Type (snd p)) then Inl ''invalid field type''
           else Inr (fst p, (snd p)\<lparr>wf_ParsedExpression := ex, wf_UsedFields := used\<rparr>)))"

definition Deserialize_table_creator ::
  "('f, 'd) lang \<Rightarrow> goerr + table_creator \<Rightarrow> goerr + table_creator" where
  "Deserialize_table_creator L unmarshalled =
     (case unmarshalled of
        Inl e \<Rightarrow> Inl (''cannot unmarshal table creator: '' @ e)
      | Inr tc \<Rightarrow>
          (case check_table_name (tc_Name tc) of
             Some e \<Rightarrow> Inl e
           | None \<Rightarrow>
               (case parse_exp L (tc_RawHaving tc) (tc_UsedInHavingFields tc) of
                  Inl e \<Rightarrow> Inl (''cannot parse table creator 'having' condition: ['' @ e @ '']'')
                | Inr (having, usedInHaving) \<Rightarrow>
                    bindr (mapr (parse_write_field L) (tc_Fields tc)) (\<lambda>fieldDefs.
                      let tc1 = tc\<lparr>tc_Having := having, tc_UsedInHavingFields := usedInHaving, tc_Fields := fieldDefs,
                                   tc_UsedInTargetExpressionsFields := GetFieldRefsUsedInAllTargetExpressions fieldDefs\<rparr>
                      in bindr (parseRawIndexDefMap (l_parse L) (tc_RawIndexes tc1) (GetFieldRefs tc1) []) (\<lambda>idxs.
                           case List.find (\<lambda>n. check_idx_name n \<noteq> None) (map fst idxs) of
                             Some n \<Rightarrow> Inl (the (check_idx_name n))
                           | None \<Rightarrow> Inr (tc1\<lparr>tc_Indexes := idxs\<rparr>))))))"

subsection \<open>Defaults\<close>

definition GetFieldDefaultReadyForDb ::
  "('f, 'd) numops \<Rightarrow> ('f, 'd) conversions \<Rightarrow> string \<Rightarrow> table_creator \<Rightarrow> goerr + ('f, 'd) gval" where
  "GetFieldDefaultReadyForDb N C fieldName tc =
     (case map_of (tc_Fields tc) fieldName of
        None \<Rightarrow> Inl (''default for unknown field '' @ fieldName)
      | Some fd \<Rightarrow>
          (let s = TrimSpace (wf_DefaultValue fd);
               cannot = (\<lambda>what e. Inl (''cannot read '' @ what @ '' field '' @ fieldName @ '' from default value string: '' @ e))
           in case wf_Type fd of
                FieldTypeInt \<Rightarrow>
                  (if length s > 0 then
                     (case ParseInt s of (v, Some e) \<Rightarrow> cannot ''int64'' e | (v, None) \<Rightarrow> Inr (VInt64 v))
                   else Inr (VInt64 0))
              | FieldTypeFloat \<Rightarrow>
                  (if length s > 0 then
                     (case c_ParseFloat C s of Inl e \<Rightarrow> cannot ''float64'' e | Inr v \<Rightarrow> Inr (VFloat64 v))
                   else Inr (VFloat64 (f_of_int N 0)))
              | FieldTypeString \<Rightarrow> Inr (VStr (if length s > 0 then s else ''''))
              | FieldTypeDecimal2 \<Rightarrow>
                  (if length s > 0 then
                     (case c_ParseFloat C s of Inl e \<Rightarrow> cannot ''decimal2'' e
                      | Inr f \<Rightarrow> Inr (c_NewDec C (f_to_int N (c_Round C (f_mul N f (f_of_int N 100)))) 2))
                   else Inr (c_NewDec C 0 0))
              | FieldTypeBool \<Rightarrow>
                  (if length s > 0 then
                     (case ParseBool s of Inl e \<Rightarrow> cannot ''bool'' e | Inr v \<Rightarrow> Inr (VBool v))
                   else Inr (VBool False))
              | FieldTypeDateTime \<Rightarrow>
                  (if length s > 0 then
                     (case c_ParseTime C ''2006-01-02T15:04:05.000-07:00'' s of
                        Inl e \<Rightarrow> cannot ''time'' e | Inr v \<Rightarrow> Inr (VTime v))
                   else Inr (VTime zero_time))
              | FieldTypeUnknown \<Rightarrow> Inl ''GetFieldDefault unsupported field type''))"

subsection \<open>Records\<close>

definition CalculateFieldValue ::
  "('f, 'd) lang \<Rightarrow> string \<Rightarrow> write_field \<Rightarrow> ('f, 'd) var_values \<Rightarrow> goerr + ('f, 'd) gval" where
  "CalculateFieldValue L fieldName fd srcVars =
     (case eval_round2 L (wf_ParsedExpression fd) srcVars of
        (_, Some e) \<Rightarrow> Inl (''cannot evaluate expression for field '' @ fieldName @ '': ['' @ e @ '']'')
      | (v, None) \<Rightarrow>
          (case CheckValueType v (wf_Type fd) of
             Some e \<Rightarrow> Inl (''invalid field '' @ fieldName @ '' type: ['' @ e @ '']'')
           | None \<Rightarrow> Inr v))"

definition record_step ::
  "('f, 'd) lang \<Rightarrow> ('f, 'd) var_values \<Rightarrow> ('f, 'd) row \<times> goerr list \<Rightarrow> string \<times> write_field \<Rightarrow>
     ('f, 'd) row \<times> goerr list" where
  "record_step L srcVars st p =
     (case CalculateFieldValue L (fst p) (snd p) srcVars of
        Inl e \<Rightarrow> ((fst st)(fst p \<mapsto> VNil), snd st @ [e])
      | Inr v \<Rightarrow> ((fst st)(fst p \<mapsto> v), snd st))"

definition CalculateTableRecordFromSrcVars ::
  "('f, 'd) lang \<Rightarrow> ('f, 'd) var_values \<Rightarrow> table_creator \<Rightarrow> goerr + ('f, 'd) row" where
  "CalculateTableRecordFromSrcVars L srcVars tc =
     (case foldl (record_step L srcVars) (Map.empty, []) (tc_Fields tc) of
        (r, es) \<Rightarrow> (if length es > 0 then Inl (Join es ''; '') else Inr r))"

definition CheckTableRecordHavingCondition ::
  "('f, 'd) lang \<Rightarrow> ('f, 'd) row \<Rightarrow> table_creator \<Rightarrow> goerr + bool" where
  "CheckTableRecordHavingCondition L tableRecord tc =
     (case tc_Having tc of
        None \<Rightarrow> Inr True
      | Some h \<Rightarrow>
          eval_bool L ''cannot evaluate 'having' expression'' ''cannot get bool when evaluating having expression''
            (Some h) [CreatorAlias \<mapsto> tableRecord])"

subsection \<open>What an accepted definition guarantees\<close>

lemma takeWhile_all_length: "length (takeWhile P s) = length s \<Longrightarrow> \<forall>x\<in>set s. P x"
proof -
  assume "length (takeWhile P s) = length s"
  then have "takeWhile P s = s"
    by (metis append_Nil2 append_eq_append_conv takeWhile_dropWhile_id)
  then show ?thesis by (metis set_takeWhileD)
qed

lemma allowed_table_words: "length (find_allowed_table s) = length s \<Longrightarrow> \<forall>c\<in>set s. word_char c"
proof -
  assume l: "length (find_allowed_table s) = length s"
  have "length (find_allowed_table s) \<le> length (dropWhile (\<lambda>c. \<not> word_char c) s)"
    by (simp add: find_allowed_table_def length_takeWhile_le)
  then have "length (dropWhile (\<lambda>c. \<not> word_char c) s) = length s"
    using l length_dropWhile_le [of "\<lambda>c. \<not> word_char c" s] by linarith
  then have "dropWhile (\<lambda>c. \<not> word_char c) s = s"
    by (metis append_Nil append_eq_append_conv takeWhile_dropWhile_id)
  then show ?thesis using l takeWhile_all_length by (simp add: find_allowed_table_def)
qed

lemma table_name_ok:
  assumes "check_table_name name = None"
  shows "length name \<le> 42 \<and> (\<forall>c\<in>set name. word_char c) \<and> \<not> HasPrefix name ''idx'' \<and>
    \<not> HasPrefix name ''wf'' \<and> \<not> HasPrefix name ''system''"
  using assms allowed_table_words [of name]
  by (simp add: check_table_name_def find_prohibited_def MaxTableNameLen_def split: if_splits)

lemma idx_name_ok:
  assumes "check_idx_name name = None"
  shows "length name \<le> 42 \<and> (name \<noteq> [] \<longrightarrow> HasPrefix name ''idx'' \<and> (\<forall>c\<in>set (drop 3 name). word_char c))"
proof -
  have l: "length (find_allowed_idx name) = length name" "length name \<le> 42"
    using assms by (simp_all add: check_idx_name_def MaxTableNameLen_def split: if_splits)
  have "\<forall>c\<in>set (drop 3 name). word_char c" if "HasPrefix name ''idx''"
    "length (''idx'' @ takeWhile word_char (drop 3 name)) = length name"
  proof -
    have "\<exists>r. name = ''idx'' @ r" using that(1) by (simp only: HasPrefix_iff)
    then show ?thesis using that(2) takeWhile_all_length [of word_char] by auto
  qed
  then show ?thesis using l by (auto simp: find_allowed_idx_def split: if_splits)
qed

lemma table_idx_names_differ:
  "check_table_name t = None \<Longrightarrow> check_idx_name i = None \<Longrightarrow> i \<noteq> [] \<Longrightarrow> t \<noteq> i"
  using table_name_ok idx_name_ok by blast

definition table_creator_ok :: "('f, 'd) lang \<Rightarrow> table_creator \<Rightarrow> bool" where
  "table_creator_ok L tc \<longleftrightarrow>
     check_table_name (tc_Name tc) = None \<and>
     (\<forall>(n, fd)\<in>set (tc_Fields tc). wf_Type fd \<noteq> FieldTypeUnknown \<and>
        (\<exists>used. parse_exp L (wf_RawExpression fd) used = Inr (wf_ParsedExpression fd, wf_UsedFields fd))) \<and>
     (\<exists>used. parse_exp L (tc_RawHaving tc) used = Inr (tc_Having tc, tc_UsedInHavingFields tc)) \<and>
     tc_UsedInTargetExpressionsFields tc = GetFieldRefsUsedInAllTargetExpressions (tc_Fields tc) \<and>
     parseRawIndexDefMap (l_parse L) (tc_RawIndexes tc) (GetFieldRefs tc) [] = Inr (tc_Indexes tc) \<and>
     (\<forall>(n, d)\<in>set (tc_Indexes tc). check_idx_name n = None)"

lemma table_creator_ok_field:
  assumes "table_creator_ok L tc" "(n, fd) \<in> set (tc_Fields tc)"
  shows "\<exists>used. parse_exp L (wf_RawExpression fd) used = Inr (wf_ParsedExpression fd, wf_UsedFields fd)"
proof -
  have "\<forall>(n, fd)\<in>set (tc_Fields tc). wf_Type fd \<noteq> FieldTypeUnknown \<and>
      (\<exists>used. parse_exp L (wf_RawExpression fd) used = Inr (wf_ParsedExpression fd, wf_UsedFields fd))"
    using assms(1) unfolding table_creator_ok_def by (elim conjE)
  from bspec [OF this assms(2)] show ?thesis by simp
qed

lemma parse_write_field_ok:
  assumes "parse_write_field L p = Inr q"
  shows "fst q = fst p \<and> wf_Type (snd q) = wf_Type (snd p) \<and> wf_Type (snd q) \<noteq> FieldTypeUnknown \<and>
    wf_RawExpression (snd q) = wf_RawExpression (snd p) \<and>
    parse_exp L (wf_RawExpression (snd p)) (wf_UsedFields (snd p)) = Inr (wf_ParsedExpression (snd q), wf_UsedFields (snd q))"
  using assms by (auto simp: parse_write_field_def IsValidFieldType_def split: sum.splits if_splits)

lemma deserialized_ok:
  assumes "Deserialize_table_creator L (Inr raw) = Inr tc"
  shows "table_creator_ok L tc \<and> tc_Name tc = tc_Name raw \<and> map fst (tc_Fields tc) = map fst (tc_Fields raw) \<and>
    mapr (parse_write_field L) (tc_Fields raw) = Inr (tc_Fields tc) \<and>
    parse_exp L (tc_RawHaving raw) (tc_UsedInHavingFields raw) = Inr (tc_Having tc, tc_UsedInHavingFields tc)"
proof -
  obtain having used fieldDefs idxs where
    n: "check_table_name (tc_Name raw) = None" and
    h: "parse_exp L (tc_RawHaving raw) (tc_UsedInHavingFields raw) = Inr (having, used)" and
    f: "mapr (parse_write_field L) (tc_Fields raw) = Inr fieldDefs" and
    i: "parseRawIndexDefMap (l_parse L) (tc_RawIndexes raw)
          (GetFieldRefs (raw\<lparr>tc_Having := having, tc_UsedInHavingFields := used, tc_Fields := fieldDefs,
             tc_UsedInTargetExpressionsFields := GetFieldRefsUsedInAllTargetExpressions fieldDefs\<rparr>)) [] = Inr idxs" and
    ns: "List.find (\<lambda>n. check_idx_name n \<noteq> None) (map fst idxs) = None" and
    tc: "tc = raw\<lparr>tc_Having := having, tc_UsedInHavingFields := used, tc_Fields := fieldDefs,
             tc_UsedInTargetExpressionsFields := GetFieldRefsUsedInAllTargetExpressions fieldDefs, tc_Indexes := idxs\<rparr>"
    using assms
    by (auto simp: Deserialize_table_creator_def Let_def bindr_Inr_conv split: option.splits sum.splits)
  have l: "list_all2 (\<lambda>p q. parse_write_field L p = Inr q) (tc_Fields raw) fieldDefs"
    using f by (simp add: mapr_Inr_iff)
  have names: "map fst fieldDefs = map fst (tc_Fields raw)"
    using l by (induction rule: list_all2_induct) (simp_all add: parse_write_field_ok)
  have "\<forall>q\<in>set fieldDefs. \<exists>p. parse_write_field L p = Inr q"
    using l by (induction rule: list_all2_induct) auto
  then have "\<forall>q\<in>set fieldDefs. wf_Type (snd q) \<noteq> FieldTypeUnknown \<and>
        (\<exists>used. parse_exp L (wf_RawExpression (snd q)) used = Inr (wf_ParsedExpression (snd q), wf_UsedFields (snd q)))"
    using parse_write_field_ok by metis
  then have "\<forall>(n, fd)\<in>set fieldDefs. wf_Type fd \<noteq> FieldTypeUnknown \<and>
        (\<exists>used. parse_exp L (wf_RawExpression fd) used = Inr (wf_ParsedExpression fd, wf_UsedFields fd))"
    by (simp add: split_def)
  moreover have "\<forall>(n, d)\<in>set idxs. check_idx_name n = None"
    using ns by (auto simp: find_None_iff)
  moreover have "GetFieldRefs tc = GetFieldRefs (raw\<lparr>tc_Having := having, tc_UsedInHavingFields := used, tc_Fields := fieldDefs,
             tc_UsedInTargetExpressionsFields := GetFieldRefsUsedInAllTargetExpressions fieldDefs\<rparr>)"
    by (simp add: tc GetFieldRefs_def GetFieldRefsWithAlias_def)
  moreover have "\<exists>used. parse_exp L (tc_RawHaving tc) used = Inr (tc_Having tc, tc_UsedInHavingFields tc)"
    using h by (intro exI [of _ "tc_UsedInHavingFields raw"]) (simp add: tc)
  ultimately have "table_creator_ok L tc"
    using n i unfolding table_creator_ok_def by (intro conjI) (simp_all add: tc)
  then show ?thesis using h f names by (simp add: tc)
qed

lemma length_RunIdSuffix: "0 \<le> r \<Longrightarrow> r \<le> 99999 \<Longrightarrow> length (RunIdSuffix r) \<le> 6"
proof -
  assume r: "0 \<le> r" "r \<le> 99999"
  then have "pad0 5 (nat_str (nat r)) = digits 5 (nat r)" by (intro pad0_digits) auto
  then show ?thesis using r by (simp add: RunIdSuffix_def int_str0_def)
qed

text \<open>C25: An accepted table definition has a name of at most 42 letters, digits and underscores that
  starts with none of the reserved prefixes, so that the table of a run has at most 48 and is never
  named like a non-empty index; all its fields have a proper type.\<close>

theorem accepted_table_names:
  assumes "Deserialize_table_creator L u = Inr tc"
  shows "(\<forall>c\<in>set (tc_Name tc). word_char c) \<and> \<not> HasPrefix (tc_Name tc) ''idx'' \<and>
    \<not> HasPrefix (tc_Name tc) ''wf'' \<and> \<not> HasPrefix (tc_Name tc) ''system'' \<and>
    (\<forall>r. 0 \<le> r \<longrightarrow> r \<le> 99999 \<longrightarrow> length (tc_Name tc @ RunIdSuffix r) \<le> 48) \<and>
    (\<forall>(n, d)\<in>set (tc_Indexes tc). length n \<le> 42 \<and> (n \<noteq> [] \<longrightarrow> HasPrefix n ''idx'' \<and> n \<noteq> tc_Name tc)) \<and>
    (\<forall>(n, fd)\<in>set (tc_Fields tc). wf_Type fd \<noteq> FieldTypeUnknown)"
proof -
  obtain raw where u: "u = Inr raw"
    using assms by (cases u) (simp_all add: Deserialize_table_creator_def)
  have ok: "table_creator_ok L tc" using deserialized_ok assms u by blast
  note name = table_name_ok [of "tc_Name tc"]
  have "length (tc_Name tc @ RunIdSuffix r) \<le> 48" if "0 \<le> r" "r \<le> 99999" for r
    using length_RunIdSuffix [OF that] name ok by (simp add: table_creator_ok_def)
  moreover have "\<forall>(n, d)\<in>set (tc_Indexes tc). length n \<le> 42 \<and> (n \<noteq> [] \<longrightarrow> HasPrefix n ''idx'' \<and> n \<noteq> tc_Name tc)"
    using ok idx_name_ok name unfolding table_creator_ok_def by blast
  moreover have "\<forall>(n, fd)\<in>set (tc_Fields tc). wf_Type fd \<noteq> FieldTypeUnknown"
    using ok by (auto simp: table_creator_ok_def)
  ultimately show ?thesis using name ok by (simp add: table_creator_ok_def)
qed

subsection \<open>What the record of a table depends on\<close>

lemma map_of_rev_distinct: "distinct (map fst l) \<Longrightarrow> map_of (rev l) = map_of l"
proof (induction l)
  case (Cons p l)
  then have "map_of l (fst p) = None" by (simp add: map_of_eq_None_iff)
  then show ?case using Cons by (auto simp: fun_eq_iff map_add_def split: option.split)
qed simp

lemma record_fold:
  "foldl (record_step L vars) (r, es) fs =
     (r ++ map_of (rev (map (\<lambda>p. (fst p, case CalculateFieldValue L (fst p) (snd p) vars of Inl _ \<Rightarrow> VNil | Inr v \<Rightarrow> v)) fs)),
      es @ concat (map (\<lambda>p. case CalculateFieldValue L (fst p) (snd p) vars of Inl e \<Rightarrow> [e] | Inr _ \<Rightarrow> []) fs))"
proof (induction fs arbitrary: r es)
  case (Cons p fs)
  then show ?case
    by (cases "CalculateFieldValue L (fst p) (snd p) vars") (simp_all add: record_step_def, simp_all add: map_add_def fun_eq_iff split: option.split)
qed simp

lemma table_record:
  assumes "distinct (map fst (tc_Fields tc))"
  shows "CalculateTableRecordFromSrcVars L vars tc = Inr r \<longleftrightarrow>
    (\<forall>p\<in>set (tc_Fields tc). \<exists>v. CalculateFieldValue L (fst p) (snd p) vars = Inr v) \<and>
    r = map_of (map (\<lambda>p. (fst p, projr (CalculateFieldValue L (fst p) (snd p) vars))) (tc_Fields tc))"
proof -
  let ?c = "\<lambda>p. CalculateFieldValue L (fst p) (snd p) vars"
  have "concat (map (\<lambda>p. case ?c p of Inl e \<Rightarrow> [e] | Inr _ \<Rightarrow> []) (tc_Fields tc)) = [] \<longleftrightarrow>
      (\<forall>p\<in>set (tc_Fields tc). \<exists>v. ?c p = Inr v)"
  proof -
    have "(case x of Inl e \<Rightarrow> [e] | Inr _ \<Rightarrow> []) = [] \<longleftrightarrow> (\<exists>v. x = Inr v)" for x :: "goerr + ('a, 'b) gval"
      by (cases x) simp_all
    then show ?thesis by simp
  qed
  moreover have "map_of (rev (map (\<lambda>p. (fst p, case ?c p of Inl _ \<Rightarrow> VNil | Inr v \<Rightarrow> v)) (tc_Fields tc))) =
      map_of (map (\<lambda>p. (fst p, projr (?c p))) (tc_Fields tc))"
    if "\<forall>p\<in>set (tc_Fields tc). \<exists>v. ?c p = Inr v"
  proof -
    have map_eq: "map (\<lambda>p. (fst p, case ?c p of Inl _ \<Rightarrow> VNil | Inr v \<Rightarrow> v)) (tc_Fields tc) =
        map (\<lambda>p. (fst p, projr (?c p))) (tc_Fields tc)"
      using that by (intro map_cong) (auto split: sum.split)
    show ?thesis unfolding map_eq using assms by (simp add: map_of_rev_distinct comp_def)
  qed
  ultimately show ?thesis by (auto simp: CalculateTableRecordFromSrcVars_def record_fold split: if_splits)
qed

text \<open>C26: A calculated record has exactly the fields of the table, each with the value of its
  expression and of its type; the order in which the code iterates over the fields does not matter.\<close>

theorem table_record_is_typed:
  assumes "distinct (map fst (tc_Fields tc))"
  shows "CalculateTableRecordFromSrcVars L vars tc = Inr r \<longleftrightarrow>
    dom r = fst ` set (tc_Fields tc) \<and>
    (\<forall>(n, fd)\<in>set (tc_Fields tc). \<exists>v. r n = Some v \<and> CheckValueType v (wf_Type fd) = None \<and>
       eval_round2 L (wf_ParsedExpression fd) vars = (v, None))"
proof -
  let ?c = "\<lambda>p. CalculateFieldValue L (fst p) (snd p) vars"
  let ?r = "map_of (map (\<lambda>p. (fst p, projr (?c p))) (tc_Fields tc))"
  have c: "?c p = Inr v \<longleftrightarrow> CheckValueType v (wf_Type (snd p)) = None \<and>
      eval_round2 L (wf_ParsedExpression (snd p)) vars = (v, None)" for p v
    by (auto simp: CalculateFieldValue_def split: prod.splits option.splits)
  have d: "dom ?r = fst ` set (tc_Fields tc)"
    by (simp add: dom_map_of_conv_image_fst image_image)
  have at: "?r (fst p) = Some (projr (?c p))" if "p \<in> set (tc_Fields tc)" for p
    using that assms by (intro map_of_is_SomeI) (auto simp: comp_def image_iff)
  have "(\<forall>p\<in>set (tc_Fields tc). \<exists>v. ?c p = Inr v) \<and> r = ?r \<longleftrightarrow>
      dom r = fst ` set (tc_Fields tc) \<and> (\<forall>p\<in>set (tc_Fields tc). \<exists>v. r (fst p) = Some v \<and> ?c p = Inr v)"
  proof
    assume "(\<forall>p\<in>set (tc_Fields tc). \<exists>v. ?c p = Inr v) \<and> r = ?r"
    then show "dom r = fst ` set (tc_Fields tc) \<and> (\<forall>p\<in>set (tc_Fields tc). \<exists>v. r (fst p) = Some v \<and> ?c p = Inr v)"
      using d at by fastforce
  next
    assume a: "dom r = fst ` set (tc_Fields tc) \<and> (\<forall>p\<in>set (tc_Fields tc). \<exists>v. r (fst p) = Some v \<and> ?c p = Inr v)"
    have "r n = ?r n" for n
    proof (cases "n \<in> fst ` set (tc_Fields tc)")
      case True
      then obtain p where p: "p \<in> set (tc_Fields tc)" "n = fst p" by blast
      then obtain v where "r n = Some v" "?c p = Inr v" using a by blast
      then show ?thesis using at [OF p(1)] p(2) by simp
    next
      case False
      then have "n \<notin> dom r" "n \<notin> dom ?r" using a d by (simp_all only: not_False_eq_True)
      then show ?thesis by (simp only: domIff not_not)
    qed
    then show "(\<forall>p\<in>set (tc_Fields tc). \<exists>v. ?c p = Inr v) \<and> r = ?r" using a by blast
  qed
  then show ?thesis unfolding table_record [OF assms] c by (simp add: split_def)
qed

lemma used_field_found:
  assumes "(n, fd) \<in> set fs" "fr \<in> set (wf_UsedFields fd)"
  shows "\<exists>g\<in>set (GetFieldRefsUsedInAllTargetExpressions fs). GetAliasHash g = GetAliasHash fr \<and>
    (\<exists>(n, fd)\<in>set fs. g \<in> set (wf_UsedFields fd))"
proof -
  let ?l = "concat (map (wf_UsedFields \<circ> snd) fs)"
  have "fr \<in> set ?l" using assms by force
  then obtain g where g: "find (\<lambda>a. GetAliasHash a = GetAliasHash fr) ?l = Some g"
    by (cases "find (\<lambda>a. GetAliasHash a = GetAliasHash fr) ?l") (auto simp: find_None_iff)
  then have "map_of (fold add_hash ?l []) (GetAliasHash fr) = Some g" by (simp add: map_of_add_hash)
  then have "g \<in> set (GetFieldRefsUsedInAllTargetExpressions fs)"
    by (force simp: GetFieldRefsUsedInAllTargetExpressions_def dest: map_of_SomeD)
  moreover have "GetAliasHash g = GetAliasHash fr" "g \<in> set ?l"
    using g unfolding find_Some_iff by (blast, metis nth_mem)
  ultimately show ?thesis by fastforce
qed

text \<open>A table name has no dot (Go identifiers have none), so the hash of a reference is one to one.\<close>

definition dotless :: "field_ref \<Rightarrow> bool" where
  "dotless fr \<longleftrightarrow> CHR ''.'' \<notin> set (fr_TableName fr)"

lemma append_sep: "c \<notin> set s \<Longrightarrow> c \<notin> set t \<Longrightarrow> s @ c # u = t @ c # v \<longleftrightarrow> s = t \<and> u = v"
proof (induction s arbitrary: t)
  case Nil
  then show ?case by (cases t) auto
next
  case (Cons x s)
  then show ?case by (cases t) auto
qed

lemma hash_inj:
  assumes "dotless a" "dotless b" "GetAliasHash a = GetAliasHash b"
  shows "fr_TableName a = fr_TableName b \<and> fr_FieldName a = fr_FieldName b"
  using assms append_sep [of "CHR ''.''" "fr_TableName a" "fr_TableName b"]
  by (simp add: dotless_def GetAliasHash_def)

lemma agree_on_all_used:
  assumes "agree_on vs ws (GetFieldRefsUsedInAllTargetExpressions fs)"
    and "\<forall>(n, fd)\<in>set fs. \<forall>fr\<in>set (wf_UsedFields fd). dotless fr" and "(n, fd) \<in> set fs"
  shows "agree_on vs ws (wf_UsedFields fd)"
  unfolding agree_on_def
proof
  fix fr assume fr: "fr \<in> set (wf_UsedFields fd)"
  obtain g m gd where g: "g \<in> set (GetFieldRefsUsedInAllTargetExpressions fs)" "GetAliasHash g = GetAliasHash fr"
    "(m, gd) \<in> set fs" "g \<in> set (wf_UsedFields gd)"
    using used_field_found [OF assms(3) fr] by auto
  have "dotless fr" "dotless g" using assms(2,3) fr g(3,4) by blast+
  then show "supply_same vs ws (fr_TableName fr) (fr_FieldName fr)"
    using hash_inj [OF _ _ g(2)] assms(1) g(1) by (auto simp: agree_on_def)
qed

text \<open>C27: The record of an accepted table depends only on the fields collected from its expressions:
  variables that supply the same values for them give the same record or the same errors.\<close>

theorem record_needs_used_fields:
  assumes "lang_ok L" "Deserialize_table_creator L u = Inr tc"
    and "\<forall>(n, fd)\<in>set (tc_Fields tc). \<forall>fr\<in>set (wf_UsedFields fd). CHR ''.'' \<notin> set (fr_TableName fr)"
    and "\<forall>fr\<in>set (tc_UsedInTargetExpressionsFields tc).
           field_value vs (fr_TableName fr) (fr_FieldName fr) \<noteq> None \<and>
           field_value ws (fr_TableName fr) (fr_FieldName fr) = field_value vs (fr_TableName fr) (fr_FieldName fr)"
  shows "CalculateTableRecordFromSrcVars L ws tc = CalculateTableRecordFromSrcVars L vs tc"
proof -
  obtain raw where "u = Inr raw"
    using assms(2) by (cases u) (simp_all add: Deserialize_table_creator_def)
  then have ok: "table_creator_ok L tc" using deserialized_ok assms(2) by blast
  have agree: "agree_on vs ws (GetFieldRefsUsedInAllTargetExpressions (tc_Fields tc))"
    using assms(4) ok by (auto simp: agree_on_def supply_same_def table_creator_ok_def)
  have "CalculateFieldValue L n fd ws = CalculateFieldValue L n fd vs" if n: "(n, fd) \<in> set (tc_Fields tc)" for n fd
  proof -
    obtain used where "parse_exp L (wf_RawExpression fd) used = Inr (wf_ParsedExpression fd, wf_UsedFields fd)"
      using table_creator_ok_field [OF ok n] by blast
    moreover have "agree_on vs ws (wf_UsedFields fd)"
      by (rule agree_on_all_used [OF agree _ that]) (use assms(3) in \<open>simp add: dotless_def\<close>)
    ultimately show ?thesis by (simp add: CalculateFieldValue_def eval_agree(2) [OF assms(1)])
  qed
  then have "record_step L ws st p = record_step L vs st p" if "p \<in> set (tc_Fields tc)" for st p
    using that by (cases p) (simp add: record_step_def)
  then have "foldl (record_step L ws) (Map.empty, []) (tc_Fields tc) =
      foldl (record_step L vs) (Map.empty, []) (tc_Fields tc)"
    by (intro foldl_cong) simp_all
  then show ?thesis by (simp add: CalculateTableRecordFromSrcVars_def)
qed

text \<open>A table with one field, and what the parser makes of its expression.\<close>

definition sample_lang :: "(int, int) lang" where
  "sample_lang = \<lparr>l_parse = (\<lambda>s. if s = ''r.a'' then Inr (SelectorExpr (Ident ''r'') ''a'')
       else if s = ''unique(b)'' then Inr (CallExpr 0 (Ident ''unique'') [Ident ''b''])
       else if s = ''w.b'' then Inr (SelectorExpr (Ident ''w'') ''b'') else Inl ''syntax''),
     l_ops = sample_ops, l_funs = Map.empty,
     l_consts = [''true'' \<mapsto> VBool True, ''false'' \<mapsto> VBool False], l_now = 0\<rparr>"

definition sample_field :: write_field where
  "sample_field = \<lparr>wf_RawExpression = ''r.a'', wf_Type = FieldTypeInt, wf_DefaultValue = '''',
     wf_ParsedExpression = None, wf_UsedFields = []\<rparr>"

definition sample_table :: table_creator where
  "sample_table = \<lparr>tc_Name = ''orders'', tc_CreateProperties = '''', tc_RawHaving = '''', tc_Having = None,
     tc_UsedInHavingFields = [], tc_UsedInTargetExpressionsFields = [], tc_Fields = [(''b'', sample_field)],
     tc_RawIndexes = [(''idx_orders_b'', ''unique(b)'')], tc_Indexes = []\<rparr>"

definition sample_read_field :: write_field where
  "sample_read_field = sample_field\<lparr>wf_ParsedExpression := Some (SelectorExpr (Ident ''r'') ''a''),
     wf_UsedFields := [\<lparr>fr_TableName = ''r'', fr_FieldName = ''a'', fr_FieldType = FieldTypeUnknown\<rparr>]\<rparr>"

definition sample_read_table :: table_creator where
  "sample_read_table = sample_table\<lparr>tc_Fields := [(''b'', sample_read_field)],
     tc_UsedInTargetExpressionsFields := wf_UsedFields sample_read_field,
     tc_Indexes := [(''idx_orders_b'', \<lparr>idx_Uniqueness = IdxUnique,
       idx_Components = [\<lparr>ic_FieldName = ''b'', ic_CaseSensitivity = IdxCaseSensitivityUnknown,
         ic_SortOrder = IdxSortAsc, ic_StringLen = 64, ic_FieldType = FieldTypeInt\<rparr>]\<rparr>)]\<rparr>"

lemma sample_table_read: "Deserialize_table_creator sample_lang (Inr sample_table) = Inr sample_read_table"
proof -
  have t: "TrimSpace ''r.a'' = ''r.a''" "TrimSpace '''' = ''''" by code_simp+
  have n: "check_table_name ''orders'' = None" "check_idx_name ''idx_orders_b'' = None" by code_simp+
  have "parse_write_field sample_lang (''b'', sample_field) = Inr (''b'', sample_read_field)"
    using t by (simp add: parse_write_field_def parse_exp_def sample_lang_def sample_field_def sample_read_field_def
        ParseRawGolangExpressionStringAndHarvestFieldRefs_def parse_and_harvest_def contributeUnresolved_def
        IsValidFieldType_def)
  then show ?thesis using t n
    by (simp add: Deserialize_table_creator_def sample_table_def sample_read_table_def parse_exp_def
        ParseRawGolangExpressionStringAndHarvestFieldRefs_def parse_and_harvest_def Let_def
        GetFieldRefsUsedInAllTargetExpressions_def sample_read_field_def add_hash_def
        parseRawIndexDefMap_def raw_index_step_def component_step_def parseComponentExpr_def component_of_def
        FindByFieldName_def new_component_def component_defaults_def GetFieldRefs_def GetFieldRefsWithAlias_def
        sample_lang_def sample_field_def DefaultStringComponentLen_def)
qed

lemma accepted_table_names_witness:
  "length (tc_Name sample_read_table @ RunIdSuffix 32767) \<le> 48 \<and> ''idx_orders_b'' \<noteq> tc_Name sample_read_table"
  using accepted_table_names [OF sample_table_read] by (simp add: sample_read_table_def sample_table_def)

lemma table_record_is_typed_witness:
  "CalculateTableRecordFromSrcVars sample_lang [''r'' \<mapsto> [''a'' \<mapsto> VInt64 7]] sample_read_table =
     Inr [''b'' \<mapsto> VInt64 7]"
  by (subst table_record_is_typed)
    (auto simp: sample_read_table_def sample_table_def sample_read_field_def sample_field_def CheckValueType_def
      eval_round2_def eval_opt_def plain_ctx_def eval_name_def assign_def NewPlainEvalCtx_def SetRoundDec_def
      sample_lang_def)

lemma record_needs_used_fields_witness:
  "CalculateTableRecordFromSrcVars sample_lang [''r'' \<mapsto> [''a'' \<mapsto> VInt64 7]] sample_read_table =
   CalculateTableRecordFromSrcVars sample_lang [''r'' \<mapsto> [''a'' \<mapsto> VInt64 7, ''c'' \<mapsto> VBool True]] sample_read_table"
  by (intro record_needs_used_fields [OF _ sample_table_read])
    (simp_all add: lang_ok_def sample_lang_def sample_read_table_def sample_table_def sample_read_field_def
      sample_field_def field_value_def)

text \<open>The regular expressions find nothing in an empty name, and nothing is as long as the name.\<close>

lemma empty_names_accepted: "check_table_name '''' = None" "check_idx_name '''' = None"
  by code_simp+

end
