(* ===== verification/Lookup_Def.thy ===== *)
theory Lookup_Def
  imports Table_Creator
begin

text \<open>
  The lookup of a node: the index it joins on, the join fields of the reader, the filter on the
  rows found (pkg/sc/lookup_def.go). The pointer to the creator of the looked up table is the name
  of the node that holds it; the functions that follow it take the creator as an argument.
\<close>

datatype lookup_join = LookupJoinInner | LookupJoinLeft | LookupJoinOther string

record lookup =
  lk_IndexName :: string
  lk_RawJoinOn :: string
  lk_IsGroup :: bool
  lk_RawFilter :: string
  lk_LookupJoin :: lookup_join
  lk_IdxReadBatchSize :: int
  lk_RightLookupReadBatchSize :: int
  lk_LeftTableFields :: "field_ref list"
  lk_TableCreator :: "string option"
  lk_UsedInFilterFields :: "field_ref list"
  lk_Filter :: "expr option"

definition defaultIdxBatchSize :: int where "defaultIdxBatchSize = 3000"
definition maxIdxBatchSize :: int where "maxIdxBatchSize = 20000"
definition defaultRightLookupBatchSize :: int where "defaultRightLookupBatchSize = 3000"
definition maxRightLookupReadBatchSize :: int where "maxRightLookupReadBatchSize = 20000"

definition CheckPagedBatchSize :: "lookup \<Rightarrow> goerr + lookup" where
  "CheckPagedBatchSize lk =
     bindr (if lk_IdxReadBatchSize lk \<le> 0 then Inr (lk\<lparr>lk_IdxReadBatchSize := defaultIdxBatchSize\<rparr>)
            else if lk_IdxReadBatchSize lk > maxIdxBatchSize then Inl ''cannot use idx_read_batch_size''
            else Inr lk)
       (\<lambda>lk1. if lk_RightLookupReadBatchSize lk1 \<le> 0
              then Inr (lk1\<lparr>lk_RightLookupReadBatchSize := defaultRightLookupBatchSize\<rparr>)
              else if lk_RightLookupReadBatchSize lk1 > maxRightLookupReadBatchSize
              then Inl ''cannot use right_lookup_read_batch_size''
              else Inr lk1)"

definition UsesFilter :: "lookup \<Rightarrow> bool" where
  "UsesFilter lk \<longleftrightarrow> length (TrimSpace (lk_RawFilter lk)) > 0"

definition ValidateJoinType :: "lookup \<Rightarrow> goerr option" where
  "ValidateJoinType lk =
     (if lk_LookupJoin lk \<noteq> LookupJoinLeft \<and> lk_LookupJoin lk \<noteq> LookupJoinInner
      then Some ''invalid join type, expected inner or left'' else None)"

definition ParseFilter :: "('f, 'd) lang \<Rightarrow> lookup \<Rightarrow> goerr + lookup" where
  "ParseFilter L lk =
     (if \<not> UsesFilter lk then Inr lk
      else (case parse_exp L (lk_RawFilter lk) (lk_UsedInFilterFields lk) of
              Inl e \<Rightarrow> Inl (''cannot parse lookup filter condition: '' @ e)
            | Inr (ex, used) \<Rightarrow> Inr (lk\<lparr>lk_Filter := ex, lk_UsedInFilterFields := used\<rparr>)))"

text \<open>One item of the comma-separated list of join fields.\<close>

definition left_field :: "string \<Rightarrow> field_ref list \<Rightarrow> string \<Rightarrow> goerr + field_ref" where
  "left_field srcName srcFieldRefs item =
     (case Split (TrimSpace item) (CHR ''.'') of
        [t, f] \<Rightarrow>
          (if TrimSpace t \<noteq> srcName then Inl ''source table name unknown''
           else (case FindByFieldName (TrimSpace f) srcFieldRefs of
                   None \<Rightarrow> Inl ''source does not produce field''
                 | Some fr \<Rightarrow>
                     (if fr_FieldType fr = FieldTypeUnknown then Inl ''source field has unknown type''
                      else Inr fr)))
      | _ \<Rightarrow> Inl ''expected a comma-separated list of <table_name>.<field_name>'')"

definition same_types :: "field_ref list \<Rightarrow> field_ref list \<Rightarrow> bool" where
  "same_types ls rs \<longleftrightarrow> list_all2 (\<lambda>l r. fr_FieldType l = fr_FieldType r) ls rs"

definition resolveLeftTableFields ::
  "string \<Rightarrow> field_ref list \<Rightarrow> table_creator \<Rightarrow> lookup \<Rightarrow> goerr + lookup" where
  "resolveLeftTableFields srcName srcFieldRefs lookupTable lk =
     bindr (mapr (left_field srcName srcFieldRefs) (Split (lk_RawJoinOn lk) (CHR '',''))) (\<lambda>left.
       case map_of (tc_Indexes lookupTable) (lk_IndexName lk) of
         None \<Rightarrow> Inl ''panic: nil pointer dereference''
       | Some idx \<Rightarrow>
           (let right = getComponentFieldRefs idx (tc_Name lookupTable) in
            if length right \<noteq> length left
            then Inl ''lookup joins on another number of fields than the referenced index uses''
            else if \<not> same_types left right then Inl ''left-side field has another type than the index field''
            else Inr (lk\<lparr>lk_LeftTableFields := left\<rparr>)))"

definition CheckFilterCondition ::
  "('f, 'd) lang \<Rightarrow> ('f, 'd) var_values \<Rightarrow> lookup \<Rightarrow> goerr + bool" where
  "CheckFilterCondition L varsFromLookup lk =
     (if \<not> UsesFilter lk then Inr True
      else eval_bool L ''cannot evaluate expression''
             ''cannot evaluate lookup filter condition expression, expected bool'' (lk_Filter lk) varsFromLookup)"

text \<open>The join fields of a resolved lookup are fields of the reader, one for one with the
  components of the index and of the same known types.\<close>

lemma resolved_join_fields:
  assumes "resolveLeftTableFields srcName refs tc lk = Inr lk'"
  shows "\<exists>idx. map_of (tc_Indexes tc) (lk_IndexName lk) = Some idx \<and>
    list_all2 (\<lambda>fr c. fr \<in> set refs \<and> fr_FieldType fr = ic_FieldType c \<and> fr_FieldType fr \<noteq> FieldTypeUnknown)
      (lk_LeftTableFields lk') (idx_Components idx)"
proof -
  obtain left idx where
    l: "mapr (left_field srcName refs) (Split (lk_RawJoinOn lk) (CHR '','')) = Inr left" and
    i: "map_of (tc_Indexes tc) (lk_IndexName lk) = Some idx" and
    t: "same_types left (getComponentFieldRefs idx (tc_Name tc))" and
    lk': "lk' = lk\<lparr>lk_LeftTableFields := left\<rparr>"
    using assms by (auto simp: resolveLeftTableFields_def bindr_Inr_conv Let_def split: option.splits if_splits)
  have "fr \<in> set refs \<and> fr_FieldType fr \<noteq> FieldTypeUnknown" if "left_field srcName refs s = Inr fr" for s fr
    using that unfolding left_field_def FindByFieldName_def
    by (auto split: list.splits if_splits option.splits simp: find_Some_iff)
  then have "\<forall>fr\<in>set left. fr \<in> set refs \<and> fr_FieldType fr \<noteq> FieldTypeUnknown"
    using l unfolding mapr_Inr_map by fastforce
  moreover have "list_all2 (\<lambda>fr c. fr_FieldType fr = ic_FieldType c) left (idx_Components idx)"
    using t by (simp add: same_types_def getComponentFieldRefs_def list_all2_map2)
  ultimately show ?thesis using i lk' by (auto simp: list_all2_conv_all_nth)
qed

lemma paged_batch_sizes:
  assumes "CheckPagedBatchSize lk = Inr lk'"
  shows "1 \<le> lk_IdxReadBatchSize lk' \<and> lk_IdxReadBatchSize lk' \<le> 20000 \<and>
    1 \<le> lk_RightLookupReadBatchSize lk' \<and> lk_RightLookupReadBatchSize lk' \<le> 20000"
  using assms
  by (auto simp: CheckPagedBatchSize_def bindr_Inr_conv defaultIdxBatchSize_def maxIdxBatchSize_def
      defaultRightLookupBatchSize_def maxRightLookupReadBatchSize_def split: if_splits)

end
