(* ===== verification/File_Creator.thy ===== *)
theory File_Creator
  imports Table_Creator
begin

text \<open>
  The file that a node writes: its columns, the checks when it is read from a script, the record
  calculated for it and the columns of it that are written as NULL (pkg/sc/file_creator_def.go).
  What json.Unmarshal makes of the text is the argument of \<open>Deserialize\<close>.
\<close>

datatype creator_file_type = CreatorFileTypeUnknown | CreatorFileTypeCsv | CreatorFileTypeParquet

record file_column =
  fc_RawExpression :: string
  fc_Name :: string
  fc_Type :: field_type
  fc_CsvFormat :: string
  fc_CsvHeader :: string
  fc_ParquetColumnName :: string
  fc_ParsedExpression :: "expr option"
  fc_UsedFields :: "field_ref list"
  fc_WriteNullIfRawExpression :: string
  fc_WriteNullIfParsedExpression :: "expr option"

record top_def =
  top_Limit :: int
  top_RawOrder :: string
  top_OrderIdxDef :: idx_def

record file_creator =
  fcr_UrlTemplate :: string
  fcr_RawHaving :: string
  fcr_Top :: top_def
  fcr_CsvSeparator :: string
  fcr_CsvNullValue :: string
  fcr_ParquetCodec :: string
  fcr_Columns :: "file_column list"
  fcr_Having :: "expr option"
  fcr_UsedInHavingFields :: "field_ref list"
  fcr_UsedInTargetExpressionsFields :: "field_ref list"
  fcr_CreatorFileType :: creator_file_type

definition MaxFileCreatorTopLimit :: int where "MaxFileCreatorTopLimit = 5000000"
definition ParquetCodecGzip :: string where "ParquetCodecGzip = ''gzip''"

definition file_field_refs :: "file_creator \<Rightarrow> field_ref list" where
  "file_field_refs fc =
     map (\<lambda>c. \<lparr>fr_TableName = CreatorAlias, fr_FieldName = fc_Name c, fr_FieldType = fc_Type c\<rparr>) (fcr_Columns fc)"

definition GetFieldRefsUsedInAllTargetFileExpressions :: "file_creator \<Rightarrow> field_ref list" where
  "GetFieldRefsUsedInAllTargetFileExpressions fc =
     map snd (fold add_hash (concat (map fc_UsedFields (fcr_Columns fc))) [])"

definition HasTop :: "file_creator \<Rightarrow> bool" where
  "HasTop fc \<longleftrightarrow> length (TrimSpace (top_RawOrder (fcr_Top fc))) > 0"

subsection \<open>Deserialize\<close>

definition detect_file_type :: "file_creator \<Rightarrow> goerr + file_creator" where
  "detect_file_type fc =
     (case fcr_Columns fc of
        [] \<Rightarrow> Inl ''cannot cannot detect file creator type''
      | c # _ \<Rightarrow>
          (if fc_ParquetColumnName c \<noteq> '''' then
             Inr (fc\<lparr>fcr_CreatorFileType := CreatorFileTypeParquet,
                     fcr_ParquetCodec := (if fcr_ParquetCodec fc = '''' then ParquetCodecGzip else fcr_ParquetCodec fc)\<rparr>)
           else if fc_CsvHeader c \<noteq> '''' then
             Inr (fc\<lparr>fcr_CreatorFileType := CreatorFileTypeCsv,
                     fcr_CsvSeparator := (if length (fcr_CsvSeparator fc) = 0 then '','' else fcr_CsvSeparator fc)\<rparr>)
           else Inl ''cannot cannot detect file creator type''))"

definition parse_file_column :: "('f, 'd) lang \<Rightarrow> file_column \<Rightarrow> goerr + file_column" where
  "parse_file_column L c =
     (case parse_exp L (fc_RawExpression c) (fc_UsedFields c) of
        Inl e \<Rightarrow> Inl (''cannot parse column expression: ['' @ e @ '']'')
      | Inr (ex, used) \<Rightarrow>
          bindr
            (if length (fc_WriteNullIfRawExpression c) > 0 then
               (case parse_exp L (fc_WriteNullIfRawExpression c) used of
                  Inl e \<Rightarrow> Inl (''cannot parse write_null_if expression: ['' @ e @ '']'')
                | Inr (nex, used') \<Rightarrow>
                    Inr (c\<lparr>fc_ParsedExpression := ex, fc_UsedFields := used', fc_WriteNullIfParsedExpression := nex\<rparr>))
             else Inr (c\<lparr>fc_ParsedExpression := ex, fc_UsedFields := used\<rparr>))
            (\<lambda>c'. if \<not> IsValidFieldType (fc_Type c') then Inl ''invalid column type'' else Inr c'))"

text \<open>The order of a top clause is parsed as an index of that name.\<close>

definition parse_top :: "('f, 'd) lang \<Rightarrow> file_creator \<Rightarrow> goerr + file_creator" where
  "parse_top L fc =
     (if \<not> HasTop fc then Inr fc
      else if top_Limit (fcr_Top fc) > MaxFileCreatorTopLimit then Inl ''top.limit cannot exceed the maximum''
      else
        (let limit = (if top_Limit (fcr_Top fc) \<le> 0 then MaxFileCreatorTopLimit else top_Limit (fcr_Top fc)) in
         case parseRawIndexDefMap (l_parse L) [(''top'', ''non_unique('' @ top_RawOrder (fcr_Top fc) @ '')'')]
                (file_field_refs fc) [] of
           Inl e \<Rightarrow> Inl (''cannot parse raw index definition(s) for top: '' @ e)
         | Inr m \<Rightarrow>
             (case map_of m ''top'' of
                None \<Rightarrow> Inl ''panic: nil pointer dereference''
              | Some d \<Rightarrow> Inr (fc\<lparr>fcr_Top := (fcr_Top fc)\<lparr>top_Limit := limit, top_OrderIdxDef := d\<rparr>\<rparr>))))"

definition Deserialize_file_creator ::
  "('f, 'd) lang \<Rightarrow> goerr + file_creator \<Rightarrow> goerr + file_creator" where
  "Deserialize_file_creator L unmarshalled =
     (case unmarshalled of
        Inl e \<Rightarrow> Inl (''cannot unmarshal file creator: ['' @ e @ '']'')
      | Inr fc0 \<Rightarrow>
          bindr (detect_file_type fc0) (\<lambda>fc1.
            case parse_exp L (fcr_RawHaving fc1) (fcr_UsedInHavingFields fc1) of
              Inl e \<Rightarrow> Inl (''cannot parse file creator 'having' condition: ['' @ e @ '']'')
            | Inr (having, used) \<Rightarrow>
                bindr (mapr (parse_file_column L) (fcr_Columns fc1)) (\<lambda>cols.
                  bindr (parse_top L (fc1\<lparr>fcr_Having := having, fcr_UsedInHavingFields := used, fcr_Columns := cols\<rparr>))
                    (\<lambda>fc2. Inr (fc2\<lparr>fcr_UsedInTargetExpressionsFields :=
                                     GetFieldRefsUsedInAllTargetFileExpressions fc2\<rparr>)))))"

subsection \<open>Records\<close>

text \<open>What the loop over the columns collects: the values, the null columns and the errors.\<close>

record ('f, 'd) file_acc =
  fa_Record :: "('f, 'd) gval list"
  fa_Nulls :: "nat list"
  fa_Errors :: "goerr list"

text \<open>The value of a column, in the context left by the evaluation of its null condition. An error is
  noted and the value, whatever it is, is checked and stored all the same.\<close>

definition column_value ::
  "('f, 'd) lang \<Rightarrow> file_column \<Rightarrow> ('f, 'd) eval_ctx \<Rightarrow> ('f, 'd) gval \<times> goerr list" where
  "column_value L col c =
     (case eval_opt (l_ops L) (fc_ParsedExpression col) (SetRoundDec 2 c) of
        ((v, e), _) \<Rightarrow>
          (v, (case e of None \<Rightarrow> [] | Some e \<Rightarrow> [''cannot evaluate expression for column '' @ fc_Name col @ '': ['' @ e @ '']'']) @
              (case CheckValueType v (fc_Type col) of None \<Rightarrow> []
               | Some e \<Rightarrow> [''invalid field '' @ fc_Name col @ '' type: ['' @ e @ '']''])))"

definition file_column_step ::
  "('f, 'd) lang \<Rightarrow> ('f, 'd) var_values \<Rightarrow> ('f, 'd) file_acc \<Rightarrow> file_column \<Rightarrow> ('f, 'd) file_acc" where
  "file_column_step L srcVars a col =
     (let skip = (\<lambda>e. a\<lparr>fa_Record := fa_Record a @ [VNil], fa_Errors := fa_Errors a @ [e]\<rparr>);
          proceed = (\<lambda>isNull c.
            case column_value L col c of
              (v, es) \<Rightarrow> a\<lparr>fa_Record := fa_Record a @ [v],
                           fa_Nulls := (if isNull then fa_Nulls a @ [length (fa_Record a)] else fa_Nulls a),
                           fa_Errors := fa_Errors a @ es\<rparr>)
      in case fc_WriteNullIfParsedExpression col of
           None \<Rightarrow> proceed False (plain_ctx L srcVars)
         | Some nex \<Rightarrow>
             (case Eval (l_ops L) nex (plain_ctx L srcVars) of
                ((_, Some e), _) \<Rightarrow>
                  skip (''cannot evaluate write_null_ if expression for column '' @ fc_Name col @ '': ['' @ e @ '']'')
              | ((VBool b, None), c1) \<Rightarrow> proceed b c1
              | _ \<Rightarrow> skip (''cannot evaluate non-bool write_null_ if expression for column '' @ fc_Name col)))"

definition CalculateFileRecordFromSrcVars ::
  "('f, 'd) lang \<Rightarrow> ('f, 'd) var_values \<Rightarrow> file_creator \<Rightarrow> goerr + ('f, 'd) gval list \<times> nat list" where
  "CalculateFileRecordFromSrcVars L srcVars fc =
     (let a = foldl (file_column_step L srcVars) \<lparr>fa_Record = [], fa_Nulls = [], fa_Errors = []\<rparr> (fcr_Columns fc)
      in if length (fa_Errors a) > 0 then Inl (Join (fa_Errors a) ''; '') else Inr (fa_Record a, fa_Nulls a))"

definition CheckFileRecordHavingCondition ::
  "('f, 'd) lang \<Rightarrow> ('f, 'd) gval list \<Rightarrow> file_creator \<Rightarrow> goerr + bool" where
  "CheckFileRecordHavingCondition L fileRecord fc =
     (if length fileRecord \<noteq> length (fcr_Columns fc)
      then Inl ''file record length does not match file creator column list length''
      else (case fcr_Having fc of
              None \<Rightarrow> Inr True
            | Some h \<Rightarrow>
                eval_bool L ''cannot evaluate 'having' expression''
                  ''cannot get bool when evaluating having expression'' (Some h)
                  [CreatorAlias \<mapsto> foldl (\<lambda>m (c, v). m(fc_Name c \<mapsto> v)) Map.empty (zip (fcr_Columns fc) fileRecord)]))"

subsection \<open>Columns are independent\<close>

definition no_aggregates :: "file_column \<Rightarrow> bool" where
  "no_aggregates col \<longleftrightarrow> (\<forall>e. fc_ParsedExpression col = Some e \<longrightarrow> agg_calls e = {}) \<and>
     (\<forall>e. fc_WriteNullIfParsedExpression col = Some e \<longrightarrow> agg_calls e = {})"

text \<open>A null condition without aggregate calls leaves nothing behind for the value of the column.\<close>

lemma column_value_frame:
  assumes "agg_calls nex = {}" "\<forall>e. fc_ParsedExpression col = Some e \<longrightarrow> agg_calls e = {}"
  shows "column_value L col (snd (Eval N nex c)) = column_value L col c"
proof -
  let ?d = "snd (Eval N nex c)"
  have "only_value c ?d" using Eval_framed [OF assms(1), of N] by (simp add: framed_def)
  then have "only_value (SetRoundDec 2 c) (SetRoundDec 2 ?d)"
    unfolding only_value_def SetRoundDec_def by (cases c, cases ?d) simp
  then have env: "same_env (SetRoundDec 2 ?d) (SetRoundDec 2 c)"
    using only_value_same_env same_env_refl only_value_refl by blast
  have "fst (eval_opt (l_ops L) (fc_ParsedExpression col) (SetRoundDec 2 ?d)) =
      fst (eval_opt (l_ops L) (fc_ParsedExpression col) (SetRoundDec 2 c))"
  proof (cases "fc_ParsedExpression col")
    case (Some e)
    then have "framed (Eval (l_ops L) e)" using Eval_framed assms(2) by blast
    then show ?thesis using env Some by (simp add: framed_def eval_opt_def)
  qed (simp add: eval_opt_def)
  then show ?thesis unfolding column_value_def by (simp add: split_def)
qed

text \<open>A column on its own: its value and errors, and whether it is written as NULL.\<close>

definition column_out ::
  "('f, 'd) lang \<Rightarrow> ('f, 'd) var_values \<Rightarrow> file_column \<Rightarrow> (('f, 'd) gval \<times> goerr list) \<times> bool" where
  "column_out L vars col =
     (case fc_WriteNullIfParsedExpression col of
        None \<Rightarrow> (column_value L col (plain_ctx L vars), False)
      | Some nex \<Rightarrow>
          (case eval_plain L (Some nex) vars of
             (_, Some e) \<Rightarrow>
               ((VNil, [''cannot evaluate write_null_ if expression for column '' @ fc_Name col @ '': ['' @ e @ '']'']), False)
           | (VBool b, None) \<Rightarrow> (column_value L col (plain_ctx L vars), b)
           | _ \<Rightarrow> ((VNil, [''cannot evaluate non-bool write_null_ if expression for column '' @ fc_Name col]), False)))"

lemma file_column_step_out:
  assumes "no_aggregates col"
  shows "file_column_step L vars a col =
    (case column_out L vars col of ((v, es), isNull) \<Rightarrow>
       a\<lparr>fa_Record := fa_Record a @ [v],
         fa_Nulls := (if isNull then fa_Nulls a @ [length (fa_Record a)] else fa_Nulls a),
         fa_Errors := fa_Errors a @ es\<rparr>)"
proof (cases "fc_WriteNullIfParsedExpression col")
  case None
  then show ?thesis by (simp add: file_column_step_def column_out_def split_def)
next
  case (Some nex)
  obtain v e c1 where ev: "Eval (l_ops L) nex (plain_ctx L vars) = ((v, e), c1)"
    by (metis prod.exhaust)
  then have c1: "column_value L col c1 = column_value L col (plain_ctx L vars)"
    using column_value_frame [of nex col L "l_ops L" "plain_ctx L vars"] assms Some
    by (simp add: no_aggregates_def)
  have p: "eval_plain L (Some nex) vars = (v, e)" using ev by (simp add: eval_plain_def eval_opt_def)
  show ?thesis
    by (cases e; cases v) (simp_all add: file_column_step_def column_out_def Some ev p c1 split_def)
qed

lemma file_fold:
  assumes "\<forall>col\<in>set cols. no_aggregates col"
  shows "fa_Record (foldl (file_column_step L vars) a cols) =
      fa_Record a @ map (\<lambda>col. fst (fst (column_out L vars col))) cols \<and>
    fa_Errors (foldl (file_column_step L vars) a cols) =
      fa_Errors a @ concat (map (\<lambda>col. snd (fst (column_out L vars col))) cols) \<and>
    fa_Nulls (foldl (file_column_step L vars) a cols) =
      fa_Nulls a @ map (\<lambda>i. length (fa_Record a) + i) (filter (\<lambda>i. snd (column_out L vars (cols ! i))) [0..<length cols])"
  using assms
proof (induction cols arbitrary: a)
  case (Cons col cols)
  have u: "[0..<length (col # cols)] = 0 # map Suc [0..<length cols]"
    by (simp add: map_Suc_upt upt_conv_Cons del: upt_Suc)
  show ?case using Cons unfolding u
    by (simp add: file_column_step_out split_def filter_map comp_def)
qed simp


definition sample_column :: file_column where
  "sample_column = \<lparr>fc_RawExpression = ''r.a'', fc_Name = ''a'', fc_Type = FieldTypeInt, fc_CsvFormat = ''%d'',
     fc_CsvHeader = ''a'', fc_ParquetColumnName = '''', fc_ParsedExpression = Some (SelectorExpr (Ident ''r'') ''a''),
     fc_UsedFields = [], fc_WriteNullIfRawExpression = ''true'', fc_WriteNullIfParsedExpression = Some (Ident ''true'')\<rparr>"

definition sample_file :: file_creator where
  "sample_file = \<lparr>fcr_UrlTemplate = ''out.csv'', fcr_RawHaving = '''',
     fcr_Top = \<lparr>top_Limit = 0, top_RawOrder = '''', top_OrderIdxDef = \<lparr>idx_Uniqueness = IdxNonUnique, idx_Components = []\<rparr>\<rparr>,
     fcr_CsvSeparator = '','', fcr_CsvNullValue = '''', fcr_ParquetCodec = '''', fcr_Columns = [sample_column],
     fcr_Having = None, fcr_UsedInHavingFields = [], fcr_UsedInTargetExpressionsFields = [],
     fcr_CreatorFileType = CreatorFileTypeCsv\<rparr>"


end
