(* ===== verification/File_Reader.thy ===== *)
theory File_Reader
  imports Lang
begin

text \<open>
  The file that a node reads: its columns, the checks when it is read from a script, and the
  conversion of a line of CSV to typed values (pkg/sc/file_reader_def.go). The conversions that
  return an error also store a zero value for the column; the caller gives up then, so the model
  returns the value or the error.
\<close>

datatype reader_file_type = ReaderFileTypeUnknown | ReaderFileTypeCsv | ReaderFileTypeParquet
datatype indexing_mode = FileColumnIndexingName | FileColumnIndexingIdx | FileColumnIndexingUnset

record reader_column =
  rc_DefaultValue :: string
  rc_Type :: field_type
  rc_SrcColIdx :: int
  rc_SrcColHeader :: string
  rc_SrcColFormat :: string
  rc_ParquetSrcColName :: string

record file_reader =
  frd_SrcFileUrls :: "string list"
  frd_SrcFileHdrLineIdx :: int
  frd_SrcFileFirstDataLineIdx :: int
  frd_Separator :: string
  frd_NullValue :: string
  frd_ColumnIndexingMode :: indexing_mode
  frd_Columns :: "(string \<times> reader_column) list"
  frd_ReaderFileType :: reader_file_type

definition reader_field_refs :: "file_reader \<Rightarrow> field_ref list" where
  "reader_field_refs fr =
     map (\<lambda>(n, c). \<lparr>fr_TableName = ReaderAlias, fr_FieldName = n, fr_FieldType = rc_Type c\<rparr>) (frd_Columns fr)"

text \<open>Counts of the columns that use an index and of those that use a header.\<close>

definition indexing_step :: "nat \<times> nat \<Rightarrow> string \<times> reader_column \<Rightarrow> goerr + nat \<times> nat" where
  "indexing_step st p =
     (if length (rc_SrcColHeader (snd p)) > 0 then Inr (fst st, snd st + 1)
      else if rc_SrcColIdx (snd p) \<ge> 0 then Inr (fst st + 1, snd st)
      else Inl ''file reader column definition cannot use negative column index'')"

definition getCsvColumnIndexingMode :: "file_reader \<Rightarrow> goerr + indexing_mode" where
  "getCsvColumnIndexingMode fr =
     bindr (foldr_err indexing_step (0, 0) (frd_Columns fr)) (\<lambda>(usesIdxCount, usesHdrNameCount).
       if usesIdxCount > 0 \<and> usesHdrNameCount > 0
       then Inl ''file reader column definitions cannot use both indexes and names''
       else if usesIdxCount > 0 then Inr FileColumnIndexingIdx
       else if usesHdrNameCount > 0 then Inr FileColumnIndexingName
       else Inl ''file reader column indexing mode dev error'')"

text \<open>The loop over the columns stops at the first that tells the type of the file.\<close>

fun detect_reader_type ::
  "file_reader \<Rightarrow> (string \<times> reader_column) list \<Rightarrow> file_reader \<times> goerr list" where
  "detect_reader_type fr [] = (fr, [])"
| "detect_reader_type fr (p # ps) =
     (if rc_ParquetSrcColName (snd p) \<noteq> '''' then (fr\<lparr>frd_ReaderFileType := ReaderFileTypeParquet\<rparr>, [])
      else if rc_SrcColHeader (snd p) \<noteq> '''' \<or> rc_SrcColIdx (snd p) > 0 \<or> length (frd_Columns fr) = 1 then
        (let fr1 = fr\<lparr>frd_ReaderFileType := ReaderFileTypeCsv,
                      frd_Separator := (if length (frd_Separator fr) = 0 then '','' else frd_Separator fr)\<rparr>
         in case getCsvColumnIndexingMode fr of
              Inl e \<Rightarrow> (fr1, [''cannot detect csv column indexing mode: ['' @ e @ '']''])
            | Inr m \<Rightarrow> (fr1\<lparr>frd_ColumnIndexingMode := m\<rparr>, []))
      else detect_reader_type fr ps)"

text \<open>An error of json.Unmarshal is noted and the checks go on with the fields read so far.\<close>

definition Deserialize_file_reader :: "goerr option \<times> file_reader \<Rightarrow> goerr + file_reader" where
  "Deserialize_file_reader unmarshalled =
     (let fr0 = (snd unmarshalled)\<lparr>frd_ReaderFileType := ReaderFileTypeUnknown\<rparr>;
          es0 = (case fst unmarshalled of None \<Rightarrow> [] | Some e \<Rightarrow> [e]) @
                (if length (frd_SrcFileUrls fr0) = 0 then [''no source file urls specified, need at least one''] else []);
          (fr1, es1) = detect_reader_type fr0 (frd_Columns fr0);
          es = es0 @ es1 @
               (if frd_ReaderFileType fr1 = ReaderFileTypeUnknown then [''cannot detect file reader type''] else [])
      in if length es > 0 then Inl (Join es ''; '') else Inr fr1)"

subsection \<open>Columns by header\<close>

text \<open>Every matching header counts and the last one wins.\<close>

fun resolve_header :: "string list \<Rightarrow> int \<Rightarrow> nat \<Rightarrow> reader_column \<Rightarrow> nat \<times> reader_column" where
  "resolve_header [] i n c = (n, c)"
| "resolve_header (h # hs) i n c =
     (if length (rc_SrcColHeader c) > 0 \<and> h = rc_SrcColHeader c
      then resolve_header hs (i + 1) (n + 1) (c\<lparr>rc_SrcColIdx := i\<rparr>)
      else resolve_header hs (i + 1) n c)"

definition ResolveCsvColumnIndexesFromNames :: "string list \<Rightarrow> file_reader \<Rightarrow> goerr + file_reader" where
  "ResolveCsvColumnIndexesFromNames srcHdrLine fr =
     (let rs = map (\<lambda>p. (fst p, resolve_header srcHdrLine 0 0 (snd p))) (frd_Columns fr);
          columnsResolved = sum_list (map (fst \<circ> snd) rs)
      in if columnsResolved < length (frd_Columns fr) then Inl ''cannot resove all source file column indexes''
         else Inr (fr\<lparr>frd_Columns := map (\<lambda>(n, _, c). (n, c)) rs\<rparr>))"

subsection \<open>Conversion of a column\<close>

definition toString :: "string \<Rightarrow> reader_column \<Rightarrow> goerr + ('f, 'd) gval" where
  "toString colData col =
     (if length (rc_SrcColFormat col) > 0
      then Inl ''cannot read string column: string fields do not accept format specifier''
      else if length colData = 0 then
        (if length (rc_DefaultValue col) > 0 then Inr (VStr (rc_DefaultValue col)) else Inr (VStr ''''))
      else Inr (VStr colData))"

definition toBool :: "string \<Rightarrow> reader_column \<Rightarrow> goerr + ('f, 'd) gval" where
  "toBool colData col =
     (let parse = (\<lambda>s. case ParseBool s of Inl e \<Rightarrow> Inl (''cannot read bool column: '' @ e) | Inr b \<Rightarrow> Inr (VBool b))
      in if length (rc_SrcColFormat col) > 0
         then Inl ''cannot read bool column: bool fields do not accept format specifier''
         else if length (TrimSpace colData) = 0 then
           (if length (TrimSpace (rc_DefaultValue col)) > 0 then parse (rc_DefaultValue col) else Inr (VBool False))
         else parse colData)"

definition toInt :: "('f, 'd) conversions \<Rightarrow> string \<Rightarrow> reader_column \<Rightarrow> goerr + ('f, 'd) gval" where
  "toInt C colData col =
     (let parse = (\<lambda>s. case ParseInt s of (_, Some e) \<Rightarrow> Inl (''cannot read int64 column: '' @ e)
                        | (i, None) \<Rightarrow> Inr (VInt64 i))
      in if length (TrimSpace colData) = 0 then
           (if length (TrimSpace (rc_DefaultValue col)) > 0 then parse (rc_DefaultValue col) else Inr (VInt64 0))
         else if length (rc_SrcColFormat col) > 0 then
           (case c_SscanInt C colData (rc_SrcColFormat col) of
              Inl e \<Rightarrow> Inl (''cannot read int64 column: '' @ e) | Inr i \<Rightarrow> Inr (VInt64 i))
         else parse colData)"

definition toDateTime :: "('f, 'd) conversions \<Rightarrow> string \<Rightarrow> reader_column \<Rightarrow> goerr + ('f, 'd) gval" where
  "toDateTime C colData col =
     (let parse = (\<lambda>s. case c_ParseTime C (rc_SrcColFormat col) s of
                          Inl e \<Rightarrow> Inl (''cannot read time column: '' @ e) | Inr t \<Rightarrow> Inr (VTime t))
      in if length (TrimSpace colData) = 0 then
           (if length (TrimSpace (rc_DefaultValue col)) > 0 then parse (rc_DefaultValue col) else Inr (VTime zero_time))
         else if length (rc_SrcColFormat col) = 0 then Inl ''cannot read datetime column: column format is missing''
         else parse colData)"

definition toFloat :: "('f, 'd) numops \<Rightarrow> ('f, 'd) conversions \<Rightarrow> string \<Rightarrow> reader_column \<Rightarrow> goerr + ('f, 'd) gval" where
  "toFloat N C colData col =
     (let parse = (\<lambda>s. case c_ParseFloat C s of Inl e \<Rightarrow> Inl (''cannot read float64 column: '' @ e)
                        | Inr f \<Rightarrow> Inr (VFloat64 f))
      in if length (TrimSpace colData) = 0 then
           (if length (TrimSpace (rc_DefaultValue col)) > 0 then parse (rc_DefaultValue col)
            else Inr (VFloat64 (f_of_int N 0)))
         else if length (rc_SrcColFormat col) > 0 then
           (case c_SscanFloat C colData (rc_SrcColFormat col) of
              Inl e \<Rightarrow> Inl (''cannot read float64 column: '' @ e) | Inr f \<Rightarrow> Inr (VFloat64 f))
         else parse colData)"

definition toDecimal2 :: "('f, 'd) numops \<Rightarrow> ('f, 'd) conversions \<Rightarrow> string \<Rightarrow> reader_column \<Rightarrow> goerr + ('f, 'd) gval" where
  "toDecimal2 N C colData col =
     (let parse = (\<lambda>s. case d_parse N s of Inl e \<Rightarrow> Inl (''cannot read decimal2 column: '' @ e)
                        | Inr d \<Rightarrow> Inr (VDec (d_round N 2 d)))
      in if length (TrimSpace colData) = 0 then
           (if length (TrimSpace (rc_DefaultValue col)) > 0 then parse (rc_DefaultValue col)
            else Inr (VDec (d_of_float N (f_of_int N 0))))
         else if length (rc_SrcColFormat col) > 0 then
           (case c_SscanFloat C colData (rc_SrcColFormat col) of
              Inl e \<Rightarrow> Inl (''cannot read decimal2 column: '' @ e)
            | Inr f \<Rightarrow> Inr (VDec (d_round N 2 (d_of_float N f))))
         else parse colData)"

definition csv_column ::
  "('f, 'd) numops \<Rightarrow> ('f, 'd) conversions \<Rightarrow> file_reader \<Rightarrow> string list \<Rightarrow> reader_column \<Rightarrow> goerr + ('f, 'd) gval" where
  "csv_column N C fr line col =
     (if rc_SrcColIdx col < 0 \<or> rc_SrcColIdx col \<ge> int (length line)
      then Inl ''cannot read column: source column index is out of range''
      else
        (let raw = line ! nat (rc_SrcColIdx col);
             colData = (if length (frd_NullValue fr) > 0 \<and> raw = frd_NullValue fr then '''' else raw)
         in case rc_Type col of
              FieldTypeString \<Rightarrow> toString colData col
            | FieldTypeBool \<Rightarrow> toBool colData col
            | FieldTypeInt \<Rightarrow> toInt C colData col
            | FieldTypeDateTime \<Rightarrow> toDateTime C colData col
            | FieldTypeFloat \<Rightarrow> toFloat N C colData col
            | FieldTypeDecimal2 \<Rightarrow> toDecimal2 N C colData col
            | FieldTypeUnknown \<Rightarrow> Inl ''cannot read column: unsupported column type''))"

definition ReadCsvLineToValuesMap ::
  "('f, 'd) numops \<Rightarrow> ('f, 'd) conversions \<Rightarrow> string list \<Rightarrow> ('f, 'd) var_values \<Rightarrow> file_reader \<Rightarrow>
     goerr + ('f, 'd) var_values" where
  "ReadCsvLineToValuesMap N C line colVars fr =
     foldr_err (\<lambda>m p. bindr (csv_column N C fr line (snd p)) (\<lambda>v. Inr (set_var ReaderAlias (fst p) v m)))
       (colVars(ReaderAlias \<mapsto> Map.empty)) (frd_Columns fr)"

subsection \<open>Lines are typed\<close>

lemma csv_column_typed:
  assumes "csv_column N C fr line col = Inr v"
  shows "CheckValueType v (rc_Type col) = None"
proof -
  obtain colData where "(case rc_Type col of
              FieldTypeString \<Rightarrow> toString colData col
            | FieldTypeBool \<Rightarrow> toBool colData col
            | FieldTypeInt \<Rightarrow> toInt C colData col
            | FieldTypeDateTime \<Rightarrow> toDateTime C colData col
            | FieldTypeFloat \<Rightarrow> toFloat N C colData col
            | FieldTypeDecimal2 \<Rightarrow> toDecimal2 N C colData col
            | FieldTypeUnknown \<Rightarrow> Inl ''cannot read column: unsupported column type'') = Inr v"
    using assms by (auto simp: csv_column_def Let_def split: if_splits)
  then show ?thesis
    by (cases "rc_Type col")
      (auto simp: toString_def toBool_def toInt_def toDateTime_def toFloat_def toDecimal2_def CheckValueType_def Let_def
        split: if_splits sum.splits prod.splits option.splits)
qed

lemma csv_fold:
  assumes "foldr_err (\<lambda>m p. bindr (csv_column N C fr line (snd p)) (\<lambda>v. Inr (set_var a (fst p) v m))) (m0(a \<mapsto> row)) ps = Inr m"
    and "distinct (map fst ps)"
  shows "\<exists>row'. m = m0(a \<mapsto> row') \<and> dom row' = dom row \<union> fst ` set ps \<and>
    (\<forall>n. n \<notin> fst ` set ps \<longrightarrow> row' n = row n) \<and>
    (\<forall>p\<in>set ps. \<exists>v. csv_column N C fr line (snd p) = Inr v \<and> row' (fst p) = Some v)"
  using assms
proof (induction ps arbitrary: row)
  case (Cons p ps)
  then obtain v where v: "csv_column N C fr line (snd p) = Inr v"
    by (cases "csv_column N C fr line (snd p)") auto
  have s: "set_var a (fst p) v (m0(a \<mapsto> row)) = m0(a \<mapsto> row(fst p \<mapsto> v))"
    by (simp add: set_var_def)
  have step: "foldr_err (\<lambda>m p. bindr (csv_column N C fr line (snd p)) (\<lambda>v. Inr (set_var a (fst p) v m)))
      (m0(a \<mapsto> row(fst p \<mapsto> v))) ps = Inr m"
    using Cons.prems(1) unfolding foldr_err.simps v bindr.simps sum.case s .
  have dist: "distinct (map fst ps)" "fst p \<notin> fst ` set ps" using Cons.prems(2) by simp_all
  obtain row' where r: "m = m0(a \<mapsto> row')" "dom row' = dom (row(fst p \<mapsto> v)) \<union> fst ` set ps"
    "\<forall>n. n \<notin> fst ` set ps \<longrightarrow> row' n = (row(fst p \<mapsto> v)) n"
    "\<forall>p\<in>set ps. \<exists>v. csv_column N C fr line (snd p) = Inr v \<and> row' (fst p) = Some v"
    using Cons.IH [OF step dist(1)] by (elim exE conjE)
  have "row' (fst p) = Some v" using r(3) dist(2) by simp
  then have "\<forall>q\<in>set (p # ps). \<exists>v. csv_column N C fr line (snd q) = Inr v \<and> row' (fst q) = Some v"
    using r(4) v by simp
  moreover have "dom row' = dom row \<union> fst ` set (p # ps)" using r(2) by simp
  moreover have "\<forall>n. n \<notin> fst ` set (p # ps) \<longrightarrow> row' n = row n" using r(3) by simp
  ultimately show ?case using r(1) by blast
next
  case Nil
  then show ?case by (intro exI [of _ row]) simp
qed

text \<open>C28: A line of CSV that is read gives exactly the columns of the reader, each with a value of the
  declared type taken from its place in the line (an error otherwise, never a partial row).\<close>

theorem csv_line_is_typed:
  assumes "ReadCsvLineToValuesMap N C line colVars fr = Inr vars" "distinct (map fst (frd_Columns fr))"
  shows "\<exists>row. vars = colVars(ReaderAlias \<mapsto> row) \<and> dom row = fst ` set (frd_Columns fr) \<and>
    (\<forall>(n, col)\<in>set (frd_Columns fr). \<exists>v. row n = Some v \<and> CheckValueType v (rc_Type col) = None \<and>
       csv_column N C fr line col = Inr v \<and> 0 \<le> rc_SrcColIdx col \<and> rc_SrcColIdx col < int (length line))"
proof -
  obtain row where r: "vars = colVars(ReaderAlias \<mapsto> row)" "dom row = fst ` set (frd_Columns fr)"
    "\<forall>p\<in>set (frd_Columns fr). \<exists>v. csv_column N C fr line (snd p) = Inr v \<and> row (fst p) = Some v"
    using csv_fold [OF assms(1) [unfolded ReadCsvLineToValuesMap_def] assms(2)]
    by (elim exE conjE) (simp only: dom_empty Un_empty_left)
  have i: "0 \<le> rc_SrcColIdx col \<and> rc_SrcColIdx col < int (length line)"
    if "csv_column N C fr line col = Inr v" for col and v :: "('a, 'b) gval"
    using that by (auto simp: csv_column_def split: if_splits)
  have "\<exists>v. row (fst p) = Some v \<and> CheckValueType v (rc_Type (snd p)) = None \<and>
      csv_column N C fr line (snd p) = Inr v \<and> 0 \<le> rc_SrcColIdx (snd p) \<and> rc_SrcColIdx (snd p) < int (length line)"
    if p: "p \<in> set (frd_Columns fr)" for p
  proof -
    obtain v where "csv_column N C fr line (snd p) = Inr v" "row (fst p) = Some v" using r(3) p by blast
    then show ?thesis using i csv_column_typed by blast
  qed
  then show ?thesis using r(1,2) by (intro exI [of _ row]) (simp add: split_def)
qed

definition sample_conversions :: "(int, int) conversions" where
  "sample_conversions = \<lparr>c_ParseFloat = (\<lambda>s. Inl ''syntax''), c_Round = id, c_ParseTime = (\<lambda>l s. Inl ''syntax''),
     c_NewDec = (\<lambda>u s. VOther ''dec''), c_SscanInt = (\<lambda>s f. Inl ''syntax''), c_SscanFloat = (\<lambda>s f. Inl ''syntax'')\<rparr>"

definition sample_reader :: file_reader where
  "sample_reader = \<lparr>frd_SrcFileUrls = [''orders.csv''], frd_SrcFileHdrLineIdx = 0, frd_SrcFileFirstDataLineIdx = 1,
     frd_Separator = '','', frd_NullValue = ''-'', frd_ColumnIndexingMode = FileColumnIndexingIdx,
     frd_Columns = [(''a'', \<lparr>rc_DefaultValue = ''12'', rc_Type = FieldTypeInt, rc_SrcColIdx = 1, rc_SrcColHeader = '''',
                      rc_SrcColFormat = '''', rc_ParquetSrcColName = ''''\<rparr>)],
     frd_ReaderFileType = ReaderFileTypeCsv\<rparr>"

lemma csv_line_is_typed_witness:
  "ReadCsvLineToValuesMap sample_ops sample_conversions [''x'', ''-''] Map.empty sample_reader =
     Inr (Map.empty(ReaderAlias \<mapsto> [''a'' \<mapsto> VInt64 12])) \<and>
   (\<exists>row. Map.empty(ReaderAlias \<mapsto> [''a'' \<mapsto> VInt64 12]) = (Map.empty :: (int, int) var_values)(ReaderAlias \<mapsto> row) \<and>
      dom row = {''a''})"
proof -
  have t: "TrimSpace '''' = ''''" "TrimSpace ''12'' = ''12''" "ParseInt ''12'' = (12, None)" by code_simp+
  have r: "ReadCsvLineToValuesMap sample_ops sample_conversions [''x'', ''-''] Map.empty sample_reader =
      Inr (Map.empty(ReaderAlias \<mapsto> [''a'' \<mapsto> VInt64 12]))"
    using t by (simp add: ReadCsvLineToValuesMap_def sample_reader_def csv_column_def toInt_def set_var_def)
  have d: "distinct (map fst (frd_Columns sample_reader))" by (simp add: sample_reader_def)
  have "\<exists>row. Map.empty(ReaderAlias \<mapsto> [''a'' \<mapsto> VInt64 12]) = (Map.empty :: (int, int) var_values)(ReaderAlias \<mapsto> row) \<and>
      dom row = fst ` set (frd_Columns sample_reader)"
    using csv_line_is_typed [OF r d] by (elim ex_forward) (elim conjE, intro conjI)
  then show ?thesis using r by (simp add: sample_reader_def del: fun_upd_apply)
qed

subsection \<open>Headers that repeat\<close>

text \<open>Without repeated headers every column is found at its header.\<close>

lemma resolve_header_count:
  assumes "distinct hs"
  shows "resolve_header hs i n c =
    (if rc_SrcColHeader c \<noteq> [] \<and> rc_SrcColHeader c \<in> set hs
     then (n + 1, c\<lparr>rc_SrcColIdx := i + int (length (takeWhile (\<lambda>h. h \<noteq> rc_SrcColHeader c) hs))\<rparr>)
     else (n, c))"
  using assms
proof (induction hs arbitrary: i n c)
  case (Cons h hs)
  show ?case
  proof (cases "rc_SrcColHeader c \<noteq> [] \<and> h = rc_SrcColHeader c")
    case True
    then show ?thesis using Cons.IH [of "i + 1" "n + 1" "c\<lparr>rc_SrcColIdx := i\<rparr>"] Cons.prems by simp
  next
    case False
    then have "resolve_header (h # hs) i n c = resolve_header hs (i + 1) n c" by auto
    then show ?thesis using Cons.IH [of "i + 1" n c] Cons.prems False by auto
  qed
qed simp

lemma all_counted: "\<not> sum_list (map (\<lambda>p. if P p then 1 else 0 :: nat) xs) < length xs \<Longrightarrow> \<forall>p\<in>set xs. P p"
proof (induction xs)
  case (Cons x xs)
  have "sum_list (map (\<lambda>p. if P p then 1 else 0 :: nat) xs) \<le> length xs" by (induction xs) auto
  then show ?case using Cons by (auto split: if_splits)
qed simp

lemma headers_resolved:
  assumes "distinct hdr" "ResolveCsvColumnIndexesFromNames hdr fr = Inr fr'" "(n, c') \<in> set (frd_Columns fr')"
  shows "\<exists>c. (n, c) \<in> set (frd_Columns fr) \<and> rc_SrcColHeader c \<in> set hdr \<and> 0 \<le> rc_SrcColIdx c' \<and>
    rc_SrcColIdx c' < int (length hdr) \<and> hdr ! nat (rc_SrcColIdx c') = rc_SrcColHeader c"
proof -
  let ?hit = "\<lambda>c. rc_SrcColHeader c \<noteq> [] \<and> rc_SrcColHeader c \<in> set hdr"
  let ?at = "\<lambda>c. int (length (takeWhile (\<lambda>h. h \<noteq> rc_SrcColHeader c) hdr))"
  have r: "resolve_header hdr 0 0 c = (if ?hit c then (1, c\<lparr>rc_SrcColIdx := ?at c\<rparr>) else (0, c))" for c
    using resolve_header_count [OF assms(1), of 0 0 c] by simp
  have enough: "\<not> sum_list (map (\<lambda>p. if ?hit (snd p) then 1 else 0 :: nat) (frd_Columns fr)) < length (frd_Columns fr)"
    and fr': "frd_Columns fr' = map (\<lambda>p. (fst p, snd (resolve_header hdr 0 0 (snd p)))) (frd_Columns fr)"
    using assms(2) by (auto simp: ResolveCsvColumnIndexesFromNames_def Let_def comp_def r split_def if_distrib
        split: if_splits cong: if_cong)
  have all: "\<forall>p\<in>set (frd_Columns fr). ?hit (snd p)"
    by (rule all_counted [OF enough])
  obtain p where p: "p \<in> set (frd_Columns fr)" "n = fst p" "c' = snd (resolve_header hdr 0 0 (snd p))"
    using assms(3) fr' by auto
  have h: "?hit (snd p)" using all p(1) by blast
  have l: "length (takeWhile (\<lambda>h. h \<noteq> rc_SrcColHeader (snd p)) hdr) < length hdr"
    using h by (induction hdr) auto
  then have "hdr ! length (takeWhile (\<lambda>h. h \<noteq> rc_SrcColHeader (snd p)) hdr) = rc_SrcColHeader (snd p)"
    using nth_length_takeWhile by blast
  then show ?thesis using p h l r [of "snd p"] by (intro exI [of _ "snd p"]) simp
qed

text \<open>A header that occurs twice is counted twice and covers up for a column that is missing: the
  missing column keeps the index 0 and reads the data of another.\<close>

lemma repeated_header_hides_missing_column:
  fixes fr :: file_reader
  assumes "frd_Columns fr = [(''a'', c), (''b'', d)]"
    and "rc_SrcColHeader c = ''A''" "rc_SrcColHeader d = ''B''" "rc_SrcColIdx d = 0"
  shows "ResolveCsvColumnIndexesFromNames [''A'', ''A''] fr =
    Inr (fr\<lparr>frd_Columns := [(''a'', c\<lparr>rc_SrcColIdx := 1\<rparr>), (''b'', d)]\<rparr>)"
  using assms by (simp add: ResolveCsvColumnIndexesFromNames_def)

end
