(* ===== verification/Dep_Policy.thy ===== *)
theory Dep_Policy
  imports Table_Creator Wfmodel
begin

text \<open>
  Dependency policies: the rules that tell from the history of a node whether the nodes that read
  its table may run (pkg/sc/dependency_policy_def.go), and their evaluation against the statuses of
  the runs of a dependency (pkg/dpc/dependency_policy_checker.go). What JsonOrYamlUnmarshal makes of
  a policy is the argument of \<open>Deserialize\<close>.
\<close>

datatype node_cmd = NodeNone | NodeGo | NodeWait | NodeNogo | NodeCmdOther string

definition ReadyToRunNodeCmdTypeFromString :: "string \<Rightarrow> goerr + node_cmd" where
  "ReadyToRunNodeCmdTypeFromString s =
     (if s = ''none'' then Inr NodeNone else if s = ''go'' then Inr NodeGo
      else if s = ''wait'' then Inr NodeWait else if s = ''nogo'' then Inr NodeNogo
      else Inl (''invalid ReadyToRunNodeCmdType '' @ s))"

record dep_rule =
  dr_Cmd :: node_cmd
  dr_RawExpression :: string
  dr_ParsedExpression :: "expr option"

record dep_policy =
  dp_EventPriorityOrderString :: string
  dp_IsDefault :: bool
  dp_Rules :: "dep_rule list"
  dp_OrderIdxDef :: idx_def

definition NewFieldRefsFromNodeEvent :: "field_ref list" where
  "NewFieldRefsFromNodeEvent =
     [\<lparr>fr_TableName = ''nrs'', fr_FieldName = ''run_id'', fr_FieldType = FieldTypeInt\<rparr>,
      \<lparr>fr_TableName = ''nrs'', fr_FieldName = ''run_is_current'', fr_FieldType = FieldTypeBool\<rparr>,
      \<lparr>fr_TableName = ''nrs'', fr_FieldName = ''run_status'', fr_FieldType = FieldTypeInt\<rparr>,
      \<lparr>fr_TableName = ''nrs'', fr_FieldName = ''node_status'', fr_FieldType = FieldTypeInt\<rparr>]"

text \<open>The zero DependencyNodeRunStatus, whose variables say which names a rule may use.\<close>

definition zero_status :: dep_node_run_status where
  "zero_status = \<lparr>dn_RunId = 0, dn_RunIsCurrent = False, dn_RunStatus = 0, dn_NodeStatus = 0, dn_SortKey = ''''\<rparr>"

definition parseEventPriorityOrderString :: "('f, 'd) lang \<Rightarrow> dep_policy \<Rightarrow> goerr + dep_policy" where
  "parseEventPriorityOrderString L pol =
     (case parseRawIndexDefMap (l_parse L)
             [(''order_by'', ''non_unique('' @ dp_EventPriorityOrderString pol @ '')'')] NewFieldRefsFromNodeEvent [] of
        Inl e \<Rightarrow> Inl (''cannot parse event order string: '' @ e)
      | Inr m \<Rightarrow>
          (case map_of m ''order_by'' of
             None \<Rightarrow> Inl ''panic: nil pointer dereference''
           | Some d \<Rightarrow> Inr (pol\<lparr>dp_OrderIdxDef := d\<rparr>)))"

text \<open>A name that a rule uses must be among the variables.\<close>

definition rule_ref_error :: "('f, 'd) var_values \<Rightarrow> field_ref \<Rightarrow> goerr option" where
  "rule_ref_error vars fr =
     (case vars (fr_TableName fr) of
        None \<Rightarrow> Some ''cannot parse rule expression: all fields must be prefixed with one of the tables''
      | Some r \<Rightarrow>
          (if r (fr_FieldName fr) = None then Some ''cannot parse rule expression: field not found'' else None))"

definition parse_rule :: "('f, 'd) lang \<Rightarrow> dep_rule \<Rightarrow> goerr + dep_rule" where
  "parse_rule L r =
     (case parse_exp L (dr_RawExpression r) [] of
        Inl e \<Rightarrow> Inl (''cannot parse rule expression: '' @ e)
      | Inr (ex, used) \<Rightarrow>
          (case List.find (\<lambda>fr. rule_ref_error (DependencyCheckerNodeVars zero_status :: ('f, 'd) var_values) fr \<noteq> None) used of
             Some fr \<Rightarrow> Inl (the (rule_ref_error (DependencyCheckerNodeVars zero_status :: ('f, 'd) var_values) fr))
           | None \<Rightarrow> Inr (r\<lparr>dr_ParsedExpression := ex\<rparr>)))"

definition Deserialize_dep_policy :: "('f, 'd) lang \<Rightarrow> goerr + dep_policy \<Rightarrow> goerr + dep_policy" where
  "Deserialize_dep_policy L unmarshalled =
     (case unmarshalled of
        Inl e \<Rightarrow> Inl (''cannot unmarshal dependency policy: ['' @ e @ '']'')
      | Inr pol \<Rightarrow>
          bindr (parseEventPriorityOrderString L pol) (\<lambda>pol1.
            bindr (mapr (parse_rule L) (dp_Rules pol1)) (\<lambda>rules. Inr (pol1\<lparr>dp_Rules := rules\<rparr>))))"

text \<open>The rules are tried on the zero status, one after the other in one context.\<close>

fun eval_rules_check :: "('f, 'd) numops \<Rightarrow> dep_rule list \<Rightarrow> ('f, 'd) eval_ctx \<Rightarrow> goerr option" where
  "eval_rules_check N [] c = None"
| "eval_rules_check N (r # rs) c =
     (case eval_opt N (dr_ParsedExpression r) c of
        ((_, Some e), _) \<Rightarrow> Some (''invalid rule expression: '' @ e)
      | ((v, None), c1) \<Rightarrow>
          (case CheckValueType v FieldTypeBool of
             Some e \<Rightarrow> Some (''invalid rule expression type: '' @ e)
           | None \<Rightarrow> eval_rules_check N rs c1))"

definition evalRuleExpressionsAndCheckType :: "('f, 'd) lang \<Rightarrow> dep_policy \<Rightarrow> goerr option" where
  "evalRuleExpressionsAndCheckType L pol =
     eval_rules_check (l_ops L) (dp_Rules pol) (plain_ctx L (DependencyCheckerNodeVars zero_status))"

subsection \<open>Checking a policy against a history\<close>

definition dpc_event_key ::
  "('f, 'd) lang \<Rightarrow> ('f \<Rightarrow> string) \<Rightarrow> (string \<Rightarrow> string) \<Rightarrow> (string \<Rightarrow> string) \<Rightarrow> dep_policy \<Rightarrow>
     dep_node_run_status \<Rightarrow> goerr + dep_node_run_status" where
  "dpc_event_key L fmt32 unaccent upper pol ev =
     (case BuildKey (l_ops L) fmt32 unaccent upper (the (DependencyCheckerNodeVars ev ''nrs'')) (dp_OrderIdxDef pol) of
        Inl e \<Rightarrow> Inl (''unexpectedly, cannot build key to sort events: '' @ e)
      | Inr k \<Rightarrow> Inr (ev\<lparr>dn_SortKey := k\<rparr>))"

text \<open>The rules against one event, in one context: the index and the command of the first that holds.\<close>

fun match_rules ::
  "('f, 'd) numops \<Rightarrow> nat \<Rightarrow> dep_rule list \<Rightarrow> ('f, 'd) eval_ctx \<Rightarrow> goerr + (nat \<times> node_cmd) option" where
  "match_rules N i [] c = Inr None"
| "match_rules N i (r # rs) c =
     (case eval_opt N (dr_ParsedExpression r) c of
        ((_, Some e), _) \<Rightarrow> Inl (''cannot check rule, eval failed: '' @ e)
      | ((VBool b, None), c1) \<Rightarrow> (if b then Inr (Some (i, dr_Cmd r)) else match_rules N (i + 1) rs c1)
      | _ \<Rightarrow> Inl ''cannot check rule: expected result type was bool'')"

fun match_events ::
  "('f, 'd) lang \<Rightarrow> dep_rule list \<Rightarrow> dep_node_run_status list \<Rightarrow> goerr + (node_cmd \<times> int \<times> int) option" where
  "match_events L rules [] = Inr None"
| "match_events L rules (ev # evs) =
     (case match_rules (l_ops L) 0 rules (plain_ctx L (DependencyCheckerNodeVars ev)) of
        Inl e \<Rightarrow> Inl e
      | Inr (Some (i, cmd)) \<Rightarrow> Inr (Some (cmd, dn_RunId ev, int i))
      | Inr None \<Rightarrow> match_events L rules evs)"

text \<open>
  The command, the run it comes from, the index of the rule (-1 when none holds) and the error.
  The caller passes at least one event; the code panics on none.
\<close>

definition CheckDependencyPolicyAgainstNodeEventList ::
  "('f, 'd) lang \<Rightarrow> ('f \<Rightarrow> string) \<Rightarrow> (string \<Rightarrow> string) \<Rightarrow> (string \<Rightarrow> string) \<Rightarrow> dep_policy \<Rightarrow>
     dep_node_run_status list \<Rightarrow> node_cmd \<times> int \<times> int \<times> goerr option" where
  "CheckDependencyPolicyAgainstNodeEventList L fmt32 unaccent upper pol events =
     (case mapr (dpc_event_key L fmt32 unaccent upper pol) events of
        Inl e \<Rightarrow> (NodeNogo, 0, -1, Some e)
      | Inr keyed \<Rightarrow>
          (let sortedEvents = SortFunc (cmp_key dn_SortKey) keyed in
           case match_events L (dp_Rules pol) sortedEvents of
             Inl e \<Rightarrow> (NodeNogo, 0, -1, Some e)
           | Inr (Some (cmd, runId, i)) \<Rightarrow> (cmd, runId, i, None)
           | Inr None \<Rightarrow>
               (case sortedEvents of
                  [] \<Rightarrow> (NodeNogo, 0, -1, Some ''panic: index out of range'')
                | ev # _ \<Rightarrow> (NodeWait, dn_RunId ev, -1, None))))"

subsection \<open>The first rule that holds decides\<close>

definition rule_holds :: "('f, 'd) lang \<Rightarrow> dep_node_run_status \<Rightarrow> dep_rule \<Rightarrow> bool" where
  "rule_holds L ev r \<longleftrightarrow>
     eval_plain L (dr_ParsedExpression r) (DependencyCheckerNodeVars ev) = (VBool True, None)"

text \<open>Rules without aggregate calls, which evaluate to a boolean on the event.\<close>

definition plain_rule :: "dep_rule \<Rightarrow> bool" where
  "plain_rule r \<longleftrightarrow> (case dr_ParsedExpression r of None \<Rightarrow> True | Some e \<Rightarrow> agg_calls e = {})"

lemma plain_rule_eval:
  assumes "plain_rule r" "same_env c (plain_ctx L vars)"
  shows "fst (eval_opt (l_ops L) (dr_ParsedExpression r) c) = eval_plain L (dr_ParsedExpression r) vars"
    and "same_env (snd (eval_opt (l_ops L) (dr_ParsedExpression r) c)) (plain_ctx L vars)"
proof -
  have "fst (eval_opt (l_ops L) (dr_ParsedExpression r) c) = eval_plain L (dr_ParsedExpression r) vars \<and>
      same_env (snd (eval_opt (l_ops L) (dr_ParsedExpression r) c)) (plain_ctx L vars)"
  proof (cases "dr_ParsedExpression r")
    case (Some e)
    then have "framed (Eval (l_ops L) e)" using assms(1) Eval_framed by (simp add: plain_rule_def)
    then have f: "fst (Eval (l_ops L) e c) = fst (Eval (l_ops L) e (plain_ctx L vars))"
      "only_value c (snd (Eval (l_ops L) e c))"
      using assms(2) by (simp_all add: framed_def)
    then show ?thesis using Some only_value_same_env [OF f(2) only_value_refl assms(2)]
      by (simp add: eval_plain_def eval_opt_def)
  qed (use assms(2) in \<open>simp add: eval_opt_def eval_plain_def\<close>)
  then show "fst (eval_opt (l_ops L) (dr_ParsedExpression r) c) = eval_plain L (dr_ParsedExpression r) vars"
    and "same_env (snd (eval_opt (l_ops L) (dr_ParsedExpression r) c)) (plain_ctx L vars)" by simp_all
qed

lemma match_rules_first:
  assumes "\<forall>r\<in>set rs. plain_rule r" "same_env c (plain_ctx L (DependencyCheckerNodeVars ev))"
    and "match_rules (l_ops L) i rs c = Inr out"
  shows "case out of
      None \<Rightarrow> \<forall>r\<in>set rs. \<not> rule_holds L ev r
    | Some (j, cmd) \<Rightarrow> i \<le> j \<and> j - i < length rs \<and> cmd = dr_Cmd (rs ! (j - i)) \<and> rule_holds L ev (rs ! (j - i)) \<and>
        (\<forall>m < j - i. \<not> rule_holds L ev (rs ! m))"
  using assms
proof (induction rs arbitrary: i c)
  case (Cons r rs)
  obtain v e c1 where ev: "eval_opt (l_ops L) (dr_ParsedExpression r) c = ((v, e), c1)" by (metis prod.exhaust)
  have r: "eval_plain L (dr_ParsedExpression r) (DependencyCheckerNodeVars ev) = (v, e)"
    and env: "same_env c1 (plain_ctx L (DependencyCheckerNodeVars ev))"
    using plain_rule_eval [of r c L] Cons.prems(1,2) ev by simp_all
  obtain b where b: "v = VBool b" "e = None"
    using Cons.prems(3) ev by (cases e; cases v) simp_all
  show ?case
  proof (cases b)
    case True
    then show ?thesis using Cons.prems(3) ev b r by (auto simp: rule_holds_def)
  next
    case False
    then have m: "match_rules (l_ops L) (i + 1) rs c1 = Inr out" using Cons.prems(3) ev b by simp
    have n: "\<not> rule_holds L ev r" using False r b by (simp add: rule_holds_def)
    note ih = Cons.IH [OF _ env m]
    show ?thesis
    proof (cases out)
      case (Some p)
      obtain j cmd where p: "p = (j, cmd)" by (cases p)
      have j: "i + 1 \<le> j" "j - (i + 1) < length rs" "cmd = dr_Cmd (rs ! (j - (i + 1)))"
        "rule_holds L ev (rs ! (j - (i + 1)))" "\<forall>m < j - (i + 1). \<not> rule_holds L ev (rs ! m)"
        using ih Cons.prems(1) Some p by simp_all
      then obtain k where k: "j - i = Suc k" "j - (i + 1) = k" by (cases "j - i") auto
      have "\<forall>m < Suc k. \<not> rule_holds L ev ((r # rs) ! m)" using j(5) n k by (auto simp: nth_Cons split: nat.splits)
      then show ?thesis using Some p j k by auto
    qed (use ih Cons.prems(1) n in simp)
  qed
qed simp

lemma match_events_first:
  assumes "\<forall>r\<in>set rules. plain_rule r" "match_events L rules evs = Inr out"
  shows "case out of
      None \<Rightarrow> \<forall>ev\<in>set evs. \<forall>r\<in>set rules. \<not> rule_holds L ev r
    | Some (cmd, runId, i) \<Rightarrow> \<exists>k < length evs. 0 \<le> i \<and> nat i < length rules \<and> runId = dn_RunId (evs ! k) \<and>
        cmd = dr_Cmd (rules ! nat i) \<and> rule_holds L (evs ! k) (rules ! nat i) \<and>
        (\<forall>m < nat i. \<not> rule_holds L (evs ! k) (rules ! m)) \<and>
        (\<forall>m < k. \<forall>r\<in>set rules. \<not> rule_holds L (evs ! m) r)"
  using assms(2)
proof (induction evs)
  case (Cons ev evs)
  obtain o1 where o1: "match_rules (l_ops L) 0 rules (plain_ctx L (DependencyCheckerNodeVars ev)) = Inr o1"
    using Cons.prems by (auto split: sum.splits)
  note first = match_rules_first [OF assms(1) same_env_refl o1]
  show ?case
  proof (cases o1)
    case None
    then have m: "match_events L rules evs = Inr out" using Cons.prems o1 by simp
    have n: "\<forall>r\<in>set rules. \<not> rule_holds L ev r" using first None by simp
    show ?thesis
    proof (cases out)
      case (Some q)
      obtain cmd runId i where q: "q = (cmd, runId, i)" by (cases q)
      then obtain k where k: "k < length evs" "0 \<le> i" "nat i < length rules" "runId = dn_RunId (evs ! k)"
        "cmd = dr_Cmd (rules ! nat i)" "rule_holds L (evs ! k) (rules ! nat i)"
        "\<forall>m < nat i. \<not> rule_holds L (evs ! k) (rules ! m)" "\<forall>m < k. \<forall>r\<in>set rules. \<not> rule_holds L (evs ! m) r"
        using Cons.IH [OF m] Some by auto
      have "\<forall>m < Suc k. \<forall>r\<in>set rules. \<not> rule_holds L ((ev # evs) ! m) r"
        using k(8) n by (auto simp: nth_Cons split: nat.splits)
      then show ?thesis using k Some q by (auto intro!: exI [of _ "Suc k"])
    qed (use Cons.IH [OF m] n in simp)
  next
    case (Some p)
    obtain j cmd where p: "p = (j, cmd)" by (cases p)
    then have "out = Some (cmd, dn_RunId ev, int j)" using Cons.prems o1 Some by simp
    then show ?thesis using first Some p by (auto intro!: exI [of _ "0 :: nat"])
  qed
qed simp

definition event_text ::
  "('f, 'd) lang \<Rightarrow> ('f \<Rightarrow> string) \<Rightarrow> (string \<Rightarrow> string) \<Rightarrow> (string \<Rightarrow> string) \<Rightarrow> dep_policy \<Rightarrow>
     dep_node_run_status \<Rightarrow> goerr + string" where
  "event_text L fmt32 unaccent upper pol ev =
     BuildKey (l_ops L) fmt32 unaccent upper (the (DependencyCheckerNodeVars ev ''nrs'')) (dp_OrderIdxDef pol)"

lemma vars_ignore_key [simp]: "DependencyCheckerNodeVars (ev\<lparr>dn_SortKey := k\<rparr>) = DependencyCheckerNodeVars ev"
  by (simp add: DependencyCheckerNodeVars_def)

lemma rule_ignores_key [simp]: "rule_holds L (ev\<lparr>dn_SortKey := k\<rparr>) r = rule_holds L ev r"
  by (simp add: rule_holds_def)

lemma keyed_events:
  assumes "mapr (dpc_event_key L fmt32 unaccent upper pol) events = Inr keyed"
  shows "keyed = map (\<lambda>ev. ev\<lparr>dn_SortKey := projr (event_text L fmt32 unaccent upper pol ev)\<rparr>) events"
proof -
  have k: "dpc_event_key L fmt32 unaccent upper pol ev = Inr x \<Longrightarrow>
      x = ev\<lparr>dn_SortKey := projr (event_text L fmt32 unaccent upper pol ev)\<rparr>" for ev x
    by (auto simp: dpc_event_key_def event_text_def split: sum.splits)
  show ?thesis using assms k unfolding mapr_Inr_map by (auto intro!: map_cong)
qed

text \<open>The decision, whatever the order of events with the same key.\<close>

lemma policy_decides:
  assumes "\<forall>r\<in>set (dp_Rules pol). plain_rule r"
    and "CheckDependencyPolicyAgainstNodeEventList L fmt32 unaccent upper pol events = (cmd, runId, i, None)"
  shows "(\<exists>ev\<in>set events. 0 \<le> i \<and> nat i < length (dp_Rules pol) \<and> runId = dn_RunId ev \<and>
      cmd = dr_Cmd (dp_Rules pol ! nat i) \<and> rule_holds L ev (dp_Rules pol ! nat i) \<and>
      (\<forall>m < nat i. \<not> rule_holds L ev (dp_Rules pol ! m)) \<and>
      (\<forall>ev'\<in>set events. projr (event_text L fmt32 unaccent upper pol ev') < projr (event_text L fmt32 unaccent upper pol ev) \<longrightarrow>
         (\<forall>r\<in>set (dp_Rules pol). \<not> rule_holds L ev' r))) \<or>
    i = -1 \<and> cmd = NodeWait \<and> runId \<in> dn_RunId ` set events \<and>
      (\<forall>ev\<in>set events. \<forall>r\<in>set (dp_Rules pol). \<not> rule_holds L ev r)"
proof -
  let ?key = "\<lambda>ev. projr (event_text L fmt32 unaccent upper pol ev)"
  let ?with = "\<lambda>ev. ev\<lparr>dn_SortKey := ?key ev\<rparr>"
  obtain keyed where keyed: "mapr (dpc_event_key L fmt32 unaccent upper pol) events = Inr keyed"
    using assms(2) by (auto simp: CheckDependencyPolicyAgainstNodeEventList_def split: sum.splits)
  have kd: "keyed = map ?with events" by (rule keyed_events [OF keyed])
  define evs where "evs = SortFunc (cmp_key dn_SortKey) keyed"
  have sorted: "sorted (map dn_SortKey evs)"
    using key_cmp.sorted_SortFunc [of dn_SortKey keyed] by (simp add: sorted_cmp_key evs_def)
  have mem: "set evs = ?with ` set events" by (simp add: evs_def kd)
  obtain out where out: "match_events L (dp_Rules pol) evs = Inr out"
    using assms(2) keyed by (auto simp: CheckDependencyPolicyAgainstNodeEventList_def Let_def evs_def split: sum.splits)
  note first = match_events_first [OF assms(1) out]
  show ?thesis
  proof (cases out)
    case None
    then have e: "i = -1 \<and> cmd = NodeWait \<and> evs \<noteq> [] \<and> runId = dn_RunId (hd evs)"
      using assms(2) keyed out
      by (auto simp: CheckDependencyPolicyAgainstNodeEventList_def Let_def evs_def [symmetric] split: list.splits)
    then have "hd evs \<in> ?with ` set events" using mem hd_in_set by blast
    then have "runId \<in> dn_RunId ` set events" using e by auto
    then show ?thesis using first None e mem by auto
  next
    case (Some q)
    then have "q = (cmd, runId, i)"
      using assms(2) keyed out
      by (auto simp: CheckDependencyPolicyAgainstNodeEventList_def Let_def evs_def [symmetric] split: prod.splits)
    then obtain k where k: "k < length evs" "0 \<le> i" "nat i < length (dp_Rules pol)" "runId = dn_RunId (evs ! k)"
        "cmd = dr_Cmd (dp_Rules pol ! nat i)" "rule_holds L (evs ! k) (dp_Rules pol ! nat i)"
        "\<forall>m < nat i. \<not> rule_holds L (evs ! k) (dp_Rules pol ! m)"
        "\<forall>m < k. \<forall>r\<in>set (dp_Rules pol). \<not> rule_holds L (evs ! m) r"
      using first unfolding Some \<open>q = (cmd, runId, i)\<close> option.case prod.case by (elim exE conjE)
    obtain ev where ev: "ev \<in> set events" "evs ! k = ?with ev" using mem k(1) nth_mem by blast
    have "\<forall>r\<in>set (dp_Rules pol). \<not> rule_holds L ev' r"
      if ev': "ev' \<in> set events" "?key ev' < ?key ev" for ev'
    proof -
      have "?with ev' \<in> set evs" unfolding mem using ev'(1) by (rule imageI)
      then obtain m where m: "m < length evs" "evs ! m = ?with ev'" unfolding in_set_conv_nth by blast
      have "\<not> k \<le> m"
        using sorted_nth_mono [OF sorted, of k m] m ev ev'(2) by auto
      then have "\<forall>r\<in>set (dp_Rules pol). \<not> rule_holds L (evs ! m) r" using k(8) by simp
      then show ?thesis by (simp add: m(2))
    qed
    then show ?thesis using k(2-7) ev by (intro disjI1 bexI [of _ ev]) simp_all
  qed
qed

text \<open>C30: A policy whose rules have no aggregate calls returns the command of its first rule that holds,
  on an event before which, in the order of the policy, no rule holds on any event; if no rule holds
  on any event it says to wait.\<close>

theorem first_rule_decides:
  assumes "\<forall>r\<in>set (dp_Rules pol). plain_rule r"
    and "CheckDependencyPolicyAgainstNodeEventList L fmt32 unaccent upper pol events = (cmd, runId, i, None)"
  shows "(\<exists>ev\<in>set events. 0 \<le> i \<and> nat i < length (dp_Rules pol) \<and> runId = dn_RunId ev \<and>
      cmd = dr_Cmd (dp_Rules pol ! nat i) \<and> rule_holds L ev (dp_Rules pol ! nat i) \<and>
      (\<forall>m < nat i. \<not> rule_holds L ev (dp_Rules pol ! m)) \<and>
      (\<forall>ev'\<in>set events. projr (event_text L fmt32 unaccent upper pol ev') < projr (event_text L fmt32 unaccent upper pol ev) \<longrightarrow>
         (\<forall>r\<in>set (dp_Rules pol). \<not> rule_holds L ev' r))) \<or>
    i = -1 \<and> cmd = NodeWait \<and> runId \<in> dn_RunId ` set events \<and>
      (\<forall>ev\<in>set events. \<forall>r\<in>set (dp_Rules pol). \<not> rule_holds L ev r)"
  by (rule policy_decides [OF assms])

subsection \<open>The default policy\<close>

text \<open>DefaultPolicyCheckerConfJson, with the expressions as the parser gives them.\<close>

definition nrs :: "string \<Rightarrow> expr" where "nrs f = SelectorExpr (Ident ''nrs'') f"
definition wfm :: "string \<Rightarrow> expr" where "wfm c = SelectorExpr (Ident ''wfmodel'') c"
definition eqx :: "expr \<Rightarrow> expr \<Rightarrow> expr" where "eqx x y = BinaryExpr x EQL y"
definition andx :: "expr \<Rightarrow> expr \<Rightarrow> expr" where "andx x y = BinaryExpr x LAND y"

definition current_is :: "string \<Rightarrow> expr" where "current_is b = eqx (nrs ''run_is_current'') (Ident b)"
definition run_is :: "string \<Rightarrow> expr" where "run_is c = eqx (nrs ''run_status'') (wfm c)"
definition node_is :: "string \<Rightarrow> expr" where "node_is c = eqx (nrs ''node_status'') (wfm c)"

definition run_start_or_none :: expr where
  "run_start_or_none = ParenExpr (BinaryExpr (run_is ''RunStart'') LOR (run_is ''RunNone''))"

definition rule :: "node_cmd \<Rightarrow> expr \<Rightarrow> dep_rule" where
  "rule cmd ex = \<lparr>dr_Cmd = cmd, dr_RawExpression = '''', dr_ParsedExpression = Some ex\<rparr>"

definition default_rules :: "dep_rule list" where
  "default_rules =
    [rule NodeGo (andx (andx (current_is ''true'') (run_is ''RunStart'')) (node_is ''NodeBatchSuccess'')),
     rule NodeWait (andx (andx (current_is ''true'') run_start_or_none) (node_is ''NodeBatchNone'')),
     rule NodeWait (andx (andx (current_is ''true'') run_start_or_none) (node_is ''NodeBatchStart'')),
     rule NodeNogo (andx (andx (current_is ''true'') (run_is ''RunStart'')) (node_is ''NodeBatchFail'')),
     rule NodeGo (andx (andx (current_is ''false'') (run_is ''RunStart'')) (node_is ''NodeBatchSuccess'')),
     rule NodeWait (andx (andx (current_is ''false'') run_start_or_none) (node_is ''NodeBatchNone'')),
     rule NodeWait (andx (andx (current_is ''false'') run_start_or_none) (node_is ''NodeBatchStart'')),
     rule NodeGo (andx (andx (current_is ''false'') (run_is ''RunComplete'')) (node_is ''NodeBatchSuccess'')),
     rule NodeNogo (andx (andx (current_is ''false'') (run_is ''RunComplete'')) (node_is ''NodeBatchFail'')),
     rule NodeNogo (andx (current_is ''false'') (run_is ''RunStop''))]"

definition default_policy :: dep_policy where
  "default_policy =
    \<lparr>dp_EventPriorityOrderString = ''run_is_current(desc), run_id(desc)'', dp_IsDefault = True,
     dp_Rules = default_rules,
     dp_OrderIdxDef = \<lparr>idx_Uniqueness = IdxNonUnique, idx_Components =
       [\<lparr>ic_FieldName = ''run_is_current'', ic_CaseSensitivity = IdxCaseSensitivityUnknown,
         ic_SortOrder = IdxSortDesc, ic_StringLen = 64, ic_FieldType = FieldTypeBool\<rparr>,
        \<lparr>ic_FieldName = ''run_id'', ic_CaseSensitivity = IdxCaseSensitivityUnknown,
         ic_SortOrder = IdxSortDesc, ic_StringLen = 64, ic_FieldType = FieldTypeInt\<rparr>]\<rparr>\<rparr>"

text \<open>The decision of the default policy on one event.\<close>

definition verdict :: "dep_node_run_status \<Rightarrow> node_cmd option" where
  "verdict ev =
     (let r = dn_RunStatus ev; n = dn_NodeStatus ev in
      if dn_RunIsCurrent ev then
        (if r = RunStart \<and> n = NodeBatchSuccess then Some NodeGo
         else if (r = RunStart \<or> r = RunNone) \<and> (n = NodeBatchNone \<or> n = NodeBatchStart) then Some NodeWait
         else if r = RunStart \<and> n = NodeBatchFail then Some NodeNogo
         else None)
      else
        (if (r = RunStart \<or> r = RunComplete) \<and> n = NodeBatchSuccess then Some NodeGo
         else if (r = RunStart \<or> r = RunNone) \<and> (n = NodeBatchNone \<or> n = NodeBatchStart) then Some NodeWait
         else if r = RunComplete \<and> n = NodeBatchFail \<or> r = RunStop then Some NodeNogo
         else None))"

text \<open>The constants true and false are known; no constant shadows a variable of the rules.\<close>

definition policy_lang :: "('f, 'd) lang \<Rightarrow> bool" where
  "policy_lang L \<longleftrightarrow> l_consts L ''true'' = Some (VBool True) \<and> l_consts L ''false'' = Some (VBool False) \<and>
     (\<forall>f. l_consts L (''nrs.'' @ f) = None) \<and> (\<forall>f. l_consts L (''wfmodel.'' @ f) = None)"

lemmas eval_simps = eval_name_def assign_def binary_op_def evalBinaryCompareExp_def evalBinaryBoolToBoolExp_def
  castNumberPairToCommonType_def castNumberToStandardType_def is_float64_def is_dec_def CastToInt64_def
  EvalBinaryIntToBool_def isCompareOp_def compare_result_def EvalBinaryBool_def EvalBinaryBoolToBool_def

definition evaluates :: "('f, 'd) lang \<Rightarrow> dep_node_run_status \<Rightarrow> expr \<Rightarrow> bool \<Rightarrow> bool" where
  "evaluates L ev e b \<longleftrightarrow> (\<forall>c :: ('f, 'd) eval_ctx.
     evalVars c = Some (DependencyCheckerNodeVars ev) \<longrightarrow> evalConstants c = Some (l_consts L) \<longrightarrow>
     (\<exists>c'. Eval (l_ops L) e c = ((VBool b, None), c') \<and> evalVars c' = evalVars c \<and> evalConstants c' = evalConstants c))"

lemma evaluates_op:
  assumes "evaluates L ev x a" "evaluates L ev y b" "op = LAND \<and> r = (a \<and> b) \<or> op = LOR \<and> r = (a \<or> b)"
  shows "evaluates L ev (BinaryExpr x op y) r"
  unfolding evaluates_def
proof (intro allI impI)
  fix c :: "('a, 'b) eval_ctx"
  assume c: "evalVars c = Some (DependencyCheckerNodeVars ev)" "evalConstants c = Some (l_consts L)"
  obtain c1 where c1: "Eval (l_ops L) x c = ((VBool a, None), c1)" "evalVars c1 = evalVars c" "evalConstants c1 = evalConstants c"
    using assms(1) c unfolding evaluates_def by blast
  then obtain c2 where c2: "Eval (l_ops L) y c1 = ((VBool b, None), c2)" "evalVars c2 = evalVars c" "evalConstants c2 = evalConstants c"
    using assms(2) c unfolding evaluates_def by force
  show "\<exists>c'. Eval (l_ops L) (BinaryExpr x op y) c = ((VBool r, None), c') \<and> evalVars c' = evalVars c \<and>
      evalConstants c' = evalConstants c"
    using c1 c2 assms(3) by (elim disjE) (simp_all add: eval_simps)
qed

lemma evaluates_andx: "evaluates L ev x a \<Longrightarrow> evaluates L ev y b \<Longrightarrow> evaluates L ev (andx x y) (a \<and> b)"
  unfolding andx_def by (rule evaluates_op) simp_all

lemma dotted: "''nrs.'' @ f = ''nrs'' @ ''.'' @ f" "''wfmodel.'' @ f = ''wfmodel'' @ ''.'' @ f"
  by simp_all

lemma evaluates_current:
  assumes "policy_lang L"
  shows "evaluates L ev (current_is ''true'') (dn_RunIsCurrent ev)"
    "evaluates L ev (current_is ''false'') (\<not> dn_RunIsCurrent ev)"
  using assms
  by (simp_all add: evaluates_def policy_lang_def current_is_def eqx_def nrs_def DependencyCheckerNodeVars_def eval_simps)

lemma evaluates_run:
  assumes "policy_lang L"
  shows "evaluates L ev (run_is ''RunStart'') (dn_RunStatus ev = RunStart)"
    "evaluates L ev (run_is ''RunNone'') (dn_RunStatus ev = RunNone)"
    "evaluates L ev (run_is ''RunComplete'') (dn_RunStatus ev = RunComplete)"
    "evaluates L ev (run_is ''RunStop'') (dn_RunStatus ev = RunStop)"
  using assms
  by (simp_all add: evaluates_def policy_lang_def run_is_def eqx_def nrs_def wfm_def DependencyCheckerNodeVars_def eval_simps)

lemma evaluates_node:
  assumes "policy_lang L"
  shows "evaluates L ev (node_is ''NodeBatchNone'') (dn_NodeStatus ev = NodeBatchNone)"
    "evaluates L ev (node_is ''NodeBatchStart'') (dn_NodeStatus ev = NodeBatchStart)"
    "evaluates L ev (node_is ''NodeBatchSuccess'') (dn_NodeStatus ev = NodeBatchSuccess)"
    "evaluates L ev (node_is ''NodeBatchFail'') (dn_NodeStatus ev = NodeBatchFail)"
  using assms
  by (simp_all add: evaluates_def policy_lang_def node_is_def eqx_def nrs_def wfm_def DependencyCheckerNodeVars_def eval_simps)

lemma evaluates_start_or_none:
  assumes "policy_lang L"
  shows "evaluates L ev run_start_or_none (dn_RunStatus ev = RunStart \<or> dn_RunStatus ev = RunNone)"
proof -
  have "evaluates L ev (BinaryExpr (run_is ''RunStart'') LOR (run_is ''RunNone''))
      (dn_RunStatus ev = RunStart \<or> dn_RunStatus ev = RunNone)"
    by (rule evaluates_op [OF evaluates_run(1,2) [OF assms]]) simp
  then show ?thesis by (simp add: evaluates_def run_start_or_none_def)
qed

definition default_conds :: "dep_node_run_status \<Rightarrow> bool list" where
  "default_conds ev =
     (let cur = dn_RunIsCurrent ev; r = dn_RunStatus ev; n = dn_NodeStatus ev in
      [(cur \<and> r = RunStart) \<and> n = NodeBatchSuccess,
       (cur \<and> (r = RunStart \<or> r = RunNone)) \<and> n = NodeBatchNone,
       (cur \<and> (r = RunStart \<or> r = RunNone)) \<and> n = NodeBatchStart,
       (cur \<and> r = RunStart) \<and> n = NodeBatchFail,
       (\<not> cur \<and> r = RunStart) \<and> n = NodeBatchSuccess,
       (\<not> cur \<and> (r = RunStart \<or> r = RunNone)) \<and> n = NodeBatchNone,
       (\<not> cur \<and> (r = RunStart \<or> r = RunNone)) \<and> n = NodeBatchStart,
       (\<not> cur \<and> r = RunComplete) \<and> n = NodeBatchSuccess,
       (\<not> cur \<and> r = RunComplete) \<and> n = NodeBatchFail,
       \<not> cur \<and> r = RunStop])"

lemma default_rules_evaluate:
  assumes "policy_lang L"
  shows "list_all2 (\<lambda>r b. \<exists>e. dr_ParsedExpression r = Some e \<and> evaluates L ev e b) default_rules (default_conds ev)"
  using assms unfolding default_rules_def default_conds_def Let_def rule_def
  by (simp only: list_all2_Cons list_all2_Nil dep_rule.simps option.inject ex_simps simp_thms)
    (intro conjI evaluates_andx evaluates_current evaluates_run evaluates_node evaluates_start_or_none)

lemma default_rules_plain: "\<forall>r\<in>set default_rules. plain_rule r"
  by (simp add: default_rules_def rule_def plain_rule_def andx_def current_is_def run_is_def node_is_def eqx_def
      nrs_def wfm_def run_start_or_none_def)

lemma evaluates_plain: "evaluates L ev e b \<Longrightarrow> eval_plain L (Some e) (DependencyCheckerNodeVars ev) = (VBool b, None)"
proof -
  assume "evaluates L ev e b"
  moreover have "evalVars (plain_ctx L (DependencyCheckerNodeVars ev)) = Some (DependencyCheckerNodeVars ev)"
    "evalConstants (plain_ctx L (DependencyCheckerNodeVars ev)) = Some (l_consts L)"
    by (simp_all add: plain_ctx_def NewPlainEvalCtx_def)
  ultimately obtain c' where "Eval (l_ops L) e (plain_ctx L (DependencyCheckerNodeVars ev)) = ((VBool b, None), c')"
    unfolding evaluates_def by blast
  then show ?thesis by (simp add: eval_plain_def eval_opt_def)
qed

lemma default_rule_holds:
  assumes "policy_lang L" "k < length default_rules"
  shows "rule_holds L ev (default_rules ! k) = default_conds ev ! k"
proof -
  obtain e where "dr_ParsedExpression (default_rules ! k) = Some e" "evaluates L ev e (default_conds ev ! k)"
    using list_all2_nthD [OF default_rules_evaluate [OF assms(1)] assms(2)] by blast
  then show ?thesis using evaluates_plain by (fastforce simp: rule_holds_def)
qed

lemma match_rules_total:
  assumes "list_all2 (\<lambda>r b. \<exists>e. dr_ParsedExpression r = Some e \<and> evaluates L ev e b) rs bs"
    and "evalVars c = Some (DependencyCheckerNodeVars ev)" "evalConstants c = Some (l_consts L)"
  shows "\<exists>out. match_rules (l_ops L) i rs c = Inr out"
  using assms
proof (induction rs bs arbitrary: i c rule: list_all2_induct)
  case (Cons r rs b bs)
  obtain e c1 where "dr_ParsedExpression r = Some e" "Eval (l_ops L) e c = ((VBool b, None), c1)"
    "evalVars c1 = evalVars c" "evalConstants c1 = evalConstants c"
    using Cons.hyps(1) Cons.prems unfolding evaluates_def by blast
  then show ?case using Cons.IH [of c1 "i + 1"] Cons.prems by (simp add: eval_opt_def)
qed simp

lemma default_match_events: "policy_lang L \<Longrightarrow> \<exists>out. match_events L default_rules evs = Inr out"
proof (induction evs)
  case (Cons ev evs)
  obtain o1 where "match_rules (l_ops L) 0 default_rules (plain_ctx L (DependencyCheckerNodeVars ev)) = Inr o1"
    using match_rules_total [OF default_rules_evaluate [OF Cons.prems, of ev], of "plain_ctx L (DependencyCheckerNodeVars ev)" 0]
    by (auto simp: plain_ctx_def NewPlainEvalCtx_def)
  then show ?case using Cons by (cases o1) auto
qed simp

lemma verdict_first:
  "(\<forall>k < length default_rules. \<not> default_conds ev ! k) \<Longrightarrow> verdict ev = None"
  "k < length default_rules \<Longrightarrow> default_conds ev ! k \<Longrightarrow> verdict ev = Some (dr_Cmd (default_rules ! k))"
proof -
  have l: "length default_rules = 10" by (simp add: default_rules_def)
  show "(\<forall>k < length default_rules. \<not> default_conds ev ! k) \<Longrightarrow> verdict ev = None"
    unfolding l default_conds_def verdict_def
    by (cases "dn_RunIsCurrent ev") (auto simp: Let_def All_less_Suc numeral_eq_Suc)
  assume k: "k < length default_rules" "default_conds ev ! k"
  then have "k \<in> {0, 1, 2, 3, 4, 5, 6, 7, 8, 9}" unfolding l by auto
  then show "verdict ev = Some (dr_Cmd (default_rules ! k))"
    using k(2) by (auto simp: default_conds_def default_rules_def rule_def verdict_def Let_def)
qed

lemma default_text:
  assumes "in_range 16 (dn_RunId ev)" "in_range 16 (dn_RunId ev')"
  shows "\<exists>k l. event_text L fmt32 unaccent upper default_policy ev = Inr k \<and>
    event_text L fmt32 unaccent upper default_policy ev' = Inr l \<and>
    (k < l \<longleftrightarrow> dn_RunIsCurrent ev \<and> \<not> dn_RunIsCurrent ev' \<or>
      dn_RunIsCurrent ev = dn_RunIsCurrent ev' \<and> dn_RunId ev' < dn_RunId ev)"
proof -
  let ?f = "\<lambda>ev. the (DependencyCheckerNodeVars ev ''nrs'') :: ('a, 'b) row"
  let ?d = "dp_OrderIdxDef default_policy"
  have p: "proper_record unaccent upper (idx_Components ?d) (?f ev)" if "in_range 16 (dn_RunId ev)" for ev
    using that by (simp add: default_policy_def proper_record_def DependencyCheckerNodeVars_def proper_def in_range_def)
  have less: "record_less unaccent upper (idx_Components ?d) (?f ev) (?f ev') \<longleftrightarrow>
      dn_RunIsCurrent ev \<and> \<not> dn_RunIsCurrent ev' \<or>
      dn_RunIsCurrent ev = dn_RunIsCurrent ev' \<and> dn_RunId ev' < dn_RunId ev"
    by (auto simp: default_policy_def DependencyCheckerNodeVars_def field_less_def value_less_def)
  show ?thesis using record_keys [OF p [OF assms(1)] p [OF assms(2)], of "l_ops L" fmt32]
    unfolding event_text_def less [symmetric] by blast
qed

lemma default_check_no_error:
  assumes "policy_lang L" "events \<noteq> []" "\<And>ev. ev \<in> set events \<Longrightarrow> \<exists>k. event_text L fmt32 unaccent upper default_policy ev = Inr k"
  shows "\<exists>cmd runId i. CheckDependencyPolicyAgainstNodeEventList L fmt32 unaccent upper default_policy events = (cmd, runId, i, None)"
proof -
  let ?t = "event_text L fmt32 unaccent upper default_policy"
  have "mapr (dpc_event_key L fmt32 unaccent upper default_policy) events =
      Inr (map (\<lambda>ev. ev\<lparr>dn_SortKey := projr (?t ev)\<rparr>) events)"
    using assms(3) by (intro mapr_all_Inr) (fastforce simp: dpc_event_key_def event_text_def split: sum.split)
  moreover have "SortFunc (cmp_key dn_SortKey) (map (\<lambda>ev. ev\<lparr>dn_SortKey := projr (?t ev)\<rparr>) events) \<noteq> []"
    using assms(2) by simp
  then obtain ev0 evs where
    "SortFunc (cmp_key dn_SortKey) (map (\<lambda>ev. ev\<lparr>dn_SortKey := projr (?t ev)\<rparr>) events) = ev0 # evs"
    unfolding neq_Nil_conv by blast
  moreover obtain out where "match_events L default_rules (ev0 # evs) = Inr out"
    using default_match_events [OF assms(1)] by blast
  moreover have "dp_Rules default_policy = default_rules" by (simp add: default_policy_def)
  ultimately have "CheckDependencyPolicyAgainstNodeEventList L fmt32 unaccent upper default_policy events =
      (case out of Some (cmd, runId, i) \<Rightarrow> (cmd, runId, i, None) | None \<Rightarrow> (NodeWait, dn_RunId ev0, -1, None))"
    by (simp add: CheckDependencyPolicyAgainstNodeEventList_def del: match_events.simps split: option.split)
  then show ?thesis by (cases out) auto
qed

text \<open>C31: Under the default policy the decision is never an error: it is the verdict on the event with the
  highest priority (the current run first, then the later run) that has one, and to wait when no
  event has. In particular a node goes ahead only after a run in which its dependency succeeded.\<close>

theorem default_policy_verdict:
  assumes "policy_lang L" "events \<noteq> []" "\<forall>ev\<in>set events. in_range 16 (dn_RunId ev)"
  shows "\<exists>cmd runId i.
    CheckDependencyPolicyAgainstNodeEventList L fmt32 unaccent upper default_policy events = (cmd, runId, i, None) \<and>
    ((\<exists>ev\<in>set events. verdict ev = Some cmd \<and> runId = dn_RunId ev \<and>
        (\<forall>ev'\<in>set events. dn_RunIsCurrent ev' \<and> \<not> dn_RunIsCurrent ev \<or>
           dn_RunIsCurrent ev' = dn_RunIsCurrent ev \<and> dn_RunId ev < dn_RunId ev' \<longrightarrow> verdict ev' = None)) \<or>
     cmd = NodeWait \<and> i = -1 \<and> (\<forall>ev\<in>set events. verdict ev = None))"
proof -
  let ?t = "event_text L fmt32 unaccent upper default_policy"
  have texts: "\<exists>k. ?t ev = Inr k" if "ev \<in> set events" for ev
    using default_text [of ev ev] assms(3) that by blast
  obtain cmd runId i where check:
    "CheckDependencyPolicyAgainstNodeEventList L fmt32 unaccent upper default_policy events = (cmd, runId, i, None)"
    using default_check_no_error [OF assms(1,2) texts] by blast
  have rules: "dp_Rules default_policy = default_rules" by (simp add: default_policy_def)
  have none: "verdict ev = None" if "\<forall>r\<in>set default_rules. \<not> rule_holds L ev r" for ev
    using that default_rule_holds [OF assms(1), of _ ev] nth_mem by (intro verdict_first(1)) blast
  have some: "verdict ev = Some (dr_Cmd (default_rules ! k))"
    if "k < length default_rules" "rule_holds L ev (default_rules ! k)" for ev k
    using that default_rule_holds [OF assms(1), of k ev] by (intro verdict_first(2)) simp_all
  show ?thesis
    using policy_decides [of default_policy L fmt32 unaccent upper events cmd runId i, unfolded rules,
        OF default_rules_plain check]
  proof (elim disjE bexE conjE)
    fix ev
    assume ev: "ev \<in> set events" "nat i < length default_rules" "runId = dn_RunId ev"
      "cmd = dr_Cmd (default_rules ! nat i)" "rule_holds L ev (default_rules ! nat i)"
      "\<forall>ev'\<in>set events. projr (?t ev') < projr (?t ev) \<longrightarrow> (\<forall>r\<in>set default_rules. \<not> rule_holds L ev' r)"
    have "verdict ev' = None" if higher: "ev' \<in> set events" "dn_RunIsCurrent ev' \<and> \<not> dn_RunIsCurrent ev \<or>
           dn_RunIsCurrent ev' = dn_RunIsCurrent ev \<and> dn_RunId ev < dn_RunId ev'" for ev'
    proof -
      obtain k l where "?t ev' = Inr k" "?t ev = Inr l" "k < l"
        using default_text [of ev' ev L fmt32 unaccent upper] assms(3) ev(1) higher by blast
      then have "\<forall>r\<in>set default_rules. \<not> rule_holds L ev' r" using ev(6) higher(1) by (metis sum.sel(2))
      then show ?thesis by (rule none)
    qed
    then show ?thesis using check ev some [OF ev(2,5)] by blast
  next
    assume "i = -1" "cmd = NodeWait" "\<forall>ev\<in>set events. \<forall>r\<in>set default_rules. \<not> rule_holds L ev r"
    then show ?thesis using check none by blast
  qed
qed

definition sample_status :: "int \<Rightarrow> bool \<Rightarrow> int \<Rightarrow> int \<Rightarrow> dep_node_run_status" where
  "sample_status runId cur r n =
     \<lparr>dn_RunId = runId, dn_RunIsCurrent = cur, dn_RunStatus = r, dn_NodeStatus = n, dn_SortKey = ''''\<rparr>"

lemma default_policy_verdict_witness:
  "\<exists>i. CheckDependencyPolicyAgainstNodeEventList sample_lang (\<lambda>_. []) id id default_policy
     [sample_status 1 False RunComplete NodeBatchFail, sample_status 2 False RunComplete NodeBatchSuccess] =
     (NodeGo, 2, i, None)"
proof -
  let ?evs = "[sample_status 1 False RunComplete NodeBatchFail, sample_status 2 False RunComplete NodeBatchSuccess]"
  have ne: "?evs \<noteq> []" by simp
  have r: "\<forall>ev\<in>set ?evs. in_range 16 (dn_RunId ev)" by (simp add: sample_status_def in_range_def)
  have "policy_lang sample_lang" by (simp add: policy_lang_def sample_lang_def)
  then obtain cmd runId i where
    c: "CheckDependencyPolicyAgainstNodeEventList sample_lang (\<lambda>_. []) id id default_policy ?evs = (cmd, runId, i, None)"
    and d: "(\<exists>ev\<in>set ?evs. verdict ev = Some cmd \<and> runId = dn_RunId ev \<and>
        (\<forall>ev'\<in>set ?evs. dn_RunIsCurrent ev' \<and> \<not> dn_RunIsCurrent ev \<or>
           dn_RunIsCurrent ev' = dn_RunIsCurrent ev \<and> dn_RunId ev < dn_RunId ev' \<longrightarrow> verdict ev' = None)) \<or>
     cmd = NodeWait \<and> i = -1 \<and> (\<forall>ev\<in>set ?evs. verdict ev = None)"
    using default_policy_verdict [OF _ ne r, of sample_lang "\<lambda>_. []" id id] by blast
  have "cmd = NodeGo \<and> runId = 2" using d by (auto simp: verdict_def sample_status_def)
  then show ?thesis using c by blast
qed

lemma first_rule_decides_witness:
  "\<exists>cmd runId i. CheckDependencyPolicyAgainstNodeEventList sample_lang (\<lambda>_. []) id id
     (default_policy\<lparr>dp_Rules := [\<lparr>dr_Cmd = NodeNogo, dr_RawExpression = ''true'', dr_ParsedExpression = Some (Ident ''true'')\<rparr>]\<rparr>)
     [sample_status 3 True RunStart NodeBatchStart] = (cmd, runId, i, None) \<and> i \<noteq> -1"
proof -
  let ?pol = "default_policy\<lparr>dp_Rules := [\<lparr>dr_Cmd = NodeNogo, dr_RawExpression = ''true'', dr_ParsedExpression = Some (Ident ''true'')\<rparr>]\<rparr>"
  let ?ev = "sample_status 3 True RunStart NodeBatchStart"
  obtain k where "event_text sample_lang (\<lambda>_. []) id id default_policy ?ev = Inr k"
    using default_text [of ?ev ?ev sample_lang "\<lambda>_. []" id id] by (auto simp: sample_status_def in_range_def)
  then have k: "dpc_event_key sample_lang (\<lambda>_. []) id id ?pol ?ev = Inr (?ev\<lparr>dn_SortKey := k\<rparr>)"
    by (simp add: dpc_event_key_def event_text_def)
  have "match_events sample_lang (dp_Rules ?pol) [?ev\<lparr>dn_SortKey := k\<rparr>] = Inr (Some (NodeNogo, 3, 0))"
    by (simp add: eval_opt_def plain_ctx_def eval_name_def assign_def NewPlainEvalCtx_def sample_lang_def sample_status_def)
  then have "CheckDependencyPolicyAgainstNodeEventList sample_lang (\<lambda>_. []) id id ?pol [?ev] = (NodeNogo, 3, 0, None)"
    using k by (simp add: CheckDependencyPolicyAgainstNodeEventList_def SortFunc_def del: match_events.simps)
  moreover have "\<forall>r\<in>set (dp_Rules ?pol). plain_rule r" by (simp add: plain_rule_def)
  ultimately show ?thesis
    using first_rule_decides [of ?pol sample_lang "\<lambda>_. []" id id "[?ev]" NodeNogo 3 0] by auto
qed

end
