(* ===== verification/Script_Node.thy ===== *)
theory Script_Node
  imports Lookup_Def File_Creator File_Reader Dep_Policy
begin

text \<open>
  The nodes of a script (pkg/sc/script_node_def.go): their types and policies, the defaults and
  checks when a node is read from a script, the test evaluation of its expressions, and the
  intervals of tokens that its batches read. What json.Unmarshal makes of the parts of a node and
  the factory of custom processors are the record \<open>loader\<close>. A pointer to the creator of a table
  is the name of the node that holds it.
\<close>

datatype node_type =
    NodeTypeNone | NodeTypeFileTable | NodeTypeTableTable | NodeTypeTableLookupTable | NodeTypeTableFile
  | NodeTypeTableCustomTfmTable | NodeTypeDistinctTable | NodeTypeOther string

datatype rerun_policy = NodeRerun | NodeFail | RerunOther string
datatype start_policy = NodeStartManual | NodeStartAuto | StartOther string

definition HandlerExeTypeGeneric :: string where "HandlerExeTypeGeneric = ''capi_daemon''"
definition MaxAcceptedBatchesByTableReader :: int where "MaxAcceptedBatchesByTableReader = 1000000"
definition DefaultRowsetSize :: int where "DefaultRowsetSize = 1000"
definition MaxRowsetSize :: int where "MaxRowsetSize = 100000"

record table_reader =
  trd_TableName :: string
  trd_ExpectedBatchesTotal :: int
  trd_RowsetSize :: int
  trd_TableCreator :: "string option"

text \<open>A custom processor, as far as a script sees it: the results of its two methods.\<close>

record custom_proc =
  cp_FieldRefs :: "field_ref list"
  cp_UsedInTargetExpressionsFields :: "field_ref list"

record script_node =
  sn_Name :: string
  sn_Type :: node_type
  sn_StartPolicy :: start_policy
  sn_RerunPolicy :: rerun_policy
  sn_CustomProcessorType :: string
  sn_HandlerExeType :: string
  sn_MaxBatchProcessingTime :: int
  sn_RawReader :: string
  sn_TableReader :: table_reader
  sn_FileReader :: file_reader
  sn_Lookup :: lookup
  sn_RawProcessorDef :: string
  sn_CustomProcessor :: "custom_proc option"
  sn_RawWriter :: string
  sn_DependencyPolicyName :: string
  sn_TableCreator :: table_creator
  sn_FileCreator :: file_creator
  sn_DepPolDef :: "dep_policy option"

record loader =
  ld_TableReader :: "string \<Rightarrow> goerr + table_reader"
  ld_FileReader :: "string \<Rightarrow> goerr option \<times> file_reader"
  ld_TableCreator :: "string \<Rightarrow> goerr + table_creator"
  ld_FileCreator :: "string \<Rightarrow> goerr + file_creator"
  ld_Policy :: "string \<Rightarrow> goerr + dep_policy"
  ld_Factory :: "(string \<Rightarrow> (string \<Rightarrow> string \<Rightarrow> goerr + custom_proc) option) option"
  ld_Settings :: "(string \<rightharpoonup> string) option"

definition ValidateNodeType :: "node_type \<Rightarrow> goerr option" where
  "ValidateNodeType t =
     (if t \<in> set [NodeTypeFileTable, NodeTypeTableTable, NodeTypeTableLookupTable, NodeTypeTableFile,
                NodeTypeDistinctTable, NodeTypeTableCustomTfmTable]
      then None else Some ''invalid node type'')"

definition ValidateRerunPolicy :: "rerun_policy \<Rightarrow> goerr option" where
  "ValidateRerunPolicy p = (if p = NodeRerun \<or> p = NodeFail then None else Some ''invalid node rerun policy'')"

definition ValidateStartPolicy :: "start_policy \<Rightarrow> goerr option" where
  "ValidateStartPolicy p =
     (if p = NodeStartManual \<or> p = NodeStartAuto then None else Some ''invalid node start policy'')"

definition HasTableReader :: "script_node \<Rightarrow> bool" where
  "HasTableReader n \<longleftrightarrow>
     sn_Type n = NodeTypeTableTable \<or> sn_Type n = NodeTypeTableLookupTable \<or> sn_Type n = NodeTypeTableFile \<or>
     sn_Type n = NodeTypeDistinctTable \<or> sn_Type n = NodeTypeTableCustomTfmTable"

definition HasFileReader :: "script_node \<Rightarrow> bool" where "HasFileReader n \<longleftrightarrow> sn_Type n = NodeTypeFileTable"
definition HasLookup :: "script_node \<Rightarrow> bool" where "HasLookup n \<longleftrightarrow> sn_Type n = NodeTypeTableLookupTable"

definition HasCustomProcessor :: "script_node \<Rightarrow> bool" where
  "HasCustomProcessor n \<longleftrightarrow> sn_Type n = NodeTypeTableCustomTfmTable"

definition HasTableCreator :: "script_node \<Rightarrow> bool" where
  "HasTableCreator n \<longleftrightarrow>
     sn_Type n = NodeTypeFileTable \<or> sn_Type n = NodeTypeTableTable \<or> sn_Type n = NodeTypeDistinctTable \<or>
     sn_Type n = NodeTypeTableLookupTable \<or> sn_Type n = NodeTypeTableCustomTfmTable"

definition HasFileCreator :: "script_node \<Rightarrow> bool" where "HasFileCreator n \<longleftrightarrow> sn_Type n = NodeTypeTableFile"

lemmas node_has_defs = HasTableReader_def HasFileReader_def HasLookup_def HasCustomProcessor_def
  HasTableCreator_def HasFileCreator_def

definition GetTargetName :: "script_node \<Rightarrow> string" where
  "GetTargetName n =
     (if HasTableCreator n then tc_Name (sn_TableCreator n)
      else if HasFileCreator n then CreatorAlias else ''dev_error_uknown_target_name'')"

subsection \<open>Deserialize\<close>

text \<open>
  An error leaves the node partly set in the code; the caller gives up on every error, so here it
  is the error alone. With errors from the creator the check of a distinct table sees the partial
  creator there, which can only add to the text of the error.
\<close>

definition initReader :: "loader \<Rightarrow> script_node \<Rightarrow> goerr + script_node" where
  "initReader ld n =
     (if HasTableReader n then
        (case ld_TableReader ld (sn_RawReader n) of
           Inl e \<Rightarrow> Inl (''cannot unmarshal table reader: ['' @ e @ '']'')
         | Inr tr \<Rightarrow>
             (let total = trd_ExpectedBatchesTotal tr;
                  es = (if length (trd_TableName tr) = 0 then [''table reader cannot reference empty table name''] else []) @
                       (if total \<noteq> 0 \<and> (total < 0 \<or> total > MaxAcceptedBatchesByTableReader)
                        then [''table reader can accept between 1 and the maximum number of batches''] else []) @
                       (if trd_RowsetSize tr < 0 \<or> MaxRowsetSize < trd_RowsetSize tr
                        then [''invalid rowset size''] else [])
              in if length es > 0 then Inl (Join es ''; '')
                 else Inr (n\<lparr>sn_TableReader := tr\<lparr>trd_ExpectedBatchesTotal := (if total = 0 then 1 else total),
                               trd_RowsetSize := (if trd_RowsetSize tr = 0 then DefaultRowsetSize else trd_RowsetSize tr)\<rparr>\<rparr>)))
      else if HasFileReader n then
        (case Deserialize_file_reader (ld_FileReader ld (sn_RawReader n)) of
           Inl e \<Rightarrow> Inl (''cannot deserialize file reader: ['' @ e @ '']'')
         | Inr fr \<Rightarrow> Inr (n\<lparr>sn_FileReader := fr\<rparr>))
      else Inr n)"

definition initCreator :: "('f, 'd) lang \<Rightarrow> loader \<Rightarrow> script_node \<Rightarrow> goerr + script_node" where
  "initCreator L ld n =
     (if HasTableCreator n then
        (case Deserialize_table_creator L (ld_TableCreator ld (sn_RawWriter n)) of
           Inl e \<Rightarrow> Inl (''cannot deserialize table creator: ['' @ e @ '']'')
         | Inr tc \<Rightarrow> Inr (n\<lparr>sn_TableCreator := tc\<rparr>))
      else if HasFileCreator n then
        (case Deserialize_file_creator L (ld_FileCreator ld (sn_RawWriter n)) of
           Inl e \<Rightarrow> Inl (''cannot deserialize file creator: ['' @ e @ '']'')
         | Inr fc \<Rightarrow> Inr (n\<lparr>sn_FileCreator := fc\<rparr>))
      else Inr n)"

definition initCustomProcessor :: "loader \<Rightarrow> script_node \<Rightarrow> goerr + script_node" where
  "initCustomProcessor ld n =
     (if \<not> HasCustomProcessor n then Inr n
      else (case ld_Factory ld of
              None \<Rightarrow> Inl ''undefined custom processor factory''
            | Some create \<Rightarrow>
                (case ld_Settings ld of
                   None \<Rightarrow> Inl ''missing custom processor settings section''
                 | Some settings \<Rightarrow>
                     (case create (sn_CustomProcessorType n) of
                        None \<Rightarrow> Inl ''cannot deserialize unknown custom processor''
                      | Some deserialize \<Rightarrow>
                          (case settings (sn_CustomProcessorType n) of
                             None \<Rightarrow> Inl ''cannot find custom processing settings''
                           | Some s \<Rightarrow>
                               (case deserialize (sn_RawProcessorDef n) s of
                                  Inl e \<Rightarrow> Inl (''cannot deserialize custom processor: ['' @ e @ '']'')
                                | Inr p \<Rightarrow> Inr (n\<lparr>sn_CustomProcessor := Some p\<rparr>)))))))"

text \<open>A step that fails is noted and the node stays as it is for the steps that follow.\<close>

definition noting :: "(script_node \<Rightarrow> goerr + script_node) \<Rightarrow> script_node \<times> goerr list \<Rightarrow> script_node \<times> goerr list" where
  "noting f st = (case f (fst st) of Inl e \<Rightarrow> (fst st, snd st @ [e]) | Inr n \<Rightarrow> (n, snd st))"

definition node_defaults :: "script_node \<Rightarrow> goerr + script_node" where
  "node_defaults n =
     (let n1 = n\<lparr>sn_MaxBatchProcessingTime := (if sn_MaxBatchProcessingTime n = 0 then 60000 else sn_MaxBatchProcessingTime n),
                 sn_HandlerExeType := (if length (sn_HandlerExeType n) = 0 then HandlerExeTypeGeneric else sn_HandlerExeType n)\<rparr>
      in bindr (if sn_RerunPolicy n1 = RerunOther '''' then Inr (n1\<lparr>sn_RerunPolicy := NodeRerun\<rparr>)
                else (case ValidateRerunPolicy (sn_RerunPolicy n1) of Some e \<Rightarrow> Inl e | None \<Rightarrow> Inr n1))
           (\<lambda>n2. if sn_StartPolicy n2 = StartOther '''' then Inr (n2\<lparr>sn_StartPolicy := NodeStartAuto\<rparr>)
                 else (case ValidateStartPolicy (sn_StartPolicy n2) of Some e \<Rightarrow> Inl e | None \<Rightarrow> Inr n2)))"

definition check_distinct :: "script_node \<Rightarrow> goerr + script_node" where
  "check_distinct n =
     (if sn_Type n = NodeTypeDistinctTable
      then (case GetSingleUniqueIndexDef (sn_TableCreator n) of Inl e \<Rightarrow> Inl e | Inr _ \<Rightarrow> Inr n)
      else Inr n)"

definition Deserialize_node :: "('f, 'd) lang \<Rightarrow> loader \<Rightarrow> script_node \<Rightarrow> goerr + script_node" where
  "Deserialize_node L ld n =
     (case ValidateNodeType (sn_Type n) of
        Some e \<Rightarrow> Inl e
      | None \<Rightarrow>
          bindr (node_defaults n) (\<lambda>n1.
            case noting check_distinct (noting (initCustomProcessor ld) (noting (initCreator L ld) (noting (initReader ld) (n1, [])))) of
              (n2, es) \<Rightarrow> (if length es > 0 then Inl (Join es ''; '') else Inr n2)))"

subsection \<open>The test evaluation of the expressions of a node\<close>

text \<open>
  AggFinderVisitor under ast.Walk: a call of an aggregate function is noted and not entered; the
  last one is reported. Nodes that the evaluator does not know have no parts in the model.
\<close>

definition later :: "'a option \<Rightarrow> 'a option \<Rightarrow> 'a option" where
  "later a b = (case b of None \<Rightarrow> a | Some e \<Rightarrow> Some e)"

fun find_agg :: "expr \<Rightarrow> goerr option" and find_agg_list :: "expr list \<Rightarrow> goerr option" where
  "find_agg (BinaryExpr x op y) = later (find_agg x) (find_agg y)"
| "find_agg (BasicLit k s) = None"
| "find_agg (UnaryExpr op x) = find_agg x"
| "find_agg (Ident n) = None"
| "find_agg (CallExpr pos fn args) =
     (case fn of
        Ident f \<Rightarrow> (if StringToAggFunc f \<noteq> AggUnknown then Some (''found aggregate function '' @ f @ ''()'') else find_agg_list args)
      | _ \<Rightarrow> later (find_agg fn) (find_agg_list args))"
| "find_agg (SelectorExpr x sel) = find_agg x"
| "find_agg (ParenExpr x) = find_agg x"
| "find_agg OtherExpr = None"
| "find_agg_list [] = None"
| "find_agg_list (x # xs) = later (find_agg x) (find_agg_list xs)"

definition test_exp :: "('f, 'd) lang \<Rightarrow> expr option \<Rightarrow> field_ref list \<Rightarrow> field_type \<Rightarrow> goerr option" where
  "test_exp L = evalExpressionWithFieldRefsAndCheckType (l_ops L) (l_funs L) (l_consts L) (l_now L)"

definition noted :: "string \<Rightarrow> goerr option \<Rightarrow> goerr list" where
  "noted msg e = (case e of None \<Rightarrow> [] | Some e \<Rightarrow> [msg @ '': ['' @ e @ '']''])"

definition check_target_field :: "('f, 'd) lang \<Rightarrow> script_node \<Rightarrow> string \<times> write_field \<Rightarrow> goerr list" where
  "check_target_field L n p =
     (if HasLookup n \<and> \<not> lk_IsGroup (sn_Lookup n) \<or> \<not> HasLookup n then
        (case wf_ParsedExpression (snd p) of
           None \<Rightarrow> [''target field expression was not parsed successfully'']
         | Some e \<Rightarrow> noted ''cannot use agg functions'' (find_agg e))
      else []) @
     noted ''cannot evaluate table creator target field expression''
       (test_exp L (wf_ParsedExpression (snd p)) (tc_UsedInTargetExpressionsFields (sn_TableCreator n)) (wf_Type (snd p)))"

definition evalCreatorAndLookupExpressionsAndCheckType :: "('f, 'd) lang \<Rightarrow> script_node \<Rightarrow> goerr option" where
  "evalCreatorAndLookupExpressionsAndCheckType L n =
     (let es =
        (if HasLookup n \<and> UsesFilter (sn_Lookup n) then
           noted ''cannot evaluate lookup filter expression''
             (test_exp L (lk_Filter (sn_Lookup n)) (lk_UsedInFilterFields (sn_Lookup n)) FieldTypeBool)
         else []) @
        (if HasTableCreator n then
           noted ''cannot evaluate table creator 'having' expression''
             (test_exp L (tc_Having (sn_TableCreator n)) (tc_UsedInHavingFields (sn_TableCreator n)) FieldTypeBool) @
           concat (map (check_target_field L n) (tc_Fields (sn_TableCreator n)))
         else []) @
        (if HasFileCreator n then
           noted ''cannot evaluate file creator 'having' expression''
             (test_exp L (fcr_Having (sn_FileCreator n)) (fcr_UsedInHavingFields (sn_FileCreator n)) FieldTypeBool) @
           concat (map (\<lambda>c. noted ''cannot evaluate file creator target field expression''
             (test_exp L (fc_ParsedExpression c) (fcr_UsedInTargetExpressionsFields (sn_FileCreator n)) (fc_Type c)))
             (fcr_Columns (sn_FileCreator n)))
         else [])
      in if length es > 0 then Some (Join es ''; '') else None)"

subsection \<open>Field references of a node\<close>

text \<open>The argument \<open>creator\<close> follows the pointer to the creator of the table that the node reads.\<close>

definition getSourceFieldRefs :: "(string \<Rightarrow> table_creator option) \<Rightarrow> script_node \<Rightarrow> goerr + field_ref list" where
  "getSourceFieldRefs creator n =
     (if HasFileReader n then Inr (reader_field_refs (sn_FileReader n))
      else if HasTableReader n then
        (case trd_TableCreator (sn_TableReader n) of
           None \<Rightarrow> Inl ''panic: nil pointer dereference''
         | Some p \<Rightarrow> (case creator p of
                        None \<Rightarrow> Inl ''panic: nil pointer dereference''
                      | Some tc \<Rightarrow> Inr (GetFieldRefsWithAlias ReaderAlias tc)))
      else Inl ''dev error, node has no file or table reader'')"

definition index_fields :: "(string \<times> idx_def) list \<Rightarrow> (string \<times> field_type) list" where
  "index_fields idxs =
     fold (\<lambda>c m. AList.update (ic_FieldName c) (ic_FieldType c) m) (concat (map (idx_Components \<circ> snd) idxs)) []"

definition fields_as_refs :: "string \<Rightarrow> (string \<times> field_type) list \<Rightarrow> field_ref list" where
  "fields_as_refs t = map (\<lambda>(f, ty). \<lparr>fr_TableName = t, fr_FieldName = f, fr_FieldType = ty\<rparr>)"

definition GetUniqueIndexesFieldRefs :: "script_node \<Rightarrow> field_ref list" where
  "GetUniqueIndexesFieldRefs n =
     (if \<not> HasTableCreator n then []
      else fields_as_refs (tc_Name (sn_TableCreator n))
             (index_fields (filter (\<lambda>p. idx_Uniqueness (snd p) = IdxUnique) (tc_Indexes (sn_TableCreator n)))))"

definition GetAllIndexesFieldRefs :: "script_node \<Rightarrow> field_ref list" where
  "GetAllIndexesFieldRefs n =
     (if \<not> HasTableCreator n then []
      else fields_as_refs (tc_Name (sn_TableCreator n)) (index_fields (tc_Indexes (sn_TableCreator n))))"

definition isNodeUsesIdx :: "string \<Rightarrow> script_node \<Rightarrow> bool" where
  "isNodeUsesIdx idxName n \<longleftrightarrow>
     HasLookup n \<and> lk_IndexName (sn_Lookup n) = idxName \<or>
     (case map_of (tc_Indexes (sn_TableCreator n)) idxName of
        None \<Rightarrow> False
      | Some d \<Rightarrow> sn_Type n = NodeTypeDistinctTable \<and> idx_Uniqueness d = IdxUnique)"

subsection \<open>The token intervals of the batches\<close>

definition MinInt64 :: int where "MinInt64 = - (2 ^ 63)"
definition MaxInt64 :: int where "MaxInt64 = 2 ^ 63 - 1"

text \<open>The loop, with the number of intervals still to fill.\<close>

fun interval_loop :: "int \<Rightarrow> int \<Rightarrow> nat \<Rightarrow> (int \<times> int) list" where
  "interval_loop per left 0 = []"
| "interval_loop per left (Suc k) =
     (let right = (if k = 0 then MaxInt64 else wrap64 (left + per - 1))
      in (left, right) # interval_loop per (wrap64 (right + 1)) k)"

definition GetTokenIntervalsByNumberOfBatches :: "script_node \<Rightarrow> goerr + (int \<times> int) list" where
  "GetTokenIntervalsByNumberOfBatches n =
     (let total = trd_ExpectedBatchesTotal (sn_TableReader n) in
      if HasTableReader n \<or> HasFileCreator n \<and> total > 1 then
        (if total = 1 then Inr [(MinInt64, MaxInt64)]
         else if total = 0 then Inl ''panic: integer divide by zero''
         else if total < 0 then Inl ''panic: makeslice: len out of range''
         else Inr (interval_loop (wrap64 (quot MaxInt64 total - quot MinInt64 total)) MinInt64 (nat total)))
      else if HasFileReader n then
        Inr (map (\<lambda>i. (int i, int i)) [0..<length (frd_SrcFileUrls (sn_FileReader n))])
      else Inl ''cannot find implementation for intervals'')"

subsection \<open>What an accepted node guarantees\<close>

lemma noting_Nil: "noting f st = (n', []) \<longleftrightarrow> snd st = [] \<and> f (fst st) = Inr n'"
  by (cases st) (auto simp: noting_def split: sum.splits)

lemma Deserialize_node_Inr:
  "Deserialize_node L ld n0 = Inr n \<longleftrightarrow>
     ValidateNodeType (sn_Type n0) = None \<and>
     (\<exists>n1 n2 n3 n4. node_defaults n0 = Inr n1 \<and> initReader ld n1 = Inr n2 \<and> initCreator L ld n2 = Inr n3 \<and>
        initCustomProcessor ld n3 = Inr n4 \<and> check_distinct n4 = Inr n)"
proof -
  let ?steps = "\<lambda>n1. noting check_distinct (noting (initCustomProcessor ld) (noting (initCreator L ld) (noting (initReader ld) (n1, []))))"
  have steps: "?steps n1 = (n, []) \<longleftrightarrow>
      (\<exists>n2 n3 n4. initReader ld n1 = Inr n2 \<and> initCreator L ld n2 = Inr n3 \<and>
        initCustomProcessor ld n3 = Inr n4 \<and> check_distinct n4 = Inr n)" for n1
  proof -
    show ?thesis by (auto simp: noting_def split: sum.splits)
  qed
  have "(case ?steps n1 of (n2, es) \<Rightarrow> if length es > 0 then Inl (Join es ''; '') else Inr n2) = Inr n \<longleftrightarrow>
      ?steps n1 = (n, [])" for n1
    by (cases "?steps n1") auto
  then show ?thesis
    unfolding Deserialize_node_def by (cases "ValidateNodeType (sn_Type n0)") (simp_all add: bindr_Inr_conv steps)
qed

lemma node_defaults_keeps: "node_defaults n = Inr n' \<Longrightarrow> sn_Type n' = sn_Type n"
  by (auto simp: node_defaults_def Let_def bindr_Inr_conv split: if_splits option.splits)

lemma initReader_keeps: "initReader ld n = Inr n' \<Longrightarrow> sn_Type n' = sn_Type n"
  by (auto simp: initReader_def Let_def split: if_splits sum.splits)

lemma initCreator_keeps:
  "initCreator L ld n = Inr n' \<Longrightarrow> sn_Type n' = sn_Type n \<and> sn_TableReader n' = sn_TableReader n"
  by (auto simp: initCreator_def split: if_splits sum.splits)

lemma initCustomProcessor_keeps:
  "initCustomProcessor ld n = Inr n' \<Longrightarrow> \<exists>p. n' = n\<lparr>sn_CustomProcessor := p\<rparr>"
proof -
  have same: "\<exists>p. n = n\<lparr>sn_CustomProcessor := p\<rparr>" by (rule exI [of _ "sn_CustomProcessor n"]) simp
  show "initCustomProcessor ld n = Inr n' \<Longrightarrow> \<exists>p. n' = n\<lparr>sn_CustomProcessor := p\<rparr>"
    using same by (auto simp: initCustomProcessor_def split: if_splits option.splits sum.splits)
qed

lemma check_distinct_keeps: "check_distinct n = Inr n' \<Longrightarrow> n' = n"
  by (auto simp: check_distinct_def split: if_splits sum.splits)

lemma initReader_bounds:
  assumes "initReader ld n = Inr n'" "HasTableReader n"
  shows "1 \<le> trd_ExpectedBatchesTotal (sn_TableReader n') \<and> trd_ExpectedBatchesTotal (sn_TableReader n') \<le> 1000000 \<and>
    1 \<le> trd_RowsetSize (sn_TableReader n') \<and> trd_RowsetSize (sn_TableReader n') \<le> 100000 \<and>
    trd_TableName (sn_TableReader n') \<noteq> []"
  using assms
  by (auto simp: initReader_def Let_def MaxAcceptedBatchesByTableReader_def MaxRowsetSize_def DefaultRowsetSize_def
      split: if_splits sum.splits)

lemma HasTableReader_type: "sn_Type n = sn_Type m \<Longrightarrow> HasTableReader n = HasTableReader m"
  by (simp add: HasTableReader_def)

lemma accepted_reader_bounds:
  assumes "Deserialize_node L ld n0 = Inr n" "HasTableReader n"
  shows "1 \<le> trd_ExpectedBatchesTotal (sn_TableReader n) \<and> trd_ExpectedBatchesTotal (sn_TableReader n) \<le> 1000000 \<and>
    1 \<le> trd_RowsetSize (sn_TableReader n) \<and> trd_RowsetSize (sn_TableReader n) \<le> 100000 \<and>
    trd_TableName (sn_TableReader n) \<noteq> []"
proof -
  from assms(1) obtain n1 n2 n3 n4 where s: "node_defaults n0 = Inr n1" "initReader ld n1 = Inr n2"
    "initCreator L ld n2 = Inr n3" "initCustomProcessor ld n3 = Inr n4" "check_distinct n4 = Inr n"
    unfolding Deserialize_node_Inr by blast
  from initCustomProcessor_keeps [OF s(4)] obtain p where p: "n4 = n3\<lparr>sn_CustomProcessor := p\<rparr>" ..
  have keeps: "sn_Type n = sn_Type n1" "sn_TableReader n = sn_TableReader n2"
    using initReader_keeps [OF s(2)] initCreator_keeps [OF s(3)] check_distinct_keeps [OF s(5)] p by simp_all
  show ?thesis
    using initReader_bounds [OF s(2)] assms(2) HasTableReader_type [OF keeps(1)] unfolding keeps(2) by blast
qed

text \<open>Only calls of aggregate functions that are not inside another one are reported, none is missed.\<close>

lemma later_None [simp]: "later a b = None \<longleftrightarrow> a = None \<and> b = None"
  by (auto simp: later_def split: option.splits)

lemma find_agg_None: "find_agg e = None \<Longrightarrow> agg_calls e = {}"
  and find_agg_list_None: "find_agg_list es = None \<Longrightarrow> agg_calls_list es = {}"
  by (induction e and es rule: find_agg_find_agg_list.induct) (auto split: expr.splits if_splits)

subsection \<open>The intervals are a partition\<close>

lemma interval_loop_closed:
  assumes "0 < per" "- (2 ^ 63) \<le> left" "left + int k * per \<le> 2 ^ 63 - 1"
  shows "interval_loop per left (Suc k) =
    map (\<lambda>j. (left + int j * per, if j = k then MaxInt64 else left + (int j + 1) * per - 1)) [0..<Suc k]"
  using assms(2,3)
proof (induction k arbitrary: left)
  case 0
  show ?case by simp
next
  case (Suc k)
  have kp: "0 \<le> int k * per" using assms(1) by simp
  have le: "left + per + int k * per \<le> 2 ^ 63 - 1" using Suc.prems(2) by (simp add: algebra_simps)
  have lp: "left + per \<le> 2 ^ 63 - 1" using kp le by linarith
  have w: "wrap64 (left + per - 1) = left + per - 1" "wrap64 (left + per) = left + per"
    using Suc.prems(1) assms(1) lp by (intro wrap_id; simp add: in_range_def)+
  have "interval_loop per left (Suc (Suc k)) =
      (left, left + per - 1) # interval_loop per (left + per) (Suc k)"
    using w by (simp add: Let_def)
  also have "interval_loop per (left + per) (Suc k) =
      map (\<lambda>j. (left + per + int j * per, if j = k then MaxInt64 else left + per + (int j + 1) * per - 1)) [0..<Suc k]"
    by (rule Suc.IH) (use Suc.prems(1) assms(1) le in auto)
  also have "(left, left + per - 1) # \<dots> =
      map (\<lambda>j. (left + int j * per, if j = Suc k then MaxInt64 else left + (int j + 1) * per - 1)) (0 # map Suc [0..<Suc k])"
    by (simp add: algebra_simps comp_def)
  finally show ?case unfolding map_Suc_upt by (simp add: upt_conv_Cons del: upt_Suc)
qed

text \<open>Consecutive intervals of one length, up to the last, cover every token exactly once.\<close>

lemma intervals_cover:
  fixes per left top :: int
  assumes "0 < per" "left \<le> t" "t \<le> top" "left + int k * per \<le> top"
  shows "\<exists>!i. i < Suc k \<and> left + int i * per \<le> t \<and> t \<le> (if i = k then top else left + (int i + 1) * per - 1)"
proof -
  define d where "d = (t - left) div per"
  have d: "0 \<le> d" "d * per \<le> t - left" "t - left < (d + 1) * per"
    using assms(1,2) div_mult_mod_eq [of "t - left" per] pos_mod_bound [of per "t - left"] pos_mod_sign [of per "t - left"]
    unfolding d_def distrib_right mult_1 by (simp add: pos_imp_zdiv_nonneg_iff, linarith, linarith)
  have unique: "int i = min d (int k)"
    if i: "i < Suc k" "left + int i * per \<le> t" "t \<le> (if i = k then top else left + (int i + 1) * per - 1)" for i
  proof -
    have "int i * per < (d + 1) * per" using i(2) d(3) by simp
    then have up: "int i \<le> d" using assms(1) by (simp add: mult_less_cancel_right)
    show ?thesis
    proof (cases "i = k")
      case True
      then show ?thesis using up by simp
    next
      case False
      then have "d * per < (int i + 1) * per" using i(3) d(2) by simp
      then have "d \<le> int i" using assms(1) by (simp add: mult_less_cancel_right)
      then show ?thesis using up i(1) by simp
    qed
  qed
  let ?i = "nat (min d (int k))"
  have in_i: "?i < Suc k" "int ?i = min d (int k)" using d(1) by auto
  have "int ?i * per \<le> d * per" using in_i(2) assms(1) by (intro mult_right_mono) auto
  moreover have "t \<le> left + (int ?i + 1) * per - 1" if "?i \<noteq> k"
  proof -
    have "int ?i = d" using that in_i by (auto simp: min_def split: if_splits)
    then show ?thesis using d(3) by simp
  qed
  ultimately have "?i < Suc k \<and> left + int ?i * per \<le> t \<and> t \<le> (if ?i = k then top else left + (int ?i + 1) * per - 1)"
    using in_i(1) d(2) assms(3) by simp
  moreover have "i = ?i" if "i < Suc k \<and> left + int i * per \<le> t \<and> t \<le> (if i = k then top else left + (int i + 1) * per - 1)" for i
    using unique [of i] that in_i(2) by linarith
  ultimately show ?thesis by (rule ex1I)
qed

lemma quotient_bounds:
  fixes N :: int
  assumes "2 \<le> N" "N \<le> 1000000"
  defines "per \<equiv> quot MaxInt64 N - quot MinInt64 N"
  shows "0 < per" "per \<le> 2 ^ 63 - 1" "N * per \<le> 2 ^ 64 - 1" "2 ^ 64 \<le> N * per + 2 * N"
proof -
  have m: "quot MaxInt64 N = (2 ^ 63 - 1) div N" "quot MinInt64 N = - ((2 ^ 63) div N)"
    using assms(1) by (simp_all add: quot_def MaxInt64_def MinInt64_def)
  have p: "per = (2 ^ 63 - 1) div N + (2 ^ 63) div N" unfolding per_def m by simp
  have two: "(2 :: int) ^ 64 = 2 * 2 ^ 63" by simp
  have a: "N * ((2 ^ 63 - 1) div N) \<le> 2 ^ 63 - 1" "(2 ^ 63 - 1) < N * ((2 ^ 63 - 1) div N) + N"
    "N * ((2 ^ 63) div N) \<le> 2 ^ 63" "(2 ^ 63 :: int) < N * ((2 ^ 63) div N) + N"
    using assms(1) mult_div_mod_eq [of N "2 ^ 63 - 1"] mult_div_mod_eq [of N "2 ^ 63"]
      pos_mod_bound [of N "2 ^ 63 - 1"] pos_mod_bound [of N "2 ^ 63"]
      pos_mod_sign [of N "2 ^ 63 - 1"] pos_mod_sign [of N "2 ^ 63"] by linarith+
  show np: "N * per \<le> 2 ^ 64 - 1" and "2 ^ 64 \<le> N * per + 2 * N" unfolding p distrib_left two using a by linarith+
  have "1 \<le> (2 ^ 63 - 1 :: int) div N"
    using assms(1,2) by (simp add: int_one_le_iff_zero_less pos_imp_zdiv_pos_iff)
  moreover have "0 \<le> (2 ^ 63 :: int) div N" using assms(1) by (simp add: pos_imp_zdiv_nonneg_iff)
  ultimately show pos: "0 < per" unfolding p by linarith
  have "2 * per \<le> N * per" using assms(1) pos by (intro mult_right_mono) auto
  then show "per \<le> 2 ^ 63 - 1" using np two by linarith
qed

definition even_intervals :: "(int \<times> int) list \<Rightarrow> int \<Rightarrow> bool" where
  "even_intervals ivs n \<longleftrightarrow> (\<exists>per.
     (\<forall>i. Suc i < length ivs \<longrightarrow> snd (ivs ! i) - fst (ivs ! i) + 1 = per) \<and>
     per \<le> snd (last ivs) - fst (last ivs) + 1 \<and> snd (last ivs) - fst (last ivs) + 1 \<le> per + 2 * n)"

lemma intervals_of_many:
  assumes "HasTableReader n" "trd_ExpectedBatchesTotal (sn_TableReader n) = N" "2 \<le> N" "N \<le> 1000000"
  shows "\<exists>ivs. GetTokenIntervalsByNumberOfBatches n = Inr ivs \<and> length ivs = nat N \<and>
    (\<forall>t. in_range 64 t \<longrightarrow> (\<exists>!i. i < length ivs \<and> fst (ivs ! i) \<le> t \<and> t \<le> snd (ivs ! i))) \<and>
    (\<forall>i < length ivs. in_range 64 (fst (ivs ! i)) \<and> in_range 64 (snd (ivs ! i))) \<and> even_intervals ivs N"
proof -
  define per where "per = quot MaxInt64 N - quot MinInt64 N"
  note q = quotient_bounds [OF assms(3,4), folded per_def]
  define k where "k = nat N - 1"
  have k: "nat N = Suc k" "int k = N - 1" using assms(3) by (simp_all add: k_def)
  have fits: "- (2 ^ 63) + int k * per \<le> 2 ^ 63 - 1"
    using q(1,3) unfolding k(2) left_diff_distrib mult_1 by simp
  define ivs where "ivs = map (\<lambda>j. (- (2 ^ 63) + int j * per, if j = k then MaxInt64 else - (2 ^ 63) + (int j + 1) * per - 1)) [0..<Suc k]"
  have w: "wrap64 per = per" using q(1,2) by (intro wrap_id) (simp_all add: in_range_def)
  have closed: "interval_loop per MinInt64 (Suc k) = ivs"
    unfolding MinInt64_def ivs_def by (rule interval_loop_closed [OF q(1) order_refl fits])
  have get: "GetTokenIntervalsByNumberOfBatches n = Inr ivs"
    using assms closed w
    by (simp del: interval_loop.simps add: GetTokenIntervalsByNumberOfBatches_def Let_def k(1) per_def [symmetric])
  have len: "length ivs = Suc k" by (simp add: ivs_def)
  have at: "fst (ivs ! i) = - (2 ^ 63) + int i * per"
    "snd (ivs ! i) = (if i = k then 2 ^ 63 - 1 else - (2 ^ 63) + (int i + 1) * per - 1)" if "i < Suc k" for i
    using that by (simp_all del: upt_Suc add: ivs_def MaxInt64_def)
  have cover: "\<exists>!i. i < length ivs \<and> fst (ivs ! i) \<le> t \<and> t \<le> snd (ivs ! i)" if "in_range 64 t" for t
  proof -
    have "\<exists>!i. i < Suc k \<and> - (2 ^ 63) + int i * per \<le> t \<and> t \<le> (if i = k then 2 ^ 63 - 1 else - (2 ^ 63) + (int i + 1) * per - 1)"
      by (rule intervals_cover [OF q(1) _ _ fits]) (use that in \<open>simp_all add: in_range_def\<close>)
    moreover have "(i < Suc k \<and> fst (ivs ! i) \<le> t \<and> t \<le> snd (ivs ! i)) =
        (i < Suc k \<and> - (2 ^ 63) + int i * per \<le> t \<and> t \<le> (if i = k then 2 ^ 63 - 1 else - (2 ^ 63) + (int i + 1) * per - 1))" for i
      by (cases "i < Suc k") (simp_all only: at simp_thms)
    ultimately show ?thesis unfolding len by (simp only:)
  qed
  have range: "in_range 64 (fst (ivs ! i)) \<and> in_range 64 (snd (ivs ! i))" if "i < length ivs" for i
  proof -
    have i: "i < Suc k" using that len by simp
    define x y where "x = int i * per" and "y = int k * per"
    have xy: "x \<le> y" "0 \<le> x" using i q(1) by (simp_all add: x_def y_def mult_right_mono)
    have "(int i + 1) * per \<le> int k * per" if "i \<noteq> k" using i that q(1) by (intro mult_right_mono) auto
    then have next_le: "i \<noteq> k \<Longrightarrow> x + per \<le> y" by (simp add: x_def y_def distrib_right)
    have ends: "fst (ivs ! i) = - (2 ^ 63) + x" "snd (ivs ! i) = (if i = k then 2 ^ 63 - 1 else - (2 ^ 63) + (x + per) - 1)"
      using at [OF i] by (simp_all add: x_def distrib_right)
    show ?thesis unfolding ends in_range_def using xy next_le fits [folded y_def] q(1) by (cases "i = k") simp_all
  qed
  have "even_intervals ivs N"
  proof -
    have l: "last ivs = ivs ! k" using len by (metis Suc_eq_plus1 add_diff_cancel_right' last_conv_nth length_0_conv nat.simps(3))
    have "snd (ivs ! i) - fst (ivs ! i) + 1 = per" if "Suc i < length ivs" for i
      using that len at [of i] by (simp add: distrib_right)
    moreover have "snd (last ivs) - fst (last ivs) + 1 = 2 ^ 64 - N * per + per"
      unfolding l using at [of k] k(2) by (simp add: left_diff_distrib)
    ultimately show ?thesis unfolding even_intervals_def using q(3,4) by (intro exI [of _ per]) auto
  qed
  then show ?thesis using get len k(1) cover range by (intro exI [of _ ivs]) simp
qed

text \<open>C32: The token intervals of an accepted node that reads a table are one per expected batch,
  every token lies in exactly one of them, and all have the same length but the last, which is
  longer by at most twice the number of batches.\<close>

theorem token_intervals_partition:
  assumes "Deserialize_node L ld n0 = Inr n" "HasTableReader n"
  shows "\<exists>ivs. GetTokenIntervalsByNumberOfBatches n = Inr ivs \<and>
    int (length ivs) = trd_ExpectedBatchesTotal (sn_TableReader n) \<and> 1 \<le> length ivs \<and>
    (\<forall>t. in_range 64 t \<longrightarrow> (\<exists>!i. i < length ivs \<and> fst (ivs ! i) \<le> t \<and> t \<le> snd (ivs ! i))) \<and>
    (\<forall>i < length ivs. in_range 64 (fst (ivs ! i)) \<and> in_range 64 (snd (ivs ! i))) \<and>
    even_intervals ivs (trd_ExpectedBatchesTotal (sn_TableReader n))"
proof (cases "trd_ExpectedBatchesTotal (sn_TableReader n) = 1")
  case True
  then have "GetTokenIntervalsByNumberOfBatches n = Inr [(MinInt64, MaxInt64)]"
    using assms(2) by (simp add: GetTokenIntervalsByNumberOfBatches_def)
  moreover have "even_intervals [(MinInt64, MaxInt64)] 1"
    unfolding even_intervals_def by (intro exI [of _ "2 ^ 64"]) (simp add: MinInt64_def MaxInt64_def)
  ultimately show ?thesis using True
    by (intro exI [of _ "[(MinInt64, MaxInt64)]"]) (auto simp: in_range_def MinInt64_def MaxInt64_def)
next
  case False
  then have "2 \<le> trd_ExpectedBatchesTotal (sn_TableReader n)" "trd_ExpectedBatchesTotal (sn_TableReader n) \<le> 1000000"
    using accepted_reader_bounds [OF assms] by linarith+
  from intervals_of_many [OF assms(2) refl this] this show ?thesis
    by (elim exE conjE) (intro exI conjI; (assumption | simp))
qed

text \<open>A node that reads one table in three batches and writes another.\<close>

definition sample_file_reader :: file_reader where
  "sample_file_reader = \<lparr>frd_SrcFileUrls = [], frd_SrcFileHdrLineIdx = 0, frd_SrcFileFirstDataLineIdx = 0,
     frd_Separator = '''', frd_NullValue = '''', frd_ColumnIndexingMode = FileColumnIndexingUnset, frd_Columns = [],
     frd_ReaderFileType = ReaderFileTypeUnknown\<rparr>"

definition sample_lookup :: lookup where
  "sample_lookup = \<lparr>lk_IndexName = '''', lk_RawJoinOn = '''', lk_IsGroup = False, lk_RawFilter = '''',
     lk_LookupJoin = LookupJoinOther '''', lk_IdxReadBatchSize = 0, lk_RightLookupReadBatchSize = 0,
     lk_LeftTableFields = [], lk_TableCreator = None, lk_UsedInFilterFields = [], lk_Filter = None\<rparr>"

definition sample_node :: script_node where
  "sample_node = \<lparr>sn_Name = ''orders_from_raw'', sn_Type = NodeTypeTableTable, sn_StartPolicy = StartOther '''',
     sn_RerunPolicy = RerunOther '''', sn_CustomProcessorType = '''', sn_HandlerExeType = '''',
     sn_MaxBatchProcessingTime = 0, sn_RawReader = ''reader'',
     sn_TableReader = \<lparr>trd_TableName = '''', trd_ExpectedBatchesTotal = 0, trd_RowsetSize = 0, trd_TableCreator = None\<rparr>,
     sn_FileReader = sample_file_reader, sn_Lookup = sample_lookup, sn_RawProcessorDef = '''',
     sn_CustomProcessor = None, sn_RawWriter = ''writer'', sn_DependencyPolicyName = '''',
     sn_TableCreator = sample_table, sn_FileCreator = sample_file, sn_DepPolDef = None\<rparr>"

definition sample_loader :: loader where
  "sample_loader = \<lparr>ld_TableReader = (\<lambda>s. Inr \<lparr>trd_TableName = ''raw'', trd_ExpectedBatchesTotal = 3,
       trd_RowsetSize = 0, trd_TableCreator = None\<rparr>),
     ld_FileReader = (\<lambda>s. (None, sample_file_reader)), ld_TableCreator = (\<lambda>s. Inr sample_table),
     ld_FileCreator = (\<lambda>s. Inr sample_file), ld_Policy = (\<lambda>s. Inr default_policy),
     ld_Factory = None, ld_Settings = None\<rparr>"

definition sample_read_node :: script_node where
  "sample_read_node = sample_node\<lparr>sn_MaxBatchProcessingTime := 60000, sn_HandlerExeType := ''capi_daemon'',
     sn_RerunPolicy := NodeRerun, sn_StartPolicy := NodeStartAuto,
     sn_TableReader := \<lparr>trd_TableName = ''raw'', trd_ExpectedBatchesTotal = 3, trd_RowsetSize = 1000, trd_TableCreator = None\<rparr>,
     sn_TableCreator := sample_read_table\<rparr>"

lemma sample_node_read: "Deserialize_node sample_lang sample_loader sample_node = Inr sample_read_node"
proof -
  have d: "node_defaults sample_node = Inr (sample_node\<lparr>sn_MaxBatchProcessingTime := 60000,
      sn_HandlerExeType := ''capi_daemon'', sn_RerunPolicy := NodeRerun, sn_StartPolicy := NodeStartAuto\<rparr>)" (is "_ = Inr ?n1")
    by (simp add: node_defaults_def sample_node_def HandlerExeTypeGeneric_def)
  have r: "initReader sample_loader ?n1 = Inr (?n1\<lparr>sn_TableReader := sn_TableReader sample_read_node\<rparr>)" (is "_ = Inr ?n2")
    by (simp add: initReader_def node_has_defs sample_node_def sample_loader_def sample_read_node_def
        MaxAcceptedBatchesByTableReader_def MaxRowsetSize_def DefaultRowsetSize_def)
  have w: "initCreator sample_lang sample_loader ?n2 = Inr sample_read_node"
    using sample_table_read
    by (simp add: initCreator_def node_has_defs sample_node_def sample_loader_def sample_read_node_def)
  have t: "sn_Type sample_read_node = NodeTypeTableTable" by (simp add: sample_read_node_def sample_node_def)
  have p: "initCustomProcessor sample_loader sample_read_node = Inr sample_read_node"
    by (simp add: initCustomProcessor_def HasCustomProcessor_def t)
  have c: "check_distinct sample_read_node = Inr sample_read_node" by (simp add: check_distinct_def t)
  show ?thesis unfolding Deserialize_node_Inr
    by (intro conjI exI, simp add: ValidateNodeType_def sample_node_def, rule d, rule r, rule w, rule p, rule c)
qed

lemma token_intervals_partition_witness:
  "\<exists>ivs. GetTokenIntervalsByNumberOfBatches sample_read_node = Inr ivs \<and> length ivs = 3 \<and>
     (\<exists>!i. i < 3 \<and> fst (ivs ! i) \<le> 0 \<and> 0 \<le> snd (ivs ! i))"
proof -
  have h: "HasTableReader sample_read_node" "trd_ExpectedBatchesTotal (sn_TableReader sample_read_node) = 3"
    by (simp_all add: HasTableReader_def sample_read_node_def sample_node_def)
  obtain ivs where i: "GetTokenIntervalsByNumberOfBatches sample_read_node = Inr ivs" "length ivs = 3"
    "\<forall>t. in_range 64 t \<longrightarrow> (\<exists>!i. i < length ivs \<and> fst (ivs ! i) \<le> t \<and> t \<le> snd (ivs ! i))"
    using token_intervals_partition [OF sample_node_read h(1)] unfolding h(2) by auto
  have "in_range 64 0" by (simp add: in_range_def)
  then have "\<exists>!i. i < length ivs \<and> fst (ivs ! i) \<le> 0 \<and> 0 \<le> snd (ivs ! i)" using i(3) by blast
  then show ?thesis using i(1,2) by auto
qed

end
