(* ===== verification/Script_Def.thy ===== *)
theory Script_Def
  imports Script_Node
begin

text \<open>
  Scripts (pkg/sc/script_def.go): the passes that read a script, resolve what its nodes refer to and
  check the use of fields, and the nodes that a run affects. A Go map is an association list in one
  order of iteration, and a pointer to a node, or to the creator inside a node, is the name of the
  node. The passes that follow such pointers read the name and the fields of a creator only, which
  no pass changes, so they are given the nodes as they were before the pass.
\<close>

type_synonym script_nodes = "(string \<times> script_node) list"

record script_def =
  sd_ScriptNodes :: script_nodes
  sd_RawDependencyPolicies :: "(string \<times> string) list"
  sd_TableCreatorNodeMap :: "(string \<times> string) list"
  sd_IndexNodeMap :: "(string \<times> string) list"

definition creator_of :: "script_nodes \<Rightarrow> string \<Rightarrow> table_creator option" where
  "creator_of nodes p = map_option sn_TableCreator (map_of nodes p)"

subsection \<open>Tables and indexes\<close>

definition table_node_step :: "(string \<times> string) list \<Rightarrow> string \<times> script_node \<Rightarrow> goerr + (string \<times> string) list" where
  "table_node_step m p =
     (if HasTableCreator (snd p) then
        (if map_of m (tc_Name (sn_TableCreator (snd p))) \<noteq> None
         then Inl (''duplicate table name: '' @ tc_Name (sn_TableCreator (snd p)))
         else Inr (m @ [(tc_Name (sn_TableCreator (snd p)), fst p)]))
      else Inr m)"

definition buildTableCreatorNodeMap :: "script_nodes \<Rightarrow> goerr + (string \<times> string) list" where
  "buildTableCreatorNodeMap nodes = foldr_err table_node_step [] nodes"

definition index_node_step ::
  "(string \<times> string) list \<Rightarrow> string \<Rightarrow> (string \<times> string) list \<Rightarrow> string \<Rightarrow> goerr + (string \<times> string) list" where
  "index_node_step tables nodeName m idxName =
     (if map_of m idxName \<noteq> None then Inl (''duplicate index name: '' @ idxName)
      else if map_of tables idxName \<noteq> None then Inl (''cannot use same name for table and index: '' @ idxName)
      else Inr (m @ [(idxName, nodeName)]))"

definition buildIndexNodeMap :: "(string \<times> string) list \<Rightarrow> script_nodes \<Rightarrow> goerr + (string \<times> string) list" where
  "buildIndexNodeMap tables nodes =
     foldr_err (\<lambda>m p. if HasTableCreator (snd p)
                     then foldr_err (index_node_step tables (fst p)) m (map fst (tc_Indexes (sn_TableCreator (snd p))))
                     else Inr m) [] nodes"

subsection \<open>Resolving readers and lookups\<close>

definition resolveReader :: "(string \<times> string) list \<Rightarrow> script_node \<Rightarrow> goerr + script_node" where
  "resolveReader tables n =
     (if HasTableReader n then
        (case map_of tables (trd_TableName (sn_TableReader n)) of
           None \<Rightarrow> Inl (''cannot find the node that creates table ['' @ trd_TableName (sn_TableReader n) @ '']'')
         | Some p \<Rightarrow> Inr (n\<lparr>sn_TableReader := (sn_TableReader n)\<lparr>trd_TableCreator := Some p\<rparr>\<rparr>))
      else Inr n)"

definition resolveLookup ::
  "('f, 'd) lang \<Rightarrow> script_nodes \<Rightarrow> (string \<times> string) list \<Rightarrow> script_node \<Rightarrow> goerr + script_node" where
  "resolveLookup L nodes indexes n =
     (if \<not> HasLookup n then Inr n
      else (case getSourceFieldRefs (creator_of nodes) n of
              Inl e \<Rightarrow> Inl (''unexpectedly cannot resolve source field refs: ['' @ e @ '']'')
            | Inr src \<Rightarrow>
                (case map_of indexes (lk_IndexName (sn_Lookup n)) of
                   None \<Rightarrow> Inl (''cannot find the node that creates index ['' @ lk_IndexName (sn_Lookup n) @ '']'')
                 | Some p \<Rightarrow>
                     (case creator_of nodes p of
                        None \<Rightarrow> Inl ''panic: nil pointer dereference''
                      | Some tc \<Rightarrow>
                          bindr (resolveLeftTableFields ReaderAlias src tc ((sn_Lookup n)\<lparr>lk_TableCreator := Some p\<rparr>)) (\<lambda>lk1.
                            bindr (ParseFilter L lk1) (\<lambda>lk2.
                              case ValidateJoinType lk2 of
                                Some e \<Rightarrow> Inl e
                              | None \<Rightarrow> bindr (CheckPagedBatchSize lk2) (\<lambda>lk3. Inr (n\<lparr>sn_Lookup := lk3\<rparr>))))))))"

definition isScriptUsesIdx :: "script_nodes \<Rightarrow> string \<Rightarrow> bool" where
  "isScriptUsesIdx nodes idxName = list_ex (\<lambda>p. isNodeUsesIdx idxName (snd p)) nodes"

subsection \<open>The use of fields\<close>

definition resolve_refs ::
  "field_ref list \<Rightarrow> field_ref list option \<Rightarrow> field_ref list option \<Rightarrow> goerr option \<times> field_ref list" where
  "resolve_refs refs prohibited allowed =
     (case checkAllowedAndResolveFieldTypes (Some refs) prohibited allowed of
        (e, r) \<Rightarrow> (e, case r of None \<Rightarrow> refs | Some r \<Rightarrow> r))"

definition lookup_creator :: "script_nodes \<Rightarrow> script_node \<Rightarrow> table_creator option" where
  "lookup_creator nodes n =
     (case lk_TableCreator (sn_Lookup n) of None \<Rightarrow> None | Some p \<Rightarrow> creator_of nodes p)"

definition checkFieldUsageInCustomProcessorCreator :: "script_nodes \<Rightarrow> script_node \<Rightarrow> goerr + script_node" where
  "checkFieldUsageInCustomProcessorCreator nodes n =
     (if \<not> HasCustomProcessor n then Inr n
      else (case getSourceFieldRefs (creator_of nodes) n of
              Inl e \<Rightarrow> Inl (''unexpectedly cannot resolve source field refs: ['' @ e @ '']'')
            | Inr src \<Rightarrow>
                (case sn_CustomProcessor n of
                   None \<Rightarrow> Inl ''panic: nil pointer dereference''
                 | Some cp \<Rightarrow>
                     (case resolve_refs (cp_UsedInTargetExpressionsFields cp) None
                             (Some (JoinFieldRefs [Some src, Some (cp_FieldRefs cp)])) of
                        (Some e, _) \<Rightarrow> Inl (''invalid field(s) in target table field expression: ['' @ e @ '']'')
                      | (None, used) \<Rightarrow>
                          Inr (n\<lparr>sn_CustomProcessor := Some (cp\<lparr>cp_UsedInTargetExpressionsFields := used\<rparr>)\<rparr>)))))"

text \<open>The parts of checkFieldUsageInCreator: each resolves references of the node and notes errors.\<close>

definition usage_in_lookup ::
  "field_ref list \<Rightarrow> field_ref list \<Rightarrow> field_ref list option \<Rightarrow> script_node \<Rightarrow> script_node \<times> goerr list" where
  "usage_in_lookup src tgt lkp n =
     (if HasLookup n \<and> UsesFilter (sn_Lookup n) then
        (case resolve_refs (lk_UsedInFilterFields (sn_Lookup n)) (Some (JoinFieldRefs [Some src, Some tgt])) lkp of
           (e, used) \<Rightarrow> (n\<lparr>sn_Lookup := (sn_Lookup n)\<lparr>lk_UsedInFilterFields := used\<rparr>\<rparr>, noted ''invalid field in lookup filter'' e))
      else (n, []))"

definition usage_in_table ::
  "field_ref list \<Rightarrow> field_ref list \<Rightarrow> field_ref list option \<Rightarrow> field_ref list option \<Rightarrow> script_node \<Rightarrow>
     script_node \<times> goerr list" where
  "usage_in_table src tgt lkp prc n =
     (if HasTableCreator n then
        (let allSrc = JoinFieldRefs [Some src, lkp, prc]; tc = sn_TableCreator n;
             (e1, having) = resolve_refs (tc_UsedInHavingFields tc) (Some allSrc) (Some tgt);
             (e2, target) = resolve_refs (tc_UsedInTargetExpressionsFields tc) (Some tgt) (Some allSrc)
         in (n\<lparr>sn_TableCreator := tc\<lparr>tc_UsedInHavingFields := having, tc_UsedInTargetExpressionsFields := target\<rparr>\<rparr>,
             noted ''invalid field in table creator 'having' condition'' e1 @
             noted ''invalid field(s) in target table field expression'' e2))
      else (n, []))"

definition usage_in_file :: "field_ref list \<Rightarrow> field_ref list \<Rightarrow> script_node \<Rightarrow> script_node \<times> goerr list" where
  "usage_in_file src tgt n =
     (if HasFileCreator n then
        (let fc = sn_FileCreator n;
             (e1, having) = resolve_refs (fcr_UsedInHavingFields fc) (Some src) (Some tgt);
             (e2, target) = resolve_refs (fcr_UsedInTargetExpressionsFields fc) (Some tgt) (Some src)
         in (n\<lparr>sn_FileCreator := fc\<lparr>fcr_UsedInHavingFields := having, fcr_UsedInTargetExpressionsFields := target\<rparr>\<rparr>,
             noted ''invalid field in file creator 'having' condition'' e1 @
             noted ''invalid field in target file field expression'' e2))
      else (n, []))"

definition target_refs :: "script_node \<Rightarrow> goerr + field_ref list" where
  "target_refs n =
     (if HasTableCreator n then Inr (GetFieldRefsWithAlias CreatorAlias (sn_TableCreator n))
      else if HasFileCreator n then Inr (file_field_refs (sn_FileCreator n))
      else Inl ''dev error, unknown creator'')"

definition checkFieldUsageInCreator :: "script_nodes \<Rightarrow> script_node \<Rightarrow> goerr + script_node" where
  "checkFieldUsageInCreator nodes n =
     (case getSourceFieldRefs (creator_of nodes) n of
        Inl e \<Rightarrow> Inl (''unexpectedly cannot resolve source field refs: ['' @ e @ '']'')
      | Inr src \<Rightarrow>
          (if HasCustomProcessor n \<and> sn_CustomProcessor n = None \<or> HasLookup n \<and> lookup_creator nodes n = None
           then Inl ''panic: nil pointer dereference''
           else
             let prc = (if HasCustomProcessor n then Some (cp_FieldRefs (the (sn_CustomProcessor n))) else None);
                 lkp = (if HasLookup n then Some (GetFieldRefsWithAlias LookupAlias (the (lookup_creator nodes n))) else None)
             in case target_refs n of
                  Inl e \<Rightarrow> Inl e
                | Inr tgt \<Rightarrow>
                    (let (n1, es1) = usage_in_lookup src tgt lkp n;
                         (n2, es2) = usage_in_table src tgt lkp prc n1;
                         (n3, es3) = usage_in_file src tgt n2;
                         es = es1 @ es2 @ es3
                     in if length es > 0 then Inl (Join es ''; '') else Inr n3)))"

subsection \<open>Dependency policies of the nodes\<close>

definition policy_of_node ::
  "(string \<times> dep_policy) list \<Rightarrow> dep_policy option \<Rightarrow> script_node \<Rightarrow> goerr + script_node" where
  "policy_of_node pols dflt n =
     (if HasTableReader n then
        (if length (sn_DependencyPolicyName n) = 0 then Inr (n\<lparr>sn_DepPolDef := dflt\<rparr>)
         else (case map_of pols (sn_DependencyPolicyName n) of
                 None \<Rightarrow> Inl (''cannot find dependency policy '' @ sn_DependencyPolicyName n)
               | Some pol \<Rightarrow> Inr (n\<lparr>sn_DepPolDef := Some pol\<rparr>)))
      else Inr n)"

text \<open>A pass over the nodes that stops at the first error.\<close>

definition pass :: "string \<Rightarrow> (script_node \<Rightarrow> goerr + script_node) \<Rightarrow> script_nodes \<Rightarrow> goerr + script_nodes" where
  "pass msg f nodes =
     mapr (\<lambda>p. case f (snd p) of Inl e \<Rightarrow> Inl (msg @ fst p @ '': ['' @ e @ '']'') | Inr n \<Rightarrow> Inr (fst p, n)) nodes"

definition read_policy :: "('f, 'd) lang \<Rightarrow> loader \<Rightarrow> string \<times> string \<Rightarrow> goerr + string \<times> dep_policy" where
  "read_policy L ld p =
     (case Deserialize_dep_policy L (ld_Policy ld (snd p)) of
        Inl e \<Rightarrow> Inl (''failed to deserialize dependency policy '' @ fst p @ '': '' @ e)
      | Inr pol \<Rightarrow> Inr (fst p, pol))"

definition checkDependencyPolicyUsage :: "('f, 'd) lang \<Rightarrow> loader \<Rightarrow> script_def \<Rightarrow> goerr + script_def" where
  "checkDependencyPolicyUsage L ld sd =
     bindr (mapr (read_policy L ld) (sd_RawDependencyPolicies sd)) (\<lambda>pols.
       let defaults = filter (\<lambda>p. dp_IsDefault (snd p)) pols in
       if length defaults \<noteq> 1 then Inl ''failed to deserialize dependency policies, required 1 default policy''
       else (case List.find (\<lambda>p. evalRuleExpressionsAndCheckType L (snd p) \<noteq> None) pols of
               Some p \<Rightarrow> Inl (''failed to test dependency policy '' @ fst p)
             | None \<Rightarrow>
                 bindr (pass '''' (policy_of_node pols (Some (snd (last defaults)))) (sd_ScriptNodes sd)) (\<lambda>nodes.
                   Inr (sd\<lparr>sd_ScriptNodes := nodes\<rparr>))))"

subsection \<open>Deserialize\<close>

definition read_nodes :: "('f, 'd) lang \<Rightarrow> loader \<Rightarrow> script_nodes \<Rightarrow> goerr + script_nodes" where
  "read_nodes L ld nodes =
     (let rs = map (\<lambda>p. (fst p, Deserialize_node L ld ((snd p)\<lparr>sn_Name := fst p\<rparr>))) nodes;
          es = concat (map (\<lambda>p. case snd p of Inl e \<Rightarrow> [''cannot deserialize node '' @ fst p @ '': ['' @ e @ '']''] | Inr _ \<Rightarrow> []) rs)
      in if length es > 0 then Inl (Join es ''; '') else Inr (map (\<lambda>p. (fst p, projr (snd p))) rs))"

definition unused_index :: "script_nodes \<Rightarrow> (string \<times> string) list \<Rightarrow> (string \<times> string) option" where
  "unused_index nodes indexes =
     List.find (\<lambda>p. \<not> isScriptUsesIdx nodes (fst p) \<and> \<not> Contains (fst p) ''to_check_uniq'') indexes"

definition checked_node :: "('f, 'd) lang \<Rightarrow> script_node \<Rightarrow> goerr + script_node" where
  "checked_node L n = (case evalCreatorAndLookupExpressionsAndCheckType L n of Some e \<Rightarrow> Inl e | None \<Rightarrow> Inr n)"

definition Deserialize_script :: "('f, 'd) lang \<Rightarrow> loader \<Rightarrow> goerr + script_def \<Rightarrow> goerr + script_def" where
  "Deserialize_script L ld unmarshalled =
     (case unmarshalled of
        Inl e \<Rightarrow> Inl (''cannot unmarshal script: ['' @ e @ '']'')
      | Inr sd \<Rightarrow>
          bindr (read_nodes L ld (sd_ScriptNodes sd)) (\<lambda>nodes0.
          bindr (buildTableCreatorNodeMap nodes0) (\<lambda>tables.
          bindr (buildIndexNodeMap tables nodes0) (\<lambda>indexes.
          bindr (pass ''failed to resolve reader for node '' (resolveReader tables) nodes0) (\<lambda>nodes1.
          bindr (pass ''failed to resolve lookup for node '' (resolveLookup L nodes1 indexes) nodes1) (\<lambda>nodes2.
          case unused_index nodes2 indexes of
            Some p \<Rightarrow> Inl (''cannot find nodes that use index '' @ fst p @ '' created by node '' @ snd p)
          | None \<Rightarrow>
              bindr (pass ''field usage error in custom processor creator, node ''
                       (checkFieldUsageInCustomProcessorCreator nodes2) nodes2) (\<lambda>nodes3.
              bindr (pass ''field usage error in creator, node '' (checkFieldUsageInCreator nodes3) nodes3) (\<lambda>nodes4.
              bindr (pass ''failed evaluating creator/lookup expressions for node '' (checked_node L) nodes4) (\<lambda>nodes5.
              checkDependencyPolicyUsage L ld
                (sd\<lparr>sd_ScriptNodes := nodes5, sd_TableCreatorNodeMap := tables, sd_IndexNodeMap := indexes\<rparr>))))))))))"

subsection \<open>The nodes that a run affects\<close>

text \<open>
  The edges of the graph: whether a node reads or looks up the table of another. In a script that
  was read the pointer of a lookup is set; where it is not the code panics and the model has no edge.
  The recursion of the two methods has fuel, which stands for the stack: None is a recursion that is
  too deep for it.
\<close>

definition feeds :: "script_nodes \<Rightarrow> script_node \<Rightarrow> script_node \<Rightarrow> bool" where
  "feeds nodes root n \<longleftrightarrow>
     HasTableCreator root \<and> HasTableReader n \<and> tc_Name (sn_TableCreator root) = trd_TableName (sn_TableReader n) \<or>
     HasTableCreator root \<and> HasLookup n \<and> Some (tc_Name (sn_TableCreator root)) = map_option tc_Name (lookup_creator nodes n)"

fun fold_opt :: "('a \<Rightarrow> 's \<Rightarrow> 's option) \<Rightarrow> 'a list \<Rightarrow> 's \<Rightarrow> 's option" where
  "fold_opt f [] s = Some s"
| "fold_opt f (x # xs) s = (case f x s of None \<Rightarrow> None | Some s' \<Rightarrow> fold_opt f xs s')"

primrec addChildrenToManual ::
  "nat \<Rightarrow> script_nodes \<Rightarrow> string list \<Rightarrow> script_node \<Rightarrow> string list \<Rightarrow> string list option" where
  "addChildrenToManual 0 nodes startSet root manualSet = None"
| "addChildrenToManual (Suc k) nodes startSet root manualSet =
     fold_opt (\<lambda>n m.
       if feeds nodes root n then
         addChildrenToManual k nodes startSet n
           (if sn_Name root \<in> set manualSet \<and> sn_Name root \<notin> set startSet \<or> sn_StartPolicy n = NodeStartManual
            then List.insert (sn_Name n) m else m)
       else Some m) (map snd nodes) manualSet"

primrec addChildrenToAffected ::
  "nat \<Rightarrow> script_nodes \<Rightarrow> script_node \<Rightarrow> string list \<Rightarrow> string list \<Rightarrow> string list option" where
  "addChildrenToAffected 0 nodes root manualSet affectedSet = None"
| "addChildrenToAffected (Suc k) nodes root manualSet affectedSet =
     fold_opt (\<lambda>n a.
       if feeds nodes root n \<and> sn_Name n \<notin> set manualSet
       then addChildrenToAffected k nodes n manualSet (List.insert (sn_Name n) a)
       else Some a) (map snd nodes) affectedSet"

definition GetAffectedNodes :: "nat \<Rightarrow> script_nodes \<Rightarrow> string list \<Rightarrow> string list option" where
  "GetAffectedNodes fuel nodes startNodeNames =
     (case fold_opt (\<lambda>s m. case map_of nodes s of
                         None \<Rightarrow> Some m
                       | Some n \<Rightarrow> addChildrenToManual fuel nodes startNodeNames n m) startNodeNames [] of
        None \<Rightarrow> None
      | Some manualSet \<Rightarrow>
          fold_opt (\<lambda>s a. case map_of nodes s of
                         None \<Rightarrow> Some a
                       | Some n \<Rightarrow> addChildrenToAffected fuel nodes n manualSet (List.insert (sn_Name n) a))
            startNodeNames [])"

end
