(* ===== verification/Script_Graph.thy ===== *)
theory Script_Graph
  imports Script_Def
begin

text \<open>
  The nodes that receive messages when a run starts (GetAffectedNodes in pkg/sc/script_def.go),
  against their specification as inductive sets: the nodes behind a manual start, and the nodes
  reachable from the start nodes without passing one of these. The recursion ends on scripts without
  cycles, with a depth of at most the number of nodes, and on a cycle it never ends.
\<close>

subsection \<open>Folds that may fail\<close>

lemma fold_opt_total:
  assumes "\<And>x s. x \<in> set xs \<Longrightarrow> \<exists>s'. f x s = Some s'"
  shows "\<exists>t. fold_opt f xs s = Some t"
  using assms
proof (induction xs arbitrary: s)
  case (Cons x xs)
  from Cons.prems [of x s] obtain s' where "f x s = Some s'" by auto
  then show ?case using Cons by simp
qed simp

lemma fold_opt_inv:
  assumes "fold_opt f xs s = Some t" "P s"
    and "\<And>x s s'. x \<in> set xs \<Longrightarrow> P s \<Longrightarrow> f x s = Some s' \<Longrightarrow> P s'"
  shows "P t"
  using assms
proof (induction xs arbitrary: s)
  case (Cons x xs)
  from Cons.prems(1) obtain s' where s': "f x s = Some s'" "fold_opt f xs s' = Some t"
    by (auto split: option.splits)
  have "P s'" using Cons.prems(3) [of x s s'] Cons.prems(2) s'(1) by simp
  show ?case by (rule Cons.IH [OF s'(2) \<open>P s'\<close>]) (rule Cons.prems(3), simp_all)
qed simp

text \<open>Every element has its turn, between states that only grow.\<close>

lemma fold_opt_each:
  assumes "fold_opt f xs s = Some t" "x \<in> set xs"
    and grows: "\<And>x s s'. x \<in> set xs \<Longrightarrow> f x s = Some s' \<Longrightarrow> set s \<subseteq> set s'"
  shows "\<exists>u v. f x u = Some v \<and> set s \<subseteq> set u \<and> set v \<subseteq> set t"
  using assms
proof (induction xs arbitrary: s)
  case (Cons y xs)
  from Cons.prems(1) obtain s' where s': "f y s = Some s'" "fold_opt f xs s' = Some t"
    by (auto split: option.splits)
  have grows': "set u \<subseteq> set v" if "z \<in> set xs" "f z u = Some v" for z u v
    using Cons.prems(3) [of z u v] that by simp
  show ?case
  proof (cases "x = y")
    case True
    have "set s' \<subseteq> set t" by (rule fold_opt_inv [OF s'(2), of "\<lambda>u. set s' \<subseteq> set u"]) (use grows' in blast)+
    then show ?thesis using True s'(1) by blast
  next
    case False
    then have x: "x \<in> set xs" using Cons.prems(2) by simp
    have "\<exists>u v. f x u = Some v \<and> set s' \<subseteq> set u \<and> set v \<subseteq> set t"
      by (rule Cons.IH [OF s'(2) x]) (rule grows')
    moreover have "set s \<subseteq> set s'" using Cons.prems(3) [of y s s'] s'(1) by simp
    ultimately show ?thesis by blast
  qed
qed simp

subsection \<open>The graph of a script\<close>

definition edges :: "script_nodes \<Rightarrow> (script_node \<times> script_node) set" where
  "edges nodes = {(r, n). r \<in> snd ` set nodes \<and> n \<in> snd ` set nodes \<and> feeds nodes r n}"

text \<open>The nodes have their keys as names, which Deserialize sees to.\<close>

definition well_named :: "script_nodes \<Rightarrow> bool" where
  "well_named nodes \<longleftrightarrow> distinct (map fst nodes) \<and> (\<forall>p\<in>set nodes. sn_Name (snd p) = fst p)"

inductive manual_node :: "script_nodes \<Rightarrow> string list \<Rightarrow> script_node \<Rightarrow> bool" for nodes start where
  policy: "s \<in> set start \<Longrightarrow> map_of nodes s = Some root \<Longrightarrow> (root, r) \<in> (edges nodes)\<^sup>* \<Longrightarrow>
    (r, n) \<in> edges nodes \<Longrightarrow> sn_StartPolicy n = NodeStartManual \<Longrightarrow> manual_node nodes start n"
| inherit: "manual_node nodes start r \<Longrightarrow> sn_Name r \<notin> set start \<Longrightarrow> (r, n) \<in> edges nodes \<Longrightarrow>
    manual_node nodes start n"

inductive affected_node :: "script_nodes \<Rightarrow> string list \<Rightarrow> script_node \<Rightarrow> bool" for nodes start where
  started: "s \<in> set start \<Longrightarrow> map_of nodes s = Some n \<Longrightarrow> affected_node nodes start n"
| child: "affected_node nodes start r \<Longrightarrow> (r, n) \<in> edges nodes \<Longrightarrow> \<not> manual_node nodes start n \<Longrightarrow>
    affected_node nodes start n"

lemma name_inj:
  assumes "well_named nodes" "a \<in> snd ` set nodes" "b \<in> snd ` set nodes" "sn_Name a = sn_Name b"
  shows "a = b"
proof -
  from assms(2,3) obtain k l where kl: "(k, a) \<in> set nodes" "(l, b) \<in> set nodes" by auto
  then have "k = l" using assms(1,4) unfolding well_named_def by (metis fst_conv snd_conv)
  then show ?thesis using kl assms(1) unfolding well_named_def by (metis map_of_is_SomeI option.inject)
qed

lemma map_of_node: "map_of nodes s = Some n \<Longrightarrow> n \<in> snd ` set nodes"
  by (metis image_eqI map_of_SomeD snd_conv)

lemma edge_nodes: "(r, n) \<in> edges nodes \<Longrightarrow> r \<in> snd ` set nodes \<and> n \<in> snd ` set nodes"
  by (simp add: edges_def)

lemma edge_feeds: "r \<in> snd ` set nodes \<Longrightarrow> n \<in> snd ` set nodes \<Longrightarrow> feeds nodes r n \<longleftrightarrow> (r, n) \<in> edges nodes"
  by (simp add: edges_def)

lemma manual_node_node: "manual_node nodes start n \<Longrightarrow> n \<in> snd ` set nodes"
  by (induction rule: manual_node.induct) (simp_all add: edge_nodes)

lemma finite_edges: "finite (edges nodes)"
  by (rule finite_subset [of _ "(snd ` set nodes) \<times> (snd ` set nodes)"]) (auto simp: edges_def)

lemma reach_node: "(r, n) \<in> (edges nodes)\<^sup>+ \<Longrightarrow> n \<in> snd ` set nodes"
  by (induction rule: trancl_induct) (simp_all add: edge_nodes)

definition rank :: "script_nodes \<Rightarrow> script_node \<Rightarrow> nat" where
  "rank nodes r = card ((edges nodes)\<^sup>+ `` {r})"

lemma finite_descendants: "finite ((edges nodes)\<^sup>+ `` {r})"
  by (rule finite_subset [of _ "snd ` set nodes"]) (use reach_node in auto)

lemma rank_less:
  assumes "acyclic (edges nodes)" "(r, n) \<in> edges nodes"
  shows "rank nodes n < rank nodes r"
  unfolding rank_def
proof (rule psubset_card_mono [OF finite_descendants])
  have "n \<in> (edges nodes)\<^sup>+ `` {r}" "n \<notin> (edges nodes)\<^sup>+ `` {n}" using assms by (auto simp: acyclic_def)
  moreover have "(edges nodes)\<^sup>+ `` {n} \<subseteq> (edges nodes)\<^sup>+ `` {r}"
    using assms(2) by (auto intro: trancl_into_trancl2)
  ultimately show "(edges nodes)\<^sup>+ `` {n} \<subset> (edges nodes)\<^sup>+ `` {r}" by blast
qed

lemma rank_le: "rank nodes r \<le> length nodes"
proof -
  have "rank nodes r \<le> card (snd ` set nodes)"
    unfolding rank_def by (rule card_mono) (use reach_node in auto)
  also have "\<dots> \<le> length nodes" by (metis card_length image_set length_map)
  finally show ?thesis .
qed

subsection \<open>The manual set\<close>

lemma manual_total:
  assumes "acyclic (edges nodes)"
  shows "root \<in> snd ` set nodes \<Longrightarrow> rank nodes root < k \<Longrightarrow> \<exists>m'. addChildrenToManual k nodes start root m = Some m'"
proof (induction k arbitrary: root m)
  case (Suc k)
  show ?case unfolding addChildrenToManual.simps
  proof (rule fold_opt_total)
    fix n s
    assume n: "n \<in> set (map snd nodes)"
    show "\<exists>s'. (if feeds nodes root n then addChildrenToManual k nodes start n
           (if sn_Name root \<in> set m \<and> sn_Name root \<notin> set start \<or> sn_StartPolicy n = NodeStartManual
            then List.insert (sn_Name n) s else s) else Some s) = Some s'"
    proof (cases "feeds nodes root n")
      case True
      then have "(root, n) \<in> edges nodes" using Suc.prems(1) n by (simp add: edges_def)
      then have "rank nodes n < k" using rank_less [OF assms] Suc.prems(2) by fastforce
      then show ?thesis using True Suc.IH n by auto
    qed simp
  qed
qed simp

lemma manual_frame:
  assumes "root \<in> snd ` set nodes" "addChildrenToManual k nodes start root m = Some m'"
  shows "set m \<subseteq> set m' \<and> set m' \<subseteq> set m \<union> sn_Name ` ((edges nodes)\<^sup>+ `` {root})"
  using assms
proof (induction k arbitrary: root m m')
  case (Suc k)
  let ?D = "sn_Name ` ((edges nodes)\<^sup>+ `` {root})"
  show ?case
  proof (rule fold_opt_inv [OF Suc.prems(2) [unfolded addChildrenToManual.simps], of "\<lambda>u. set m \<subseteq> set u \<and> set u \<subseteq> set m \<union> ?D"])
    fix n u v
    assume n: "n \<in> set (map snd nodes)" and u: "set m \<subseteq> set u \<and> set u \<subseteq> set m \<union> ?D"
      and v: "(if feeds nodes root n then addChildrenToManual k nodes start n
           (if sn_Name root \<in> set m \<and> sn_Name root \<notin> set start \<or> sn_StartPolicy n = NodeStartManual
            then List.insert (sn_Name n) u else u) else Some u) = Some v"
    show "set m \<subseteq> set v \<and> set v \<subseteq> set m \<union> ?D"
    proof (cases "feeds nodes root n")
      case True
      let ?u = "if sn_Name root \<in> set m \<and> sn_Name root \<notin> set start \<or> sn_StartPolicy n = NodeStartManual
            then List.insert (sn_Name n) u else u"
      have e: "(root, n) \<in> edges nodes" using True Suc.prems(1) n by (simp add: edges_def)
      have "set ?u \<subseteq> set v \<and> set v \<subseteq> set ?u \<union> sn_Name ` ((edges nodes)\<^sup>+ `` {n})"
        using Suc.IH [of n ?u v] v True n by simp
      moreover have "set u \<subseteq> set ?u" "set ?u \<subseteq> insert (sn_Name n) (set u)" by auto
      moreover have "sn_Name n \<in> ?D" "sn_Name ` ((edges nodes)\<^sup>+ `` {n}) \<subseteq> ?D"
        using e by (auto intro: trancl_into_trancl2)
      ultimately show ?thesis using u by blast
    qed (use u v in simp)
  qed simp
qed simp

text \<open>The turn of a child in the recursion of its parent.\<close>

lemma manual_turn:
  assumes "(root, n) \<in> edges nodes" "addChildrenToManual (Suc k) nodes start root m = Some m'"
  shows "\<exists>u v. addChildrenToManual k nodes start n
      (if sn_Name root \<in> set m \<and> sn_Name root \<notin> set start \<or> sn_StartPolicy n = NodeStartManual
       then List.insert (sn_Name n) u else u) = Some v \<and> set m \<subseteq> set u \<and> set v \<subseteq> set m'"
proof -
  have n: "n \<in> set (map snd nodes)" "feeds nodes root n" using assms(1) by (auto simp: edges_def)
  let ?f = "\<lambda>n m1. if feeds nodes root n then addChildrenToManual k nodes start n
           (if sn_Name root \<in> set m \<and> sn_Name root \<notin> set start \<or> sn_StartPolicy n = NodeStartManual
            then List.insert (sn_Name n) m1 else m1) else Some m1"
  have grows: "set u \<subseteq> set v" if x: "x \<in> set (map snd nodes)" and v: "?f x u = Some v" for x u v
  proof (cases "feeds nodes root x")
    case True
    let ?u = "if sn_Name root \<in> set m \<and> sn_Name root \<notin> set start \<or> sn_StartPolicy x = NodeStartManual
            then List.insert (sn_Name x) u else u"
    have "set ?u \<subseteq> set v" using manual_frame [of x nodes k start ?u v] x v True by simp
    moreover have "set u \<subseteq> set ?u" by auto
    ultimately show ?thesis by blast
  qed (use v in simp)
  have "\<exists>u v. ?f n u = Some v \<and> set m \<subseteq> set u \<and> set v \<subseteq> set m'"
    by (rule fold_opt_each [OF assms(2) [unfolded addChildrenToManual.simps] n(1)]) (rule grows)
  then show ?thesis using n(2) by simp
qed

lemma manual_policy:
  assumes "(r, x) \<in> edges nodes" "sn_StartPolicy x = NodeStartManual"
  shows "(root, r) \<in> (edges nodes)\<^sup>* \<Longrightarrow> addChildrenToManual k nodes start root m = Some m' \<Longrightarrow> sn_Name x \<in> set m'"
proof (induction k arbitrary: root m m')
  case (Suc k)
  show ?case
  proof (cases "root = r")
    case True
    obtain u v where "addChildrenToManual k nodes start x (List.insert (sn_Name x) u) = Some v" "set v \<subseteq> set m'"
      using manual_turn [OF assms(1) Suc.prems(2) [unfolded True]] assms(2) by auto
    then show ?thesis using manual_frame [of x nodes k start "List.insert (sn_Name x) u" v] edge_nodes [OF assms(1)] by auto
  next
    case False
    then obtain c where c: "(root, c) \<in> edges nodes" "(c, r) \<in> (edges nodes)\<^sup>*"
      using Suc.prems(1) by (metis converse_rtranclE)
    from manual_turn [OF c(1) Suc.prems(2)] obtain u v where "addChildrenToManual k nodes start c u = Some v" "set v \<subseteq> set m'"
      by blast
    then show ?thesis using Suc.IH [OF c(2)] by blast
  qed
qed simp

definition touched :: "script_nodes \<Rightarrow> string list \<Rightarrow> script_node \<Rightarrow> bool" where
  "touched nodes start r \<longleftrightarrow> (\<exists>s root. s \<in> set start \<and> map_of nodes s = Some root \<and> (root, r) \<in> (edges nodes)\<^sup>*)"

lemma touched_edge: "touched nodes start r \<Longrightarrow> (r, n) \<in> edges nodes \<Longrightarrow> touched nodes start n"
  unfolding touched_def by (meson rtrancl.rtrancl_into_rtrancl)

lemma manual_sound:
  assumes "well_named nodes"
  shows "root \<in> snd ` set nodes \<Longrightarrow> touched nodes start root \<Longrightarrow> set m \<subseteq> sn_Name ` {n. manual_node nodes start n} \<Longrightarrow>
    addChildrenToManual k nodes start root m = Some m' \<Longrightarrow> set m' \<subseteq> sn_Name ` {n. manual_node nodes start n}"
proof (induction k arbitrary: root m m')
  case (Suc k)
  let ?M = "sn_Name ` {n. manual_node nodes start n}"
  show ?case
  proof (rule fold_opt_inv [OF Suc.prems(4) [unfolded addChildrenToManual.simps], of "\<lambda>u. set u \<subseteq> ?M"])
    fix n u v
    assume n: "n \<in> set (map snd nodes)" and u: "set u \<subseteq> ?M"
      and v: "(if feeds nodes root n then addChildrenToManual k nodes start n
           (if sn_Name root \<in> set m \<and> sn_Name root \<notin> set start \<or> sn_StartPolicy n = NodeStartManual
            then List.insert (sn_Name n) u else u) else Some u) = Some v"
    show "set v \<subseteq> ?M"
    proof (cases "feeds nodes root n")
      case True
      let ?c = "sn_Name root \<in> set m \<and> sn_Name root \<notin> set start \<or> sn_StartPolicy n = NodeStartManual"
      have e: "(root, n) \<in> edges nodes" using True Suc.prems(1) n by (simp add: edges_def)
      have "manual_node nodes start n" if c: ?c
      proof (cases "sn_StartPolicy n = NodeStartManual")
        case True
        then show ?thesis using Suc.prems(2) e manual_node.policy unfolding touched_def by blast
      next
        case False
        then have r: "sn_Name root \<in> ?M" "sn_Name root \<notin> set start" using c Suc.prems(3) by auto
        then obtain r' where r': "manual_node nodes start r'" "sn_Name root = sn_Name r'" by auto
        then have "root = r'" using name_inj [OF assms Suc.prems(1) manual_node_node] by blast
        then show ?thesis using manual_node.inherit [OF r'(1)] r(2) e by simp
      qed
      then have "set (if ?c then List.insert (sn_Name n) u else u) \<subseteq> ?M" using u by auto
      moreover have "addChildrenToManual k nodes start n (if ?c then List.insert (sn_Name n) u else u) = Some v"
        using v True by simp
      ultimately show ?thesis using Suc.IH [of n] n touched_edge [OF Suc.prems(2) e] by auto
    qed (use u v in simp)
  qed (rule Suc.prems(3))
qed simp

text \<open>The set is closed, except for the children of the nodes on the stack.\<close>

definition closed_but :: "script_nodes \<Rightarrow> string list \<Rightarrow> script_node set \<Rightarrow> string list \<Rightarrow> bool" where
  "closed_but nodes start S m \<longleftrightarrow>
     (\<forall>r n. (r, n) \<in> edges nodes \<longrightarrow> r \<notin> S \<longrightarrow> sn_Name r \<in> set m \<longrightarrow> sn_Name r \<notin> set start \<longrightarrow> sn_Name n \<in> set m)"

lemma closed_but_insert:
  assumes "well_named nodes" "n \<in> snd ` set nodes" "closed_but nodes start S u"
  shows "closed_but nodes start (insert n S) (List.insert (sn_Name n) u)"
  unfolding closed_but_def
proof (intro allI impI)
  fix r x
  assume r: "(r, x) \<in> edges nodes" "r \<notin> insert n S" "sn_Name r \<in> set (List.insert (sn_Name n) u)" "sn_Name r \<notin> set start"
  then have "sn_Name r \<noteq> sn_Name n" using name_inj [OF assms(1) _ assms(2), of r] edge_nodes by blast
  then have "sn_Name r \<in> set u" using r(3) by simp
  then show "sn_Name x \<in> set (List.insert (sn_Name n) u)" using assms(3) r unfolding closed_but_def by auto
qed

lemma closed_but_mono: "closed_but nodes start S u \<Longrightarrow> S \<subseteq> T \<Longrightarrow> closed_but nodes start T u"
  unfolding closed_but_def by blast

lemma manual_closed:
  assumes "well_named nodes" "acyclic (edges nodes)"
  shows "root \<in> snd ` set nodes \<Longrightarrow> closed_but nodes start (insert root S) m \<Longrightarrow>
    addChildrenToManual k nodes start root m = Some m' \<Longrightarrow> closed_but nodes start S m'"
proof (induction k arbitrary: root S m m')
  case (Suc k)
  have loop: "closed_but nodes start (insert root S) m'"
  proof (rule fold_opt_inv [OF Suc.prems(3) [unfolded addChildrenToManual.simps], of "closed_but nodes start (insert root S)"])
    fix n u v
    assume n: "n \<in> set (map snd nodes)" and u: "closed_but nodes start (insert root S) u"
      and v: "(if feeds nodes root n then addChildrenToManual k nodes start n
           (if sn_Name root \<in> set m \<and> sn_Name root \<notin> set start \<or> sn_StartPolicy n = NodeStartManual
            then List.insert (sn_Name n) u else u) else Some u) = Some v"
    show "closed_but nodes start (insert root S) v"
    proof (cases "feeds nodes root n")
      case True
      let ?c = "sn_Name root \<in> set m \<and> sn_Name root \<notin> set start \<or> sn_StartPolicy n = NodeStartManual"
      have nn: "n \<in> snd ` set nodes" using n by simp
      have "closed_but nodes start (insert n (insert root S)) (if ?c then List.insert (sn_Name n) u else u)"
        using closed_but_insert [OF assms(1) nn u] closed_but_mono [OF u subset_insertI] by simp
      then show ?thesis by (rule Suc.IH [OF nn]) (use v True in simp)
    qed (use u v in simp)
  qed (rule Suc.prems(2))
  show ?case unfolding closed_but_def
  proof (intro allI impI)
    fix r n
    assume r: "(r, n) \<in> edges nodes" "r \<notin> S" "sn_Name r \<in> set m'" "sn_Name r \<notin> set start"
    show "sn_Name n \<in> set m'"
    proof (cases "r = root")
      case False
      then show ?thesis using loop r unfolding closed_but_def by blast
    next
      case True
      have "sn_Name root \<notin> sn_Name ` ((edges nodes)\<^sup>+ `` {root})"
      proof
        assume "sn_Name root \<in> sn_Name ` ((edges nodes)\<^sup>+ `` {root})"
        then obtain x where x: "(root, x) \<in> (edges nodes)\<^sup>+" "sn_Name root = sn_Name x" by auto
        then have "root = x" using name_inj [OF assms(1) Suc.prems(1) reach_node] by blast
        then show False using x(1) assms(2) unfolding acyclic_def by blast
      qed
      then have "sn_Name root \<in> set m" using manual_frame [OF Suc.prems(1,3)] r(3) True by blast
      then obtain u v where uv: "addChildrenToManual k nodes start n (List.insert (sn_Name n) u) = Some v" "set v \<subseteq> set m'"
        using manual_turn [OF r(1) [unfolded True] Suc.prems(3)] r(4) True by auto
      then show ?thesis using manual_frame [OF _ uv(1)] edge_nodes [OF r(1)] by auto
    qed
  qed
qed simp

text \<open>The manual set of a run, over all start nodes.\<close>

lemma manual_set:
  assumes "well_named nodes" "acyclic (edges nodes)"
    and fold: "fold_opt (\<lambda>s m. case map_of nodes s of None \<Rightarrow> Some m
        | Some n \<Rightarrow> addChildrenToManual k nodes start n m) start [] = Some m'"
  shows "set m' = sn_Name ` {n. manual_node nodes start n}"
proof
  let ?f = "\<lambda>s m. case map_of nodes s of None \<Rightarrow> Some m | Some n \<Rightarrow> addChildrenToManual k nodes start n m"
  show "set m' \<subseteq> sn_Name ` {n. manual_node nodes start n}"
  proof (rule fold_opt_inv [OF fold, of "\<lambda>u. set u \<subseteq> sn_Name ` {n. manual_node nodes start n}"])
    fix s u v
    assume s: "s \<in> set start" "set u \<subseteq> sn_Name ` {n. manual_node nodes start n}" "?f s u = Some v"
    show "set v \<subseteq> sn_Name ` {n. manual_node nodes start n}"
    proof (cases "map_of nodes s")
      case (Some n)
      have "touched nodes start n" unfolding touched_def using s(1) Some by blast
      then show ?thesis using manual_sound [OF assms(1) map_of_node [OF Some] _ s(2)] s(3) Some by simp
    qed (use s in simp)
  qed simp
  have closed: "closed_but nodes start {} m'"
  proof (rule fold_opt_inv [OF fold, of "closed_but nodes start {}"])
    fix s u v
    assume s: "closed_but nodes start {} u" "?f s u = Some v"
    show "closed_but nodes start {} v"
    proof (cases "map_of nodes s")
      case (Some n)
      have "closed_but nodes start (insert n {}) u" by (rule closed_but_mono [OF s(1)]) simp
      from manual_closed [OF assms(1,2) map_of_node [OF Some] this] show ?thesis using s(2) Some by simp
    qed (use s in simp)
  qed (simp add: closed_but_def)
  have grows: "set u \<subseteq> set v" if "?f s u = Some v" for s u v
  proof (cases "map_of nodes s")
    case (Some n)
    then show ?thesis using manual_frame [OF map_of_node [OF Some], of k start u v] that by simp
  qed (use that in simp)
  have "sn_Name n \<in> set m'" if "manual_node nodes start n" for n
    using that
  proof (induction rule: manual_node.induct)
    case (policy s root r n)
    have "\<exists>u v. ?f s u = Some v \<and> set [] \<subseteq> set u \<and> set v \<subseteq> set m'"
      by (rule fold_opt_each [OF fold policy(1)]) (rule grows)
    then obtain u v where "?f s u = Some v" "set v \<subseteq> set m'" by blast
    then show ?case using manual_policy [OF policy(4,5,3)] policy(2) by auto
  next
    case (inherit r n)
    then show ?case using closed unfolding closed_but_def by blast
  qed
  then show "sn_Name ` {n. manual_node nodes start n} \<subseteq> set m'" by blast
qed

subsection \<open>The affected set\<close>

definition free_edges :: "script_nodes \<Rightarrow> string list \<Rightarrow> (script_node \<times> script_node) set" where
  "free_edges nodes man = {(r, n). (r, n) \<in> edges nodes \<and> sn_Name n \<notin> set man}"

lemma free_node: "(r, n) \<in> (free_edges nodes man)\<^sup>+ \<Longrightarrow> n \<in> snd ` set nodes"
  by (induction rule: trancl_induct) (auto simp: free_edges_def dest: edge_nodes)

lemma affected_total:
  assumes "acyclic (edges nodes)"
  shows "root \<in> snd ` set nodes \<Longrightarrow> rank nodes root < k \<Longrightarrow> \<exists>a'. addChildrenToAffected k nodes root man a = Some a'"
proof (induction k arbitrary: root a)
  case (Suc k)
  show ?case unfolding addChildrenToAffected.simps
  proof (rule fold_opt_total)
    fix n s
    assume n: "n \<in> set (map snd nodes)"
    show "\<exists>s'. (if feeds nodes root n \<and> sn_Name n \<notin> set man
        then addChildrenToAffected k nodes n man (List.insert (sn_Name n) s) else Some s) = Some s'"
    proof (cases "feeds nodes root n")
      case True
      then have "(root, n) \<in> edges nodes" using Suc.prems(1) n by (simp add: edges_def)
      then have "rank nodes n < k" using rank_less [OF assms] Suc.prems(2) by fastforce
      then show ?thesis using Suc.IH n by auto
    qed simp
  qed
qed simp

lemma affected_frame:
  assumes "root \<in> snd ` set nodes" "addChildrenToAffected k nodes root man a = Some a'"
  shows "set a \<subseteq> set a' \<and> set a' \<subseteq> set a \<union> sn_Name ` ((free_edges nodes man)\<^sup>+ `` {root}) \<and>
    (distinct a \<longrightarrow> distinct a')"
  using assms
proof (induction k arbitrary: root a a')
  case (Suc k)
  let ?D = "sn_Name ` ((free_edges nodes man)\<^sup>+ `` {root})"
  show ?case
  proof (rule fold_opt_inv [OF Suc.prems(2) [unfolded addChildrenToAffected.simps],
        of "\<lambda>u. set a \<subseteq> set u \<and> set u \<subseteq> set a \<union> ?D \<and> (distinct a \<longrightarrow> distinct u)"])
    fix n u v
    assume n: "n \<in> set (map snd nodes)" and u: "set a \<subseteq> set u \<and> set u \<subseteq> set a \<union> ?D \<and> (distinct a \<longrightarrow> distinct u)"
      and v: "(if feeds nodes root n \<and> sn_Name n \<notin> set man
        then addChildrenToAffected k nodes n man (List.insert (sn_Name n) u) else Some u) = Some v"
    show "set a \<subseteq> set v \<and> set v \<subseteq> set a \<union> ?D \<and> (distinct a \<longrightarrow> distinct v)"
    proof (cases "feeds nodes root n \<and> sn_Name n \<notin> set man")
      case True
      have e: "(root, n) \<in> free_edges nodes man" using True Suc.prems(1) n by (simp add: edges_def free_edges_def)
      have ih: "insert (sn_Name n) (set u) \<subseteq> set v"
          "set v \<subseteq> insert (sn_Name n) (set u) \<union> sn_Name ` ((free_edges nodes man)\<^sup>+ `` {n})"
          "distinct u \<longrightarrow> distinct v"
        using Suc.IH [of n "List.insert (sn_Name n) u" v] v True n by simp_all
      have D: "sn_Name n \<in> ?D" "sn_Name ` ((free_edges nodes man)\<^sup>+ `` {n}) \<subseteq> ?D"
        using e by (auto intro: trancl_into_trancl2)
      have "set v \<subseteq> set a \<union> ?D" using ih(2) D u by blast
      moreover have "set a \<subseteq> set v" using ih(1) u by blast
      ultimately show ?thesis using ih(3) u by simp
    qed (use u v in auto)
  qed simp
qed simp

lemma affected_complete:
  shows "(root, n) \<in> (free_edges nodes man)\<^sup>+ \<Longrightarrow> addChildrenToAffected k nodes root man a = Some a' \<Longrightarrow> sn_Name n \<in> set a'"
proof (induction k arbitrary: root a a')
  case (Suc k)
  from tranclD [OF Suc.prems(1)] obtain c where cr: "(root, c) \<in> free_edges nodes man" "(c, n) \<in> (free_edges nodes man)\<^sup>*"
    by blast
  have c: "(root, c) \<in> free_edges nodes man" "c = n \<or> (c, n) \<in> (free_edges nodes man)\<^sup>+"
    using cr(1) rtranclD [OF cr(2)] by blast+
  let ?f = "\<lambda>x u. if feeds nodes root x \<and> sn_Name x \<notin> set man
        then addChildrenToAffected k nodes x man (List.insert (sn_Name x) u) else Some u"
  have cn: "c \<in> set (map snd nodes)" "feeds nodes root c" "sn_Name c \<notin> set man" "c \<in> snd ` set nodes"
    using c(1) by (auto simp: free_edges_def edges_def)
  have grows: "set u \<subseteq> set v" if x: "x \<in> set (map snd nodes)" and v: "?f x u = Some v" for x u v
  proof (cases "feeds nodes root x \<and> sn_Name x \<notin> set man")
    case True
    then have "set (List.insert (sn_Name x) u) \<subseteq> set v"
      using affected_frame [of x nodes k man "List.insert (sn_Name x) u" v] x v by simp
    then show ?thesis by auto
  qed (use v in auto)
  have "\<exists>u v. ?f c u = Some v \<and> set a \<subseteq> set u \<and> set v \<subseteq> set a'"
    by (rule fold_opt_each [OF Suc.prems(2) [unfolded addChildrenToAffected.simps] cn(1)]) (rule grows)
  then obtain u v where uv: "addChildrenToAffected k nodes c man (List.insert (sn_Name c) u) = Some v" "set v \<subseteq> set a'"
    using cn by auto
  show ?case
  proof (cases "c = n")
    case True
    then show ?thesis using affected_frame [OF cn(4) uv(1)] uv(2) by auto
  next
    case False
    then show ?thesis using c(2) Suc.IH [OF _ uv(1)] uv(2) by blast
  qed
qed simp

lemma affected_reach:
  assumes "well_named nodes" "set man = sn_Name ` {n. manual_node nodes start n}"
  shows "affected_node nodes start n \<longleftrightarrow>
    (\<exists>s\<in>set start. \<exists>root. map_of nodes s = Some root \<and> (root, n) \<in> (free_edges nodes man)\<^sup>*)"
proof -
  have free: "(r, n) \<in> free_edges nodes man \<longleftrightarrow> (r, n) \<in> edges nodes \<and> \<not> manual_node nodes start n" for r n
  proof -
    have "sn_Name n \<in> set man \<longleftrightarrow> manual_node nodes start n" if "n \<in> snd ` set nodes"
      unfolding assms(2) using name_inj [OF assms(1) that manual_node_node] by blast
    then show ?thesis using edge_nodes unfolding free_edges_def by blast
  qed
  show ?thesis
  proof
    show "affected_node nodes start n \<Longrightarrow>
        \<exists>s\<in>set start. \<exists>root. map_of nodes s = Some root \<and> (root, n) \<in> (free_edges nodes man)\<^sup>*"
    proof (induction rule: affected_node.induct)
      case (child r n)
      then show ?case using free rtrancl.rtrancl_into_rtrancl by metis
    qed blast
  next
    assume "\<exists>s\<in>set start. \<exists>root. map_of nodes s = Some root \<and> (root, n) \<in> (free_edges nodes man)\<^sup>*"
    then obtain s root where s: "s \<in> set start" "map_of nodes s = Some root" and r: "(root, n) \<in> (free_edges nodes man)\<^sup>*"
      by blast
    from r show "affected_node nodes start n"
    proof (induction rule: rtrancl_induct)
      case base
      show ?case by (rule affected_node.started [OF s])
    next
      case (step y z)
      then show ?case using affected_node.child free by blast
    qed
  qed
qed

lemma affected_set:
  assumes "well_named nodes" "set man = sn_Name ` {n. manual_node nodes start n}"
    and fold: "fold_opt (\<lambda>s a. case map_of nodes s of None \<Rightarrow> Some a
        | Some n \<Rightarrow> addChildrenToAffected k nodes n man (List.insert (sn_Name n) a)) start [] = Some xs"
  shows "set xs = sn_Name ` {n. affected_node nodes start n} \<and> distinct xs"
proof -
  let ?f = "\<lambda>s a. case map_of nodes s of None \<Rightarrow> Some a
        | Some n \<Rightarrow> addChildrenToAffected k nodes n man (List.insert (sn_Name n) a)"
  let ?A = "sn_Name ` {n. affected_node nodes start n}"
  have turn: "insert (sn_Name n) (set u) \<subseteq> set v \<and>
      set v \<subseteq> insert (sn_Name n) (set u) \<union> sn_Name ` ((free_edges nodes man)\<^sup>+ `` {n}) \<and> (distinct u \<longrightarrow> distinct v)"
    if "map_of nodes s = Some n" "?f s u = Some v" for s n u v
    using affected_frame [OF map_of_node [OF that(1)], of k man "List.insert (sn_Name n) u" v] that by simp
  have "set xs \<subseteq> ?A \<and> distinct xs"
  proof (rule fold_opt_inv [OF fold, of "\<lambda>u. set u \<subseteq> ?A \<and> distinct u"])
    fix s u v
    assume s: "s \<in> set start" "set u \<subseteq> ?A \<and> distinct u" "?f s u = Some v"
    show "set v \<subseteq> ?A \<and> distinct v"
    proof (cases "map_of nodes s")
      case (Some n)
      have "affected_node nodes start x" if "(n, x) \<in> (free_edges nodes man)\<^sup>*" for x
        unfolding affected_reach [OF assms(1,2)] using s(1) Some that by blast
      then have "sn_Name n \<in> ?A" "sn_Name ` ((free_edges nodes man)\<^sup>+ `` {n}) \<subseteq> ?A" by (auto dest: trancl_into_rtrancl)
      then show ?thesis using turn [OF Some s(3)] s(2) by blast
    qed (use s in simp)
  qed simp
  moreover have "sn_Name n \<in> set xs" if "affected_node nodes start n" for n
  proof -
    from that obtain s root where s: "s \<in> set start" "map_of nodes s = Some root" "(root, n) \<in> (free_edges nodes man)\<^sup>*"
      unfolding affected_reach [OF assms(1,2)] by blast
    have grows: "set u \<subseteq> set v" if "?f s u = Some v" for s u v
      using turn [of s _ u v] that by (cases "map_of nodes s") auto
    have "\<exists>u v. ?f s u = Some v \<and> set [] \<subseteq> set u \<and> set v \<subseteq> set xs"
      by (rule fold_opt_each [OF fold s(1)]) (rule grows)
    then obtain u v where uv: "?f s u = Some v" "set v \<subseteq> set xs" by blast
    have r: "addChildrenToAffected k nodes root man (List.insert (sn_Name root) u) = Some v" using uv(1) s(2) by simp
    show ?thesis
    proof (cases "n = root")
      case True
      then show ?thesis using turn [OF s(2) uv(1)] uv(2) by blast
    next
      case False
      then show ?thesis using affected_complete [OF _ r] s(3) uv(2) by (metis rtranclD subsetD)
    qed
  qed
  ultimately show ?thesis by blast
qed

text \<open>C33: On a script without cycles GetAffectedNodes returns, with a recursion no deeper than the number
  of nodes, and the result lists once each of the nodes that are reachable from the start nodes without
  passing a node that waits for a manual start; a node waits if its policy says so or if it
  depends on a waiting node that is not itself a start node.\<close>

theorem affected_nodes_reachable:
  assumes "well_named nodes" "acyclic (edges nodes)" "length nodes < fuel"
  shows "\<exists>xs. GetAffectedNodes fuel nodes startNodeNames = Some xs \<and> distinct xs \<and>
    set xs = sn_Name ` {n. affected_node nodes startNodeNames n}"
proof -
  have deep: "rank nodes n < fuel" for n using rank_le [of nodes n] assms(3) by linarith
  have "\<exists>m. fold_opt (\<lambda>s m. case map_of nodes s of None \<Rightarrow> Some m
      | Some n \<Rightarrow> addChildrenToManual fuel nodes startNodeNames n m) startNodeNames [] = Some m"
    by (rule fold_opt_total) (auto split: option.split intro: manual_total [OF assms(2) _ deep] dest: map_of_node)
  then obtain man where man: "fold_opt (\<lambda>s m. case map_of nodes s of None \<Rightarrow> Some m
      | Some n \<Rightarrow> addChildrenToManual fuel nodes startNodeNames n m) startNodeNames [] = Some man" ..
  have "\<exists>xs. fold_opt (\<lambda>s a. case map_of nodes s of None \<Rightarrow> Some a
      | Some n \<Rightarrow> addChildrenToAffected fuel nodes n man (List.insert (sn_Name n) a)) startNodeNames [] = Some xs"
    by (rule fold_opt_total) (auto split: option.split intro: affected_total [OF assms(2) _ deep] dest: map_of_node)
  then obtain xs where xs: "fold_opt (\<lambda>s a. case map_of nodes s of None \<Rightarrow> Some a
      | Some n \<Rightarrow> addChildrenToAffected fuel nodes n man (List.insert (sn_Name n) a)) startNodeNames [] = Some xs" ..
  show ?thesis using affected_set [OF assms(1) manual_set [OF assms(1,2) man] xs] man xs
    by (simp add: GetAffectedNodes_def)
qed

subsection \<open>Cycles\<close>

lemma manual_cycle:
  assumes "(c, c) \<in> (edges nodes)\<^sup>+"
  shows "(root, c) \<in> (edges nodes)\<^sup>+ \<Longrightarrow> addChildrenToManual k nodes start root m = None"
proof (induction k arbitrary: root m)
  case (Suc k)
  obtain n where n: "(root, n) \<in> edges nodes" "(n, c) \<in> (edges nodes)\<^sup>+"
    using Suc.prems assms by (metis tranclD rtranclD)
  show ?case
  proof (rule ccontr)
    assume "addChildrenToManual (Suc k) nodes start root m \<noteq> None"
    then obtain m' where "addChildrenToManual (Suc k) nodes start root m = Some m'" by blast
    from manual_turn [OF n(1) this] show False using Suc.IH [OF n(2)] by auto
  qed
qed simp

text \<open>No check of a script excludes cycles, and a start before a cycle recurses for ever.\<close>

lemma cyclic_script_never_returns:
  assumes "s \<in> set startNodeNames" "map_of nodes s = Some root" "(root, c) \<in> (edges nodes)\<^sup>*" "(c, c) \<in> (edges nodes)\<^sup>+"
  shows "GetAffectedNodes fuel nodes startNodeNames = None"
proof -
  have rc: "(root, c) \<in> (edges nodes)\<^sup>+" using assms(3,4) by (rule rtrancl_trancl_trancl)
  let ?f = "\<lambda>s m. case map_of nodes s of None \<Rightarrow> Some m
      | Some n \<Rightarrow> addChildrenToManual fuel nodes startNodeNames n m"
  have "fold_opt ?f xs u = None" if "s \<in> set xs" for xs u
    using that
  proof (induction xs arbitrary: u)
    case (Cons x xs)
    show ?case
    proof (cases "x = s")
      case True
      then show ?thesis using manual_cycle [OF assms(4) rc] assms(2) by simp
    next
      case False
      then show ?thesis using Cons by (auto split: option.splits)
    qed
  qed simp
  then show ?thesis using assms(1) by (simp add: GetAffectedNodes_def)
qed

text \<open>Three nodes in a row, the middle one with a manual start.\<close>

definition chain_node :: "string \<Rightarrow> node_type \<Rightarrow> start_policy \<Rightarrow> string \<Rightarrow> string \<Rightarrow> script_node" where
  "chain_node name t policy reads writes = sample_node\<lparr>sn_Name := name, sn_Type := t, sn_StartPolicy := policy,
     sn_TableReader := \<lparr>trd_TableName = reads, trd_ExpectedBatchesTotal = 1, trd_RowsetSize = 1000, trd_TableCreator = None\<rparr>,
     sn_TableCreator := sample_table\<lparr>tc_Name := writes\<rparr>\<rparr>"

definition chain1 :: script_node where "chain1 = chain_node ''n1'' NodeTypeFileTable NodeStartAuto '''' ''t1''"
definition chain2 :: script_node where "chain2 = chain_node ''n2'' NodeTypeTableTable NodeStartManual ''t1'' ''t2''"
definition chain3 :: script_node where "chain3 = chain_node ''n3'' NodeTypeTableTable NodeStartAuto ''t2'' ''t3''"

definition chain :: script_nodes where
  "chain = [(''n1'', chain1), (''n2'', chain2), (''n3'', chain3)]"

lemma chain_fields [simp]:
  "sn_Name chain1 = ''n1''" "sn_Name chain2 = ''n2''" "sn_Name chain3 = ''n3''"
  "sn_StartPolicy chain1 = NodeStartAuto" "sn_StartPolicy chain2 = NodeStartManual" "sn_StartPolicy chain3 = NodeStartAuto"
  by (simp_all add: chain1_def chain2_def chain3_def chain_node_def)

lemma chain_distinct [simp]:
  "chain1 \<noteq> chain2" "chain2 \<noteq> chain1" "chain2 \<noteq> chain3" "chain3 \<noteq> chain2" "chain1 \<noteq> chain3" "chain3 \<noteq> chain1"
  by (auto dest: arg_cong [where f = sn_Name])

lemma chain_feeds [simp]:
  "feeds nodes chain1 chain1 = False" "feeds nodes chain1 chain2 = True" "feeds nodes chain1 chain3 = False"
  "feeds nodes chain2 chain1 = False" "feeds nodes chain2 chain2 = False" "feeds nodes chain2 chain3 = True"
  "feeds nodes chain3 chain1 = False" "feeds nodes chain3 chain2 = False" "feeds nodes chain3 chain3 = False"
  by (simp_all add: feeds_def node_has_defs chain1_def chain2_def chain3_def chain_node_def)

lemma chain_edges: "edges chain = {(chain1, chain2), (chain2, chain3)}"
  by (auto simp: edges_def chain_def)

definition chain_level :: "script_node \<Rightarrow> nat" where
  "chain_level n = (if n = chain1 then 2 else if n = chain2 then 1 else 0)"

lemma affected_nodes_reachable_witness:
  "\<exists>xs. GetAffectedNodes 4 chain [''n1''] = Some xs \<and> set xs = sn_Name ` {n. affected_node chain [''n1''] n} \<and> distinct xs"
proof -
  have w: "well_named chain" by (simp add: well_named_def chain_def)
  have "(edges chain)\<inverse> \<subseteq> measure chain_level"
    unfolding chain_edges by (auto simp: chain_level_def)
  then have "acyclic ((edges chain)\<inverse>)" by (rule acyclic_subset [OF wf_acyclic [OF wf_measure]])
  then have a: "acyclic (edges chain)" by simp
  have l: "length chain < 4" by (simp add: chain_def)
  show ?thesis using affected_nodes_reachable [OF w a l, of "[''n1'']"] by blast
qed

text \<open>The nodes behind the manual one are left out; starting it brings them back.\<close>

lemma chain_affected:
  "GetAffectedNodes 4 chain [''n1''] = Some [''n1'']"
  "GetAffectedNodes 4 chain [''n2''] = Some [''n3'', ''n2'']"
  by (simp_all add: eval_nat_numeral GetAffectedNodes_def List.insert_def) (simp_all add: chain_def)

end
