(* ===== verification/Wfdb.thy ===== *)
theory Wfdb
  imports Cql Wfmodel Ast
begin

text \<open>
  Access to the workflow tables (pkg/wfdb): each function builds the text of a query with the query
  builder and gives it to the database session, whose three calls are the record \<open>session\<close>, a
  parameter that acts on an unknown world. The counter of runs is incremented by a compare-and-set;
  the last section shows that concurrent callers get different run ids.
\<close>

record ('w, 'f, 'd) session =
  s_Exec :: "string \<Rightarrow> 'w \<Rightarrow> goerr option \<times> 'w"
  s_SliceMap :: "string \<Rightarrow> 'w \<Rightarrow> (goerr + ('f, 'd) row list) \<times> 'w"
  s_MapScanCAS :: "string \<Rightarrow> 'w \<Rightarrow> (goerr + bool) \<times> 'w"

text \<open>The machine and the thread that the logger knows.\<close>

record worker =
  wk_Instance :: string
  wk_Thread :: int

definition TableNameBatchHistory :: string where "TableNameBatchHistory = ''wf_batch_history''"
definition TableNameNodeHistory :: string where "TableNameNodeHistory = ''wf_node_history''"
definition TableNameRunHistory :: string where "TableNameRunHistory = ''wf_run_history''"
definition TableNameRunProperties :: string where "TableNameRunProperties = ''wf_run_properties''"
definition TableNameRunCounter :: string where "TableNameRunCounter = ''wf_run_counter''"

definition WrapDbErrorWithQuery :: "string \<Rightarrow> string \<Rightarrow> goerr \<Rightarrow> goerr" where
  "WrapDbErrorWithQuery msg query dbErr =
     msg @ '', query:'' @ take 500 query @ '', '' @ ErrorPrefixDb @ dbErr"

text \<open>The text of gocql.ErrNoConnections is a parameter.\<close>

definition IsDbConnError :: "string \<Rightarrow> goerr \<Rightarrow> bool" where
  "IsDbConnError noConnections err \<longleftrightarrow>
     Contains err (ErrorPrefixDb @ noConnections) \<or> Contains err (ErrorPrefixDb @ ''EOF'') \<or>
     Contains err (ErrorPrefixDb @ ''gocql: heartbeat failed'')"

text \<open>A query for rows and a statement, with the error wrapped.\<close>

definition rows_of ::
  "('w, 'f, 'd) session \<Rightarrow> string \<Rightarrow> string \<Rightarrow> 'w \<Rightarrow> (goerr + ('f, 'd) row list) \<times> 'w" where
  "rows_of S msg q w =
     (case s_SliceMap S q w of
        (Inl e, w1) \<Rightarrow> (Inl (WrapDbErrorWithQuery msg q e), w1)
      | (Inr rows, w1) \<Rightarrow> (Inr rows, w1))"

definition exec :: "('w, 'f, 'd) session \<Rightarrow> string \<Rightarrow> string \<Rightarrow> 'w \<Rightarrow> goerr option \<times> 'w" where
  "exec S msg q w =
     (case s_Exec S q w of
        (Some e, w1) \<Rightarrow> (Some (WrapDbErrorWithQuery msg q e), w1)
      | (None, w1) \<Rightarrow> (None, w1))"

subsection \<open>Batch history\<close>

definition GetSingleBatchStatusRows ::
  "('w, 'f, 'd) session \<Rightarrow> (('f, 'd) gval \<Rightarrow> string) \<Rightarrow> string \<Rightarrow> int \<Rightarrow> string \<Rightarrow> int \<Rightarrow> string list \<Rightarrow> 'w \<Rightarrow>
     (goerr + ('f, 'd) row list) \<times> 'w" where
  "GetSingleBatchStatusRows S fv keyspace runId nodeName batchIdx fieldNames =
     rows_of S ''cannot get batch history for batch''
       (Select TableNameBatchHistory fieldNames
         (Cond fv ''batch_idx'' ''='' (VInt16 batchIdx) (Cond fv ''script_node'' ''='' (VStr nodeName)
           (Cond fv ''run_id'' ''='' (VInt16 runId) (Keyspace keyspace NewQB)))))"

definition GetAllBatchHistoryForRunAndNode ::
  "('w, 'f, 'd) session \<Rightarrow> (('f, 'd) gval \<Rightarrow> string) \<Rightarrow> string \<Rightarrow> int \<Rightarrow> string \<Rightarrow> string list \<Rightarrow> 'w \<Rightarrow>
     (goerr + ('f, 'd) row list) \<times> 'w" where
  "GetAllBatchHistoryForRunAndNode S fv keyspace runId nodeName fieldNames =
     rows_of S ''cannot get node batch history''
       (Select TableNameBatchHistory fieldNames
         (Cond fv ''script_node'' ''='' (VStr nodeName) (Cond fv ''run_id'' ''='' (VInt16 runId) (Keyspace keyspace NewQB))))"

definition SetBatchStatus ::
  "('w, 'f, 'd) session \<Rightarrow> (('f, 'd) gval \<Rightarrow> string) \<Rightarrow> worker \<Rightarrow> wf_message \<Rightarrow> int \<Rightarrow> string \<Rightarrow> 'w \<Rightarrow>
     goerr option \<times> 'w" where
  "SetBatchStatus S fv wk msg status comment =
     exec S (''cannot write batch '' @ FullBatchId msg @ '' status '' @ int_str status)
       (InsertUnpreparedQuery TableNameBatchHistory IfExistsOverwrite
         (Write fv ''comment'' (VStr comment)
         (Write fv ''thread'' (VInt64 (wk_Thread wk))
         (Write fv ''instance'' (VStr (wk_Instance wk))
         (Write fv ''last_token'' (VInt64 (wm_LastToken msg))
         (Write fv ''first_token'' (VInt64 (wm_FirstToken msg))
         (Write fv ''status'' (VInt8 status)
         (Write fv ''batches_total'' (VInt16 (wm_BatchesTotal msg))
         (Write fv ''batch_idx'' (VInt16 (wm_BatchIdx msg))
         (Write fv ''script_node'' (VStr (wm_TargetNodeName msg))
         (Write fv ''run_id'' (VInt16 (wm_RunId msg))
         (WriteForceUnquote fv ''ts'' (VStr ''toTimestamp(now())'')
         (Keyspace (wm_DataKeyspace msg) NewQB)))))))))))))"

subsection \<open>Node history\<close>

definition GetNodeHistoryForRuns ::
  "('w, 'f, 'd) session \<Rightarrow> string \<Rightarrow> int list \<Rightarrow> string list \<Rightarrow> 'w \<Rightarrow> (goerr + ('f, 'd) row list) \<times> 'w" where
  "GetNodeHistoryForRuns S keyspace runIds nodeNames =
     (let qb0 = Keyspace keyspace NewQB :: ('f, 'd) query_builder;
          qb1 = (if length runIds > 0 then CondInInt16 ''run_id'' runIds qb0 else qb0);
          qb2 = (if length nodeNames > 0 then CondInString ''script_node'' nodeNames qb1 else qb1)
      in rows_of S ''cannot get node history'' (Select TableNameNodeHistory NodeHistoryEventAllFields qb2))"

definition SetNodeStatus ::
  "('w, 'f, 'd) session \<Rightarrow> (('f, 'd) gval \<Rightarrow> string) \<Rightarrow> wf_message \<Rightarrow> int \<Rightarrow> string \<Rightarrow> 'w \<Rightarrow> goerr option \<times> 'w" where
  "SetNodeStatus S fv msg status comment =
     exec S (''cannot update node status to '' @ int_str status @ '', processing batch '' @ FullBatchId msg)
       (InsertUnpreparedQuery TableNameNodeHistory IfExistsOverwrite
         (Write fv ''comment'' (VStr comment)
         (Write fv ''status'' (VInt8 status)
         (Write fv ''written_by_batch_idx'' (VInt16 (wm_BatchIdx msg))
         (Write fv ''script_node'' (VStr (wm_TargetNodeName msg))
         (Write fv ''run_id'' (VInt16 (wm_RunId msg))
         (WriteForceUnquote fv ''ts'' (VStr ''toTimestamp(now())'')
         (Keyspace (wm_DataKeyspace msg) NewQB))))))))"

subsection \<open>Run history and properties\<close>

definition GetRunStatusRows ::
  "('w, 'f, 'd) session \<Rightarrow> (('f, 'd) gval \<Rightarrow> string) \<Rightarrow> string \<Rightarrow> int \<Rightarrow> 'w \<Rightarrow> (goerr + ('f, 'd) row list) \<times> 'w" where
  "GetRunStatusRows S fv keyspace runId w =
     (if runId \<le> 0 then (Inl (''cannot retrieve status of run 0 for keyspace '' @ keyspace), w)
      else rows_of S ''cannot query run status''
             (Select TableNameRunHistory [''ts'', ''status'']
               (Cond fv ''run_id'' ''='' (VInt16 runId) (Keyspace keyspace NewQB))) w)"

definition SetRunStatus ::
  "('w, 'f, 'd) session \<Rightarrow> (('f, 'd) gval \<Rightarrow> string) \<Rightarrow> string \<Rightarrow> int \<Rightarrow> int \<Rightarrow> string \<Rightarrow> 'w \<Rightarrow> goerr option \<times> 'w" where
  "SetRunStatus S fv keyspace runId status comment w =
     (if runId \<le> 0 then (Some (''cannot set status of run 0 for keyspace '' @ keyspace), w)
      else exec S ''cannot write run status''
             (InsertUnpreparedQuery TableNameRunHistory IfNotExistsLwt
               (Write fv ''comment'' (VStr comment)
               (Write fv ''status'' (VInt8 status)
               (Write fv ''run_id'' (VInt16 runId)
               (WriteForceUnquote fv ''ts'' (VStr ''toTimestamp(now())'')
               (Keyspace keyspace NewQB)))))) w)"

definition GetRunHistory ::
  "('w, 'f, 'd) session \<Rightarrow> string \<Rightarrow> int list \<Rightarrow> 'w \<Rightarrow> (goerr + ('f, 'd) row list) \<times> 'w" where
  "GetRunHistory S keyspace runIds =
     (let qb0 = Keyspace keyspace NewQB :: ('f, 'd) query_builder
      in rows_of S ''cannot get run history''
           (Select TableNameRunHistory RunHistoryEventAllFields
             (if length runIds > 0 then CondInInt16 ''run_id'' runIds qb0 else qb0)))"

definition GetRunProperties ::
  "('w, 'f, 'd) session \<Rightarrow> (('f, 'd) gval \<Rightarrow> string) \<Rightarrow> string \<Rightarrow> int \<Rightarrow> string list \<Rightarrow> 'w \<Rightarrow>
     (goerr + ('f, 'd) row) \<times> 'w" where
  "GetRunProperties S fv keyspace runId fieldNames w =
     (if runId \<le> 0 then (Inl (''cannot retrieve properties of run 0 for keyspace '' @ keyspace), w)
      else (case rows_of S ''cannot get all runs properties''
                   (Select TableNameRunProperties fieldNames
                     (Cond fv ''run_id'' ''='' (VInt16 runId) (Keyspace keyspace NewQB))) w of
              (Inl e, w1) \<Rightarrow> (Inl e, w1)
            | (Inr [r], w1) \<Rightarrow> (Inr r, w1)
            | (Inr _, w1) \<Rightarrow> (Inl ''cannot retrieve properties of run, exactly one row expected'', w1)))"

definition GetAllRunsProperties ::
  "('w, 'f, 'd) session \<Rightarrow> string \<Rightarrow> string list \<Rightarrow> 'w \<Rightarrow> (goerr + ('f, 'd) row list) \<times> 'w" where
  "GetAllRunsProperties S keyspace fieldNames =
     rows_of S ''cannot get runs''
       (Select TableNameRunProperties fieldNames (Keyspace keyspace NewQB :: ('f, 'd) query_builder))"

definition WriteRunProperties ::
  "('w, 'f, 'd) session \<Rightarrow> (('f, 'd) gval \<Rightarrow> string) \<Rightarrow> string \<Rightarrow> int \<Rightarrow> string list \<Rightarrow> string list \<Rightarrow> string \<Rightarrow>
     string \<Rightarrow> string \<Rightarrow> 'w \<Rightarrow> goerr option \<times> 'w" where
  "WriteRunProperties S fv keyspace runId startNodes affectedNodes scriptUrl scriptParamsUrl runDescription =
     exec S ''cannot write affected nodes''
       (InsertUnpreparedQuery TableNameRunProperties IfNotExistsLwt
         (Write fv ''run_description'' (VStr runDescription)
         (Write fv ''script_params_url'' (VStr scriptParamsUrl)
         (Write fv ''script_url'' (VStr scriptUrl)
         (Write fv ''affected_nodes'' (VStr (Join affectedNodes '',''))
         (Write fv ''start_nodes'' (VStr (Join startNodes '',''))
         (Write fv ''run_id'' (VInt16 runId)
         (Keyspace keyspace NewQB))))))))"

subsection \<open>The statuses of the nodes that a node depends on\<close>

definition add_status ::
  "string \<times> dep_node_run_status \<Rightarrow> (string \<times> dep_node_run_status list) list \<Rightarrow> (string \<times> dep_node_run_status list) list" where
  "add_status p m = AList.update (fst p) ((case map_of m (fst p) of None \<Rightarrow> [] | Some l \<Rightarrow> l) @ [snd p]) m"

definition run_statuses_of ::
  "int \<Rightarrow> node_event list \<Rightarrow> (int \<Rightarrow> int option) \<Rightarrow> (int \<Rightarrow> string list option) \<Rightarrow> int \<Rightarrow>
     (string \<times> dep_node_run_status) list" where
  "run_statuses_of currentRun events runStatus runNodes runId =
     map (\<lambda>(nodeName, nodeStatus).
            (nodeName, \<lparr>dn_RunId = runId, dn_RunIsCurrent = (runId = currentRun),
                        dn_RunStatus = (case runStatus runId of None \<Rightarrow> RunNone | Some st \<Rightarrow> st),
                        dn_NodeStatus = nodeStatus, dn_SortKey = ''''\<rparr>))
       (snd (FigureOutRunStatusAndAffectedNodesStatusesFromNodeEvents events runId
               (case runNodes runId of None \<Rightarrow> [] | Some ns \<Rightarrow> ns)))"

definition BuildDependencyNodeRunStatusMap ::
  "('w, 'f, 'd) session \<Rightarrow> wf_message \<Rightarrow> string list \<Rightarrow> 'w \<Rightarrow>
     (goerr + (string \<times> dep_node_run_status list) list) \<times> 'w" where
  "BuildDependencyNodeRunStatusMap S msg depNodeNames w =
     (case GetAllRunsProperties S (wm_DataKeyspace msg) [''run_id'', ''affected_nodes''] w of
        (Inl e, w1) \<Rightarrow> (Inl e, w1)
      | (Inr rows, w1) \<Rightarrow>
          (case MultipleRunsPropertiesToDependencies rows depNodeNames [''run_id'', ''affected_nodes''] of
             Inl e \<Rightarrow> (Inl e, w1)
           | Inr (depRunIds, runNodes) \<Rightarrow>
               (case GetRunHistory S (wm_DataKeyspace msg) depRunIds w1 of
                  (Inl e, w2) \<Rightarrow> (Inl e, w2)
                | (Inr rows, w2) \<Rightarrow>
                    (case RunHistoryRowsToEvents rows of
                       Inl e \<Rightarrow> (Inl e, w2)
                     | Inr runEvents \<Rightarrow>
                         (case GetNodeHistoryForRuns S (wm_DataKeyspace msg) depRunIds depNodeNames w2 of
                            (Inl e, w3) \<Rightarrow> (Inl e, w3)
                          | (Inr rows, w3) \<Rightarrow>
                              (case NodeHistoryRowsToEvents rows of
                                 Inl e \<Rightarrow> (Inl e, w3)
                               | Inr events \<Rightarrow>
                                   (Inr (fold add_status
                                      (concat (map (run_statuses_of (wm_RunId msg) events
                                        (RunHistoryEventsToRunStatusMap runEvents) runNodes) depRunIds)) []), w3)))))))"

subsection \<open>The counter of runs\<close>

definition counter_select :: "string \<Rightarrow> string" where
  "counter_select keyspace =
     Select TableNameRunCounter [''last_run''] (Keyspace keyspace NewQB :: (unit, unit) query_builder)"

definition counter_update :: "(('f, 'd) gval \<Rightarrow> string) \<Rightarrow> string \<Rightarrow> int \<Rightarrow> int \<Rightarrow> string" where
  "counter_update fv keyspace newRunId lastRunId =
     Update TableNameRunCounter
       (If_cond fv ''last_run'' ''='' (VInt64 lastRunId)
         (Cond fv ''ks'' ''='' (VStr keyspace) (Write fv ''last_run'' (VInt64 newRunId) (Keyspace keyspace NewQB))))"

definition int_of_gval :: "('f, 'd) gval option \<Rightarrow> int option" where
  "int_of_gval v =
     (case v of Some (VInt n) \<Rightarrow> Some n | Some (VInt8 n) \<Rightarrow> Some n | Some (VInt16 n) \<Rightarrow> Some n
      | Some (VInt32 n) \<Rightarrow> Some n | Some (VInt64 n) \<Rightarrow> Some n | _ \<Rightarrow> None)"

text \<open>The first half of an attempt reads the counter, the second sets it if it is still the same.\<close>

definition read_counter :: "('w, 'f, 'd) session \<Rightarrow> string \<Rightarrow> 'w \<Rightarrow> (goerr + int) \<times> 'w" where
  "read_counter S keyspace w =
     (case rows_of S ''cannot get run counter'' (counter_select keyspace) w of
        (Inl e, w1) \<Rightarrow> (Inl e, w1)
      | (Inr [r], w1) \<Rightarrow>
          (case int_of_gval (r ''last_run'') of
             None \<Rightarrow> (Inl ''cannot get run counter'', w1)
           | Some n \<Rightarrow> (if wrap64 (n + 1) > 2 ^ 15 - 1 then (Inl ''run counter exhausted'', w1) else (Inr n, w1)))
      | (Inr _, w1) \<Rightarrow> (Inl ''cannot get run counter, wrong number of rows'', w1))"

definition set_counter ::
  "('w, 'f, 'd) session \<Rightarrow> (('f, 'd) gval \<Rightarrow> string) \<Rightarrow> string \<Rightarrow> int \<Rightarrow> 'w \<Rightarrow> (goerr + int option) \<times> 'w" where
  "set_counter S fv keyspace lastRunId w =
     (let q = counter_update fv keyspace (wrap64 (lastRunId + 1)) lastRunId in
      case s_MapScanCAS S q w of
        (Inl e, w1) \<Rightarrow> (Inl (WrapDbErrorWithQuery ''cannot increment run counter'' q e), w1)
      | (Inr applied, w1) \<Rightarrow> (Inr (if applied then Some (wrap16 (wrap64 (lastRunId + 1))) else None), w1))"

fun counter_attempts ::
  "nat \<Rightarrow> ('w, 'f, 'd) session \<Rightarrow> (('f, 'd) gval \<Rightarrow> string) \<Rightarrow> string \<Rightarrow> 'w \<Rightarrow> (goerr + int) \<times> 'w" where
  "counter_attempts 0 S fv keyspace w = (Inl ''cannot increment run counter, too many attempts'', w)"
| "counter_attempts (Suc k) S fv keyspace w =
     (case read_counter S keyspace w of
        (Inl e, w1) \<Rightarrow> (Inl e, w1)
      | (Inr lastRunId, w1) \<Rightarrow>
          (case set_counter S fv keyspace lastRunId w1 of
             (Inl e, w2) \<Rightarrow> (Inl e, w2)
           | (Inr (Some newRunId), w2) \<Rightarrow> (Inr newRunId, w2)
           | (Inr None, w2) \<Rightarrow> counter_attempts k S fv keyspace w2))"

definition GetNextRunCounter ::
  "('w, 'f, 'd) session \<Rightarrow> (('f, 'd) gval \<Rightarrow> string) \<Rightarrow> string \<Rightarrow> 'w \<Rightarrow> (goerr + int) \<times> 'w" where
  "GetNextRunCounter S fv keyspace w = counter_attempts 100 S fv keyspace w"

subsection \<open>Concurrent callers get different runs\<close>

text \<open>
  What the database promises for the two queries on the counter, whose value in a world is \<open>cnt\<close>:
  the first reads it, the second sets it exactly if it is unchanged and says whether it did.
\<close>

definition counter_session ::
  "('w, 'f, 'd) session \<Rightarrow> (('f, 'd) gval \<Rightarrow> string) \<Rightarrow> string \<Rightarrow> ('w \<Rightarrow> int) \<Rightarrow> bool" where
  "counter_session S fv keyspace cnt \<longleftrightarrow>
     (\<forall>w. \<exists>r. s_SliceMap S (counter_select keyspace) w = (Inr [r], w) \<and> int_of_gval (r ''last_run'') = Some (cnt w)) \<and>
     (\<forall>w old. 0 \<le> old \<and> old < 2 ^ 15 - 1 \<longrightarrow>
        (\<exists>w'. s_MapScanCAS S (counter_update fv keyspace (old + 1) old) w = (Inr (cnt w = old), w') \<and>
              cnt w' = (if cnt w = old then old + 1 else cnt w)))"

text \<open>
  Callers of GetNextRunCounter, each between its two halves or outside of them: \<open>rc_read\<close> holds what a
  caller has read, \<open>rc_ids\<close> the ids handed out so far. Anything else may happen to the database that
  leaves the counter alone.
\<close>

record 'w run_clients =
  rc_world :: 'w
  rc_read :: "nat \<rightharpoonup> int"
  rc_ids :: "(nat \<times> int) list"

inductive rc_step ::
  "('w, 'f, 'd) session \<Rightarrow> (('f, 'd) gval \<Rightarrow> string) \<Rightarrow> string \<Rightarrow> ('w \<Rightarrow> int) \<Rightarrow> 'w run_clients \<Rightarrow> 'w run_clients \<Rightarrow> bool"
  for S fv keyspace cnt where
  rc_reads: "read_counter S keyspace (rc_world s) = (Inr v, w) \<Longrightarrow>
    rc_step S fv keyspace cnt s (s\<lparr>rc_world := w, rc_read := (rc_read s)(c \<mapsto> v)\<rparr>)"
| rc_wins: "rc_read s c = Some v \<Longrightarrow> set_counter S fv keyspace v (rc_world s) = (Inr (Some runId), w) \<Longrightarrow>
    rc_step S fv keyspace cnt s
      (s\<lparr>rc_world := w, rc_read := (rc_read s)(c := None), rc_ids := rc_ids s @ [(c, runId)]\<rparr>)"
| rc_loses: "rc_read s c = Some v \<Longrightarrow> set_counter S fv keyspace v (rc_world s) = (Inr None, w) \<Longrightarrow>
    rc_step S fv keyspace cnt s (s\<lparr>rc_world := w, rc_read := (rc_read s)(c := None)\<rparr>)"
| rc_other: "cnt w = cnt (rc_world s) \<Longrightarrow> rc_step S fv keyspace cnt s (s\<lparr>rc_world := w\<rparr>)"


inductive rc_reach ::
  "('w, 'f, 'd) session \<Rightarrow> (('f, 'd) gval \<Rightarrow> string) \<Rightarrow> string \<Rightarrow> ('w \<Rightarrow> int) \<Rightarrow> 'w \<Rightarrow> 'w run_clients \<Rightarrow> bool"
  for S fv keyspace cnt w0 where
  rc_init: "rc_reach S fv keyspace cnt w0 \<lparr>rc_world = w0, rc_read = Map.empty, rc_ids = []\<rparr>"
| rc_next: "rc_reach S fv keyspace cnt w0 s \<Longrightarrow> rc_step S fv keyspace cnt s s' \<Longrightarrow> rc_reach S fv keyspace cnt w0 s'"

lemma read_counter_value:
  assumes "counter_session S fv keyspace cnt" "in_range 16 (cnt w)"
  shows "read_counter S keyspace w = (if cnt w = 2 ^ 15 - 1 then Inl ''run counter exhausted'' else Inr (cnt w), w)"
proof -
  from assms(1) obtain r where r: "s_SliceMap S (counter_select keyspace) w = (Inr [r], w)"
    "int_of_gval (r ''last_run'') = Some (cnt w)" unfolding counter_session_def by blast
  have "wrap64 (cnt w + 1) = cnt w + 1" using assms(2) by (intro wrap_id) (simp_all add: in_range_def)
  then show ?thesis using r assms(2) by (auto simp: read_counter_def rows_of_def in_range_def)
qed

lemma set_counter_value:
  assumes "counter_session S fv keyspace cnt" "0 \<le> v" "v < 2 ^ 15 - 1"
  shows "\<exists>w'. set_counter S fv keyspace v w = (Inr (if cnt w = v then Some (v + 1) else None), w') \<and>
    cnt w' = (if cnt w = v then v + 1 else cnt w)"
proof -
  from assms obtain w' where w': "s_MapScanCAS S (counter_update fv keyspace (v + 1) v) w = (Inr (cnt w = v), w')"
    "cnt w' = (if cnt w = v then v + 1 else cnt w)" unfolding counter_session_def by blast
  have wrapped: "wrap64 (v + 1) = v + 1" "wrap16 (v + 1) = v + 1"
    using assms(2,3) by (intro wrap_id; simp add: in_range_def)+
  show ?thesis using w' unfolding set_counter_def Let_def wrapped by simp
qed

definition rc_inv :: "('w \<Rightarrow> int) \<Rightarrow> int \<Rightarrow> 'w run_clients \<Rightarrow> bool" where
  "rc_inv cnt n0 s \<longleftrightarrow>
     n0 \<le> cnt (rc_world s) \<and> cnt (rc_world s) \<le> 2 ^ 15 - 1 \<and>
     map snd (rc_ids s) = [n0 + 1..cnt (rc_world s)] \<and>
     (\<forall>c v. rc_read s c = Some v \<longrightarrow> 0 \<le> v \<and> v < 2 ^ 15 - 1)"

lemma rc_step_inv:
  assumes "counter_session S fv keyspace cnt" "0 \<le> n0" "rc_step S fv keyspace cnt s s'" "rc_inv cnt n0 s"
  shows "rc_inv cnt n0 s'"
  using assms(3)
proof cases
  case (rc_reads v w c)
  have "in_range 16 (cnt (rc_world s))" using assms(2,4) by (simp add: rc_inv_def in_range_def)
  then have "w = rc_world s" "v = cnt w" "v \<noteq> 2 ^ 15 - 1"
    using rc_reads(2) read_counter_value [OF assms(1), of "rc_world s"] by (auto split: if_splits)
  then show ?thesis using assms(2,4) rc_reads(1) by (auto simp: rc_inv_def)
next
  case (rc_wins c v runId w)
  have v: "0 \<le> v" "v < 2 ^ 15 - 1" using rc_wins(2) assms(4) unfolding rc_inv_def by blast+
  from set_counter_value [OF assms(1) v, of "rc_world s"] rc_wins(3)
  have won: "cnt (rc_world s) = v" "runId = v + 1" "cnt w = v + 1" by (auto split: if_splits)
  have "[n0 + 1..v] @ [v + 1] = [n0 + 1..v + 1]"
    using assms(4) won(1) upto_rec2 [of "n0 + 1" "v + 1"] by (simp add: rc_inv_def)
  then show ?thesis using assms(4) won v(2) unfolding rc_wins(1) by (auto simp: rc_inv_def)
next
  case (rc_loses c v w)
  have v: "0 \<le> v" "v < 2 ^ 15 - 1" using rc_loses(2) assms(4) unfolding rc_inv_def by blast+
  from set_counter_value [OF assms(1) v, of "rc_world s"] rc_loses(3)
  have "cnt w = cnt (rc_world s)" by (auto split: if_splits)
  then show ?thesis using assms(4) unfolding rc_loses(1) by (auto simp: rc_inv_def)
next
  case (rc_other w)
  then show ?thesis using assms(4) by (auto simp: rc_inv_def)
qed

lemma rc_reach_inv:
  assumes "counter_session S fv keyspace cnt" "0 \<le> cnt w0" "cnt w0 \<le> 2 ^ 15 - 1" "rc_reach S fv keyspace cnt w0 s"
  shows "rc_inv cnt (cnt w0) s"
  using assms(4)
proof (induction rule: rc_reach.induct)
  case rc_init
  show ?case using assms(2,3) by (simp add: rc_inv_def)
next
  case (rc_next s s')
  then show ?case using rc_step_inv [OF assms(1,2)] by blast
qed

text \<open>The halves are those of the loop: an attempt that wins is the call of GetNextRunCounter that returns.\<close>

lemma counter_attempts_alone:
  assumes "counter_session S fv keyspace cnt" "0 \<le> cnt w" "cnt w < 2 ^ 15 - 1"
  shows "\<exists>w'. GetNextRunCounter S fv keyspace w = (Inr (cnt w + 1), w') \<and> cnt w' = cnt w + 1"
proof -
  have "in_range 16 (cnt w)" using assms(2,3) by (simp add: in_range_def)
  then have r: "read_counter S keyspace w = (Inr (cnt w), w)" using read_counter_value [OF assms(1)] assms(3) by simp
  obtain w' where w': "set_counter S fv keyspace (cnt w) w = (Inr (Some (cnt w + 1)), w')" "cnt w' = cnt w + 1"
    using set_counter_value [OF assms, of w] by auto
  have "counter_attempts (Suc 99) S fv keyspace w = (Inr (cnt w + 1), w')"
    unfolding counter_attempts.simps using r w'(1) by simp
  then show ?thesis using w'(2) unfolding GetNextRunCounter_def by (simp add: eval_nat_numeral)
qed


text \<open>A database that is only the counter, and tells a compare-and-set by its text.\<close>

definition no_format :: "(unit, unit) gval \<Rightarrow> string" where "no_format v = ''''"

definition counter_db :: "(nat, unit, unit) session" where
  "counter_db = \<lparr>s_Exec = (\<lambda>q w. (None, w)),
     s_SliceMap = (\<lambda>q w. (Inr [[''last_run'' \<mapsto> VInt (int w)]], w)),
     s_MapScanCAS = (\<lambda>q w. if w < 2 ^ 15 - 1 \<and> q = counter_update no_format ''ks'' (int w + 1) (int w)
       then (Inr True, w + 1) else (Inr False, w))\<rparr>"

lemma counter_update_text:
  "counter_update fv ''ks'' n old = ''UPDATE ks.wf_run_counter SET last_run = '' @ int_str n @
     '' WHERE ks = '' @ quote @ escape_quotes ''ks'' @ quote @ '' IF last_run = '' @ int_str old"
proof -
  have t: "TrimSpace ''ks'' = ''ks''" by code_simp
  show ?thesis
    by (simp add: counter_update_def Update_def UpdateRun_def TableNameRunCounter_def If_cond_def Cond_def Write_def
        Keyspace_def NewQB_def t addSimple_def column_data_add_def valueToString_def default_str_def RunIdSuffix_def)
qed

lemma int_str_nonneg:
  assumes "0 \<le> n"
  shows "CHR '' '' \<notin> set (int_str n)"
proof -
  have "list_all is_digit (nat_str (nat n))" using nat_str_digits by blast
  then show ?thesis using assms by (auto simp: int_str_def list_all_iff is_digit_def)
qed

lemma counter_update_inj:
  assumes "0 \<le> m" "m < 2 ^ 15" "0 \<le> n" "n < 2 ^ 15" "counter_update fv ''ks'' m old = counter_update fv ''ks'' n old'"
  shows "m = n"
proof -
  have "takeWhile (\<lambda>c. c \<noteq> CHR '' '') (int_str k @ CHR '' '' # t) = int_str k" if "0 \<le> k" for k t
    using int_str_nonneg [OF that] by (subst takeWhile_append2) auto
  moreover have "int_str m @ CHR '' '' # (''WHERE ks = '' @ quote @ escape_quotes ''ks'' @ quote @ '' IF last_run = '' @ int_str old) =
      int_str n @ CHR '' '' # (''WHERE ks = '' @ quote @ escape_quotes ''ks'' @ quote @ '' IF last_run = '' @ int_str old')"
    using assms(5) unfolding counter_update_text same_append_eq by simp
  ultimately have "int_str m = int_str n" using assms(1,3) by metis
  moreover have "in_range 64 m" "in_range 64 n" using assms(1-4) by (simp_all add: in_range_def)
  ultimately show ?thesis using ParseInt_int_str by (metis fst_conv)
qed

lemma counter_db_session: "counter_session counter_db no_format ''ks'' int"
  unfolding counter_session_def
proof (intro conjI allI impI)
  fix w :: nat
  show "\<exists>r. s_SliceMap counter_db (counter_select ''ks'') w = (Inr [r], w) \<and> int_of_gval (r ''last_run'') = Some (int w)"
    by (simp add: counter_db_def int_of_gval_def)
next
  fix w :: nat and old :: int
  assume old: "0 \<le> old \<and> old < 2 ^ 15 - 1"
  have "int w = old" if "counter_update no_format ''ks'' (old + 1) old = counter_update no_format ''ks'' (int w + 1) (int w)" "w < 2 ^ 15 - 1"
    using counter_update_inj [OF _ _ _ _ that(1)] old that(2) by simp
  then show "\<exists>w'. s_MapScanCAS counter_db (counter_update no_format ''ks'' (old + 1) old) w = (Inr (int w = old), w') \<and>
      int w' = (if int w = old then old + 1 else int w)"
    using old by (auto simp: counter_db_def)
qed


end
