(* ===== verification/Handler.thy ===== *)
theory Handler
  imports Script_Def Wfdb
begin

text \<open>
  The handler of batch messages (pkg/api/message_handler.go): the checks of the run, of the batch and
  of the nodes it depends on, the marks it leaves in the histories, and the processing of the batch.
  A state is the world of the database together with a journal of what the handler read and did,
  which no decision looks at. Connecting, loading the script, the processing and the clean-up of
  a batch (pkg/proc), the clock and the cache of decisions are the record \<open>handler_env\<close>.
\<close>

datatype acknowledger = AcknowledgerCmdAck | AcknowledgerCmdRetry
datatype further_cmd = FurtherProcessingProceed | FurtherProcessingAck | FurtherProcessingRetry
datatype batch_scenario = FurtherProcessingBatchNone | FurtherProcessingBatchClean | FurtherProcessingBatchWasAbadoned
datatype script_problem = ScriptInitUrlProblem | ScriptInitContentProblem | ScriptInitConnectivityProblem | ScriptInitOtherProblem int

text \<open>What the journal records; the flags say whether a write or the processing succeeded.\<close>

datatype act =
    ReadRunStatus int
  | ReadBatchStatus int gotime
  | CheckedDependencies node_cmd
  | WroteBatch int bool
  | WroteNode int bool
  | WroteRun int bool
  | DeletedLeftovers bool
  | ProcessedBatch bool

record 'w hstate =
  hs_world :: 'w
  hs_journal :: "act list"

text \<open>The cached decision: what Sscanf makes of the cached text.\<close>

type_synonym cached = "string \<times> int \<times> int \<times> int \<times> int"

record ('w, 'f, 'd) handler_env =
  he_session :: "('w, 'f, 'd) session"
  he_fv :: "('f, 'd) gval \<Rightarrow> string"
  he_worker :: worker
  he_noConnections :: string
  he_lang :: "('f, 'd) lang"
  he_fmt32 :: "'f \<Rightarrow> string"
  he_unaccent :: "string \<Rightarrow> string"
  he_upper :: "string \<Rightarrow> string"
  he_DbConnect :: "'w \<Rightarrow> goerr option \<times> 'w"
  he_NewScriptFromFiles :: "string \<Rightarrow> string \<Rightarrow> 'w \<Rightarrow> (script_problem + script_def) \<times> 'w"
  he_Process :: "wf_message \<Rightarrow> script_node \<Rightarrow> int \<Rightarrow> int \<Rightarrow> 'w \<Rightarrow> (goerr + string) \<times> 'w"
  he_DeleteData :: "wf_message \<Rightarrow> script_node \<Rightarrow> 'w \<Rightarrow> goerr option \<times> 'w"
  he_Now :: "'w \<Rightarrow> gotime"
  he_CacheGet :: "(string \<Rightarrow> 'w \<Rightarrow> (goerr + cached) option) option"
  he_CacheAdd :: "string \<Rightarrow> cached \<Rightarrow> 'w \<Rightarrow> 'w"
  he_CacheRemove :: "string \<Rightarrow> 'w \<Rightarrow> 'w"

text \<open>A call on the world, one that the journal records, and a note in the journal.\<close>

definition on_world :: "('w \<Rightarrow> 'a \<times> 'w) \<Rightarrow> 'w hstate \<Rightarrow> 'a \<times> 'w hstate" where
  "on_world f s = (case f (hs_world s) of (r, w) \<Rightarrow> (r, s\<lparr>hs_world := w\<rparr>))"

definition recorded :: "('a \<Rightarrow> act) \<Rightarrow> ('w \<Rightarrow> 'a \<times> 'w) \<Rightarrow> 'w hstate \<Rightarrow> 'a \<times> 'w hstate" where
  "recorded a f s = (case f (hs_world s) of (r, w) \<Rightarrow> (r, \<lparr>hs_world = w, hs_journal = hs_journal s @ [a r]\<rparr>))"

definition noted_act :: "act \<Rightarrow> 'w hstate \<Rightarrow> 'w hstate" where
  "noted_act a s = s\<lparr>hs_journal := hs_journal s @ [a]\<rparr>"

definition conn_error :: "('w, 'f, 'd) handler_env \<Rightarrow> goerr option \<Rightarrow> bool" where
  "conn_error H e = (case e of None \<Rightarrow> False | Some e \<Rightarrow> IsDbConnError (he_noConnections H) e)"

definition set_batch :: "('w, 'f, 'd) handler_env \<Rightarrow> wf_message \<Rightarrow> int \<Rightarrow> string \<Rightarrow> 'w hstate \<Rightarrow> goerr option \<times> 'w hstate" where
  "set_batch H msg status comment =
     recorded (\<lambda>e. WroteBatch status (e = None)) (SetBatchStatus (he_session H) (he_fv H) (he_worker H) msg status comment)"

definition set_node :: "('w, 'f, 'd) handler_env \<Rightarrow> wf_message \<Rightarrow> int \<Rightarrow> string \<Rightarrow> 'w hstate \<Rightarrow> goerr option \<times> 'w hstate" where
  "set_node H msg status comment =
     recorded (\<lambda>e. WroteNode status (e = None)) (SetNodeStatus (he_session H) (he_fv H) msg status comment)"

definition set_run :: "('w, 'f, 'd) handler_env \<Rightarrow> wf_message \<Rightarrow> int \<Rightarrow> string \<Rightarrow> 'w hstate \<Rightarrow> goerr option \<times> 'w hstate" where
  "set_run H msg status comment =
     recorded (\<lambda>e. WroteRun status (e = None))
       (SetRunStatus (he_session H) (he_fv H) (wm_DataKeyspace msg) (wm_RunId msg) status comment)"

subsection \<open>Node and run statuses\<close>

definition updateNodeStatusFromBatches ::
  "('w, 'f, 'd) handler_env \<Rightarrow> wf_message \<Rightarrow> 'w hstate \<Rightarrow> (goerr + int) \<times> 'w hstate" where
  "updateNodeStatusFromBatches H msg s =
     (let names = [''batch_idx'', ''batches_total'', ''status''] in
      case on_world (GetAllBatchHistoryForRunAndNode (he_session H) (he_fv H) (wm_DataKeyspace msg) (wm_RunId msg)
                       (wm_TargetNodeName msg) names) s of
        (Inl e, s1) \<Rightarrow> (Inl e, s1)
      | (Inr rows, s1) \<Rightarrow>
          (case AllBatchHistoryRowsToNodeStatus rows names of
             Inl e \<Rightarrow> (Inl e, s1)
           | Inr (status, inProgress, batchesTotal) \<Rightarrow>
               (if status = NodeBatchFail \<or> status = NodeBatchSuccess \<or> status = NodeBatchRunStopReceived then
                  (case set_node H msg status
                          (if status = NodeBatchSuccess then ''marked completed - all batches ok''
                           else if status = NodeBatchFail then ''marked completed with some failed batches - check batch history''
                           else ''run was stopped, check run and batch history'') s1 of
                     (Some e, s2) \<Rightarrow>
                       (if Contains e ErrorCannotUpsertDuplicate then (Inr NodeBatchNone, s2) else (Inl e, s2))
                   | (None, s2) \<Rightarrow> (Inr status, s2))
                else (Inr status, s1))))"

definition updateRunStatusFromNodes ::
  "('w, 'f, 'd) handler_env \<Rightarrow> wf_message \<Rightarrow> 'w hstate \<Rightarrow> goerr option \<times> 'w hstate" where
  "updateRunStatusFromNodes H msg s =
     (let names = [''run_id'', ''affected_nodes'']; ks = wm_DataKeyspace msg; run = wm_RunId msg in
      case on_world (GetRunProperties (he_session H) (he_fv H) ks run names) s of
        (Inl e, s1) \<Rightarrow> (Some e, s1)
      | (Inr r, s1) \<Rightarrow>
          (case NewRunPropertiesFromMap r names of
             Inl e \<Rightarrow> (Some e, s1)
           | Inr props \<Rightarrow>
               (let affected = Split (rp_AffectedNodes props) (CHR '','') in
                case on_world (GetNodeHistoryForRuns (he_session H) ks [run] affected) s1 of
                  (Inl e, s2) \<Rightarrow> (Some e, s2)
                | (Inr rows, s2) \<Rightarrow>
                    (case NodeHistoryRowsToEvents rows of
                       Inl e \<Rightarrow> (Some e, s2)
                     | Inr events \<Rightarrow>
                         (case FigureOutRunStatusAndAffectedNodesStatusesFromNodeEvents events run affected of
                            (combined, _) \<Rightarrow>
                              (if combined = NodeBatchSuccess \<or> combined = NodeBatchFail
                               then set_run H msg RunComplete ''statuses of the affected nodes'' s2
                               else (None, s2)))))))"

definition refreshNodeAndRunStatus ::
  "('w, 'f, 'd) handler_env \<Rightarrow> wf_message \<Rightarrow> 'w hstate \<Rightarrow> goerr option \<times> 'w hstate" where
  "refreshNodeAndRunStatus H msg s =
     (case updateNodeStatusFromBatches H msg s of
        (Inl e, s1) \<Rightarrow> (Some e, s1)
      | (Inr _, s1) \<Rightarrow> updateRunStatusFromNodes H msg s1)"

subsection \<open>Checks\<close>

definition initCtxScript ::
  "('w, 'f, 'd) handler_env \<Rightarrow> wf_message \<Rightarrow> 'w hstate \<Rightarrow> (further_cmd + script_def) \<times> 'w hstate" where
  "initCtxScript H msg s =
     (case on_world (he_NewScriptFromFiles H (wm_ScriptURL msg) (wm_ScriptParamsURL msg)) s of
        (Inr script, s1) \<Rightarrow> (Inr script, s1)
      | (Inl p, s1) \<Rightarrow>
          (Inl (case p of ScriptInitUrlProblem \<Rightarrow> FurtherProcessingAck | ScriptInitContentProblem \<Rightarrow> FurtherProcessingAck
                | ScriptInitConnectivityProblem \<Rightarrow> FurtherProcessingRetry | ScriptInitOtherProblem _ \<Rightarrow> FurtherProcessingRetry), s1))"

definition checkRunStatus ::
  "('w, 'f, 'd) handler_env \<Rightarrow> wf_message \<Rightarrow> int \<Rightarrow> 'w hstate \<Rightarrow> further_cmd \<times> 'w hstate" where
  "checkRunStatus H msg runStatus s =
     (if runStatus = RunNone then
        (case set_batch H msg NodeBatchFail ''run history status for batch is empty, looks like this run was never started'' s of
           (e, s1) \<Rightarrow>
             (if conn_error H e then (FurtherProcessingRetry, s1)
              else (case refreshNodeAndRunStatus H msg s1 of
                      (e2, s2) \<Rightarrow> (if conn_error H e2 then FurtherProcessingRetry else FurtherProcessingAck, s2))))
      else if runStatus = RunStop then
        (case set_batch H msg NodeBatchRunStopReceived ''run stopped'' s of
           (Some e, s1) \<Rightarrow> (if conn_error H (Some e) then FurtherProcessingRetry else FurtherProcessingAck, s1)
         | (None, s1) \<Rightarrow>
             (case refreshNodeAndRunStatus H msg s1 of
                (e2, s2) \<Rightarrow> (if conn_error H e2 then FurtherProcessingRetry else FurtherProcessingAck, s2)))
      else if runStatus = RunStart then (FurtherProcessingProceed, s)
      else (FurtherProcessingAck, s))"

text \<open>Times are nanoseconds; the policy gives the time to wait in milliseconds.\<close>

definition checkLastBatchStatus ::
  "('w, 'f, 'd) handler_env \<Rightarrow> wf_message \<Rightarrow> script_node \<Rightarrow> int \<Rightarrow> gotime \<Rightarrow> 'w hstate \<Rightarrow>
     (further_cmd \<times> batch_scenario) \<times> 'w hstate" where
  "checkLastBatchStatus H msg node lastBatchStatus lastBatchTs s =
     (if lastBatchStatus = NodeBatchFail \<or> lastBatchStatus = NodeBatchSuccess then
        (case refreshNodeAndRunStatus H msg s of
           (e, s1) \<Rightarrow> ((if conn_error H e then FurtherProcessingRetry else FurtherProcessingAck, FurtherProcessingBatchNone), s1))
      else if lastBatchStatus = NodeBatchStart then
        (if sn_RerunPolicy node = NodeRerun then
           (if lastBatchTs + wrap64 (sn_MaxBatchProcessingTime node * 1000000) - he_Now H (hs_world s) > 0
            then ((FurtherProcessingRetry, FurtherProcessingBatchNone), s)
            else ((FurtherProcessingProceed, FurtherProcessingBatchWasAbadoned), s))
         else ((FurtherProcessingAck, FurtherProcessingBatchWasAbadoned), s))
      else if lastBatchStatus = NodeBatchRunStopReceived then ((FurtherProcessingAck, FurtherProcessingBatchNone), s)
      else if lastBatchStatus = NodeBatchNone then ((FurtherProcessingProceed, FurtherProcessingBatchClean), s)
      else ((FurtherProcessingAck, FurtherProcessingBatchNone), s))"

text \<open>The final command of one or two dependencies.\<close>

definition combine_cmds :: "node_cmd \<Rightarrow> node_cmd option \<Rightarrow> node_cmd" where
  "combine_cmds reader lkp =
     (case lkp of
        None \<Rightarrow> reader
      | Some l \<Rightarrow> (if reader = NodeNogo \<or> l = NodeNogo then NodeNogo
                   else if reader = NodeWait \<or> l = NodeWait then NodeWait else NodeGo))"

definition dependency_names :: "script_def \<Rightarrow> script_node \<Rightarrow> goerr + string list" where
  "dependency_names script node =
     bindr (if HasTableReader node then
              (case map_of (sd_TableCreatorNodeMap script) (trd_TableName (sn_TableReader node)) of
                 None \<Rightarrow> Inl ''cannot find the node that creates reader table''
               | Some n \<Rightarrow> Inr [n])
            else Inr [])
       (\<lambda>names.
          if HasLookup node then
            (case lookup_creator (sd_ScriptNodes script) node of
               None \<Rightarrow> Inl ''panic: nil pointer dereference''
             | Some tc \<Rightarrow>
                 (case map_of (sd_TableCreatorNodeMap script) (tc_Name tc) of
                    None \<Rightarrow> Inl ''cannot find the node that creates lookup table''
                  | Some n \<Rightarrow> Inr (names @ [n])))
          else Inr names)"

text \<open>The decision for one dependency: its command, run and rule.\<close>

definition check_dependency ::
  "('w, 'f, 'd) handler_env \<Rightarrow> script_node \<Rightarrow> (string \<times> dep_node_run_status list) list \<Rightarrow> string \<Rightarrow>
     goerr + node_cmd \<times> int \<times> int" where
  "check_dependency H node statuses depNodeName =
     (case map_of statuses depNodeName of
        None \<Rightarrow> Inl ''dep node not started yet''
      | Some [] \<Rightarrow> Inl ''dep node not started yet''
      | Some events \<Rightarrow>
          (case sn_DepPolDef node of
             None \<Rightarrow> Inl ''panic: nil pointer dereference''
           | Some pol \<Rightarrow>
               (case CheckDependencyPolicyAgainstNodeEventList (he_lang H) (he_fmt32 H) (he_unaccent H) (he_upper H) pol events of
                  (_, _, _, Some e) \<Rightarrow> Inl (''cannot check dependencies for dependency node: '' @ e)
                | (cmd, run, i, None) \<Rightarrow> Inr (cmd, run, i))))"

type_synonym readyness = "node_cmd \<times> int \<times> int \<times> int \<times> int"

definition combine_dependencies :: "(node_cmd \<times> int \<times> int) list \<Rightarrow> readyness" where
  "combine_dependencies ds =
     (case ds of
        [(c, r, i)] \<Rightarrow> (combine_cmds c None, r, 0, i, -1)
      | (c, r, i) # (c2, r2, i2) # _ \<Rightarrow> (combine_cmds c (Some c2), r, r2, i, i2)
      | [] \<Rightarrow> (NodeGo, 0, 0, -1, -1))"

definition node_cmd_str :: "node_cmd \<Rightarrow> string" where
  "node_cmd_str c = (case c of NodeNone \<Rightarrow> ''none'' | NodeGo \<Rightarrow> ''go'' | NodeWait \<Rightarrow> ''wait'' | NodeNogo \<Rightarrow> ''nogo''
                     | NodeCmdOther t \<Rightarrow> t)"

definition cached_readyness :: "('w, 'f, 'd) handler_env \<Rightarrow> string \<Rightarrow> 'w hstate \<Rightarrow> readyness option \<times> 'w hstate" where
  "cached_readyness H key s =
     (case he_CacheGet H of
        None \<Rightarrow> (None, s)
      | Some get \<Rightarrow>
          (case get key (hs_world s) of
             None \<Rightarrow> (None, s)
           | Some (Inl e) \<Rightarrow> (None, s\<lparr>hs_world := he_CacheRemove H key (hs_world s)\<rparr>)
           | Some (Inr (c, rest)) \<Rightarrow>
               (case ReadyToRunNodeCmdTypeFromString c of
                  Inl e \<Rightarrow> (None, s\<lparr>hs_world := he_CacheRemove H key (hs_world s)\<rparr>)
                | Inr cmd \<Rightarrow> (Some (cmd, rest), s))))"

definition checkDependencyNodesReady ::
  "('w, 'f, 'd) handler_env \<Rightarrow> wf_message \<Rightarrow> script_def \<Rightarrow> script_node \<Rightarrow> 'w hstate \<Rightarrow> (goerr + readyness) \<times> 'w hstate" where
  "checkDependencyNodesReady H msg script node s =
     (case cached_readyness H (FullNodeId msg) s of
        (Some r, s1) \<Rightarrow> (Inr r, s1)
      | (None, s1) \<Rightarrow>
          (case dependency_names script node of
             Inl e \<Rightarrow> (Inl e, s1)
           | Inr [] \<Rightarrow> (Inr (NodeGo, 0, 0, -1, -1), s1)
           | Inr names \<Rightarrow>
               (case on_world (BuildDependencyNodeRunStatusMap (he_session H) msg names) s1 of
                  (Inl e, s2) \<Rightarrow> (Inl e, s2)
                | (Inr statuses, s2) \<Rightarrow>
                    (case mapr (check_dependency H node statuses) names of
                       Inl e \<Rightarrow> (Inl e, s2)
                     | Inr ds \<Rightarrow>
                         (let r = combine_dependencies ds in
                          (Inr r,
                           (case he_CacheGet H of
                              None \<Rightarrow> s2
                            | Some _ \<Rightarrow> s2\<lparr>hs_world := he_CacheAdd H (FullNodeId msg) (node_cmd_str (fst r), snd r) (hs_world s2)\<rparr>)))))))"

definition checkDependencyNogoOrWait ::
  "('w, 'f, 'd) handler_env \<Rightarrow> wf_message \<Rightarrow> node_cmd \<Rightarrow> 'w hstate \<Rightarrow> further_cmd \<times> 'w hstate" where
  "checkDependencyNogoOrWait H msg nodeReady s =
     (if nodeReady = NodeNogo then
        (case set_batch H msg NodeBatchFail ''nogo, some dependency nodes are in bad state'' s of
           (Some e, s1) \<Rightarrow> (if conn_error H (Some e) then FurtherProcessingRetry else FurtherProcessingAck, s1)
         | (None, s1) \<Rightarrow>
             (case refreshNodeAndRunStatus H msg s1 of
                (e2, s2) \<Rightarrow> (if conn_error H e2 then FurtherProcessingRetry else FurtherProcessingAck, s2)))
      else if nodeReady = NodeWait then (FurtherProcessingRetry, s)
      else (FurtherProcessingProceed, s))"

subsection \<open>The handler\<close>

text \<open>A stage ends the handling with an acknowledgement (Inl) or hands a value on (Inr).\<close>

type_synonym ('w, 'a) stage = "'w hstate \<Rightarrow> (acknowledger + 'a) \<times> 'w hstate"

definition retry_or_ack :: "('w, 'f, 'd) handler_env \<Rightarrow> goerr option \<Rightarrow> acknowledger" where
  "retry_or_ack H e = (if conn_error H e then AcknowledgerCmdRetry else AcknowledgerCmdAck)"

definition andThen :: "('w, 'a) stage \<Rightarrow> ('a \<Rightarrow> ('w, 'b) stage) \<Rightarrow> ('w, 'b) stage" where
  "andThen f g s = (case f s of (Inl c, s1) \<Rightarrow> (Inl c, s1) | (Inr x, s1) \<Rightarrow> g x s1)"

definition obey :: "further_cmd \<Rightarrow> 'a \<Rightarrow> acknowledger + 'a" where
  "obey cmd x = (case cmd of FurtherProcessingRetry \<Rightarrow> Inl AcknowledgerCmdRetry
                 | FurtherProcessingAck \<Rightarrow> Inl AcknowledgerCmdAck | FurtherProcessingProceed \<Rightarrow> Inr x)"

definition run_stage :: "('w, 'f, 'd) handler_env \<Rightarrow> wf_message \<Rightarrow> ('w, unit) stage" where
  "run_stage H msg s =
     (case on_world (he_DbConnect H) s of
        (Some e, s1) \<Rightarrow> (Inl AcknowledgerCmdRetry, s1)
      | (None, s1) \<Rightarrow>
          (case on_world (GetRunStatusRows (he_session H) (he_fv H) (wm_DataKeyspace msg) (wm_RunId msg)) s1 of
             (Inl e, s2) \<Rightarrow> (Inl (retry_or_ack H (Some e)), s2)
           | (Inr rows, s2) \<Rightarrow>
               (case RunHistoryRowsToStatus rows of
                  Inl e \<Rightarrow> (Inl AcknowledgerCmdAck, s2)
                | Inr st \<Rightarrow>
                    (case checkRunStatus H msg st (noted_act (ReadRunStatus st) s2) of (c, s3) \<Rightarrow> (obey c (), s3)))))"

definition node_stage :: "('w, 'f, 'd) handler_env \<Rightarrow> wf_message \<Rightarrow> ('w, script_def \<times> script_node) stage" where
  "node_stage H msg s =
     (case initCtxScript H msg s of
        (Inl c, s1) \<Rightarrow> (Inl (if c = FurtherProcessingRetry then AcknowledgerCmdRetry else AcknowledgerCmdAck), s1)
      | (Inr script, s1) \<Rightarrow>
          (case map_of (sd_ScriptNodes script) (wm_TargetNodeName msg) of
             None \<Rightarrow> (Inl AcknowledgerCmdAck, s1)
           | Some node \<Rightarrow> (Inr (script, node), s1)))"

text \<open>An abandoned batch that must not run again is marked as failed.\<close>

definition fail_abandoned :: "('w, 'f, 'd) handler_env \<Rightarrow> wf_message \<Rightarrow> 'w hstate \<Rightarrow> acknowledger \<times> 'w hstate" where
  "fail_abandoned H msg s =
     (case set_batch H msg NodeBatchFail ''not processing this abandoned batch, check re-run policy for this script node'' s of
        (e, s1) \<Rightarrow>
          (if conn_error H e then (AcknowledgerCmdRetry, s1)
           else if (case e of None \<Rightarrow> False | Some e \<Rightarrow> \<not> Contains e ErrorCannotUpsertDuplicate) then (AcknowledgerCmdAck, s1)
           else (case refreshNodeAndRunStatus H msg s1 of (e2, s2) \<Rightarrow> (retry_or_ack H e2, s2))))"

definition clean_abandoned :: "('w, 'f, 'd) handler_env \<Rightarrow> wf_message \<Rightarrow> script_node \<Rightarrow> ('w, unit) stage" where
  "clean_abandoned H msg node s =
     (case recorded (\<lambda>e. DeletedLeftovers (e = None)) (he_DeleteData H msg node) s of
        (None, s1) \<Rightarrow> (Inr (), s1)
      | (Some e, s1) \<Rightarrow>
          (if conn_error H (Some e) then (Inl AcknowledgerCmdRetry, s1)
           else (case set_batch H msg NodeBatchFail ''cannot clean up leftovers of the previous processing'' s1 of
                   (_, s2) \<Rightarrow> (Inl AcknowledgerCmdAck, s2))))"

definition batch_stage :: "('w, 'f, 'd) handler_env \<Rightarrow> wf_message \<Rightarrow> script_node \<Rightarrow> ('w, batch_scenario) stage" where
  "batch_stage H msg node s =
     (let names = [''ts'', ''status''] in
      case on_world (GetSingleBatchStatusRows (he_session H) (he_fv H) (wm_DataKeyspace msg) (wm_RunId msg)
             (wm_TargetNodeName msg) (wm_BatchIdx msg) names) s of
        (Inl e, s1) \<Rightarrow> (Inl (retry_or_ack H (Some e)), s1)
      | (Inr rows, s1) \<Rightarrow>
          (case SingleBatchHistoryRowsToLastBatchStatus rows names of
             Inl e \<Rightarrow> (Inl AcknowledgerCmdAck, s1)
           | Inr (st, ts) \<Rightarrow>
               (case checkLastBatchStatus H msg node st ts (noted_act (ReadBatchStatus st ts) s1) of
                  ((FurtherProcessingRetry, _), s2) \<Rightarrow> (Inl AcknowledgerCmdRetry, s2)
                | ((FurtherProcessingAck, scenario), s2) \<Rightarrow>
                    (if scenario = FurtherProcessingBatchWasAbadoned
                     then (case fail_abandoned H msg s2 of (c, s3) \<Rightarrow> (Inl c, s3))
                     else (Inl AcknowledgerCmdAck, s2))
                | ((FurtherProcessingProceed, scenario), s2) \<Rightarrow>
                    (if scenario = FurtherProcessingBatchWasAbadoned
                     then andThen (clean_abandoned H msg node) (\<lambda>_ s3. (Inr scenario, s3)) s2
                     else (Inr scenario, s2)))))"

definition dependency_stage ::
  "('w, 'f, 'd) handler_env \<Rightarrow> wf_message \<Rightarrow> script_def \<Rightarrow> script_node \<Rightarrow> ('w, readyness) stage" where
  "dependency_stage H msg script node s =
     (case checkDependencyNodesReady H msg script node s of
        (Inl e, s1) \<Rightarrow> (Inl (retry_or_ack H (Some e)), s1)
      | (Inr r, s1) \<Rightarrow>
          (let s2 = noted_act (CheckedDependencies (fst r)) s1 in
           if fst r \<in> set [NodeNone, NodeWait, NodeGo, NodeNogo]
           then (case checkDependencyNogoOrWait H msg (fst r) s2 of (c, s3) \<Rightarrow> (obey c r, s3))
           else (Inl AcknowledgerCmdAck, s2)))"

text \<open>An error is fatal unless it says that the row is already there.\<close>

definition fatal :: "goerr option \<Rightarrow> bool" where
  "fatal e = (case e of None \<Rightarrow> False | Some e \<Rightarrow> \<not> Contains e ErrorCannotUpsertDuplicate)"

definition start_stage :: "('w, 'f, 'd) handler_env \<Rightarrow> wf_message \<Rightarrow> batch_scenario \<Rightarrow> ('w, unit) stage" where
  "start_stage H msg scenario s =
     (case set_node H msg NodeBatchStart ''marked started'' s of
        (e, s1) \<Rightarrow>
          (if conn_error H e then (Inl AcknowledgerCmdRetry, s1)
           else if fatal e then (Inl AcknowledgerCmdAck, s1)
           else (case set_batch H msg NodeBatchStart '''' s1 of
                   (None, s2) \<Rightarrow> (Inr (), s2)
                 | (Some e, s2) \<Rightarrow>
                     (if conn_error H (Some e) then (Inl AcknowledgerCmdRetry, s2)
                      else if fatal (Some e) then (Inl AcknowledgerCmdAck, s2)
                      else if scenario \<noteq> FurtherProcessingBatchWasAbadoned
                      then (case set_batch H msg NodeBatchFail ''unexpected: got a duplicate error, but the batch was not abandoned'' s2 of
                              (_, s3) \<Rightarrow> (Inl AcknowledgerCmdAck, s3))
                      else (Inr (), s2)))))"

text \<open>The processor for the type of the node; the processors are a parameter.\<close>

definition CallAppropriateProcessorForBatch ::
  "('w, 'f, 'd) handler_env \<Rightarrow> wf_message \<Rightarrow> script_node \<Rightarrow> int \<Rightarrow> int \<Rightarrow> 'w \<Rightarrow> (goerr + int \<times> string) \<times> 'w" where
  "CallAppropriateProcessorForBatch H msg node readerRun lookupRun w =
     (case (if sn_Type node = NodeTypeFileTable \<and>
               (wm_FirstToken msg \<noteq> wm_LastToken msg \<or> wm_FirstToken msg < 0 \<or>
                wm_FirstToken msg \<ge> int (length (frd_SrcFileUrls (sn_FileReader node))))
            then (Inl ''startToken must equal endToken and must be smaller than the number of files'', w)
            else if ValidateNodeType (sn_Type node) \<noteq> None then (Inl ''unsupported node type'', w)
            else he_Process H msg node readerRun lookupRun w) of
        (Inl e, w1) \<Rightarrow> (Inl (''error running node: ['' @ e @ '']''), w1)
      | (Inr stats, w1) \<Rightarrow> (Inr (NodeBatchSuccess, stats), w1))"

definition process_stage ::
  "('w, 'f, 'd) handler_env \<Rightarrow> wf_message \<Rightarrow> script_node \<Rightarrow> readyness \<Rightarrow> 'w hstate \<Rightarrow> acknowledger \<times> 'w hstate" where
  "process_stage H msg node r s =
     (case r of (_, readerRun, lookupRun, _, _) \<Rightarrow>
      (case recorded (\<lambda>r. ProcessedBatch (case r of Inl _ \<Rightarrow> False | Inr _ \<Rightarrow> True))
              (CallAppropriateProcessorForBatch H msg node readerRun lookupRun) s of
         (res, s1) \<Rightarrow>
           (if (case res of Inl e \<Rightarrow> conn_error H (Some e) | Inr _ \<Rightarrow> False) then (AcknowledgerCmdRetry, s1)
            else (case (case res of Inl e \<Rightarrow> set_batch H msg NodeBatchFail e s1
                        | Inr (st, stats) \<Rightarrow> set_batch H msg st stats s1) of
                    (Some e, s2) \<Rightarrow> (retry_or_ack H (Some e), s2)
                  | (None, s2) \<Rightarrow>
                      (case refreshNodeAndRunStatus H msg s2 of (e2, s3) \<Rightarrow> (retry_or_ack H e2, s3))))))"

definition ProcessDataBatchMsg :: "('w, 'f, 'd) handler_env \<Rightarrow> wf_message \<Rightarrow> 'w hstate \<Rightarrow> acknowledger \<times> 'w hstate" where
  "ProcessDataBatchMsg H msg s =
     (case andThen (run_stage H msg) (\<lambda>_.
             andThen (node_stage H msg) (\<lambda>(script, node).
               andThen (batch_stage H msg node) (\<lambda>scenario.
                 andThen (dependency_stage H msg script node) (\<lambda>r.
                   andThen (start_stage H msg scenario) (\<lambda>_ s1. (Inr (node, r), s1)))))) s of
        (Inl c, s1) \<Rightarrow> (c, s1)
      | (Inr (node, r), s1) \<Rightarrow> process_stage H msg node r s1)"

subsection \<open>What the journal shows\<close>

text \<open>Steps that neither process the batch nor write its success.\<close>

definition quiet :: "act \<Rightarrow> bool" where
  "quiet a \<longleftrightarrow> (\<forall>b. a \<noteq> ProcessedBatch b) \<and> (\<forall>b. a \<noteq> WroteBatch NodeBatchSuccess b)"

definition adds :: "'w hstate \<Rightarrow> 'w hstate \<Rightarrow> act list \<Rightarrow> bool" where
  "adds s s' es \<longleftrightarrow> hs_journal s' = hs_journal s @ es \<and> (\<forall>a\<in>set es. quiet a)"

definition quietly :: "'w hstate \<Rightarrow> 'w hstate \<Rightarrow> bool" where
  "quietly s s' \<longleftrightarrow> (\<exists>es. adds s s' es)"

lemma adds_append: "adds s s1 es \<Longrightarrow> adds s1 s2 fs \<Longrightarrow> adds s s2 (es @ fs)"
  by (auto simp: adds_def)

lemma quietly_refl [simp]: "quietly s s"
  unfolding quietly_def adds_def by (rule exI [of _ "[]"]) simp

lemma quietly_trans [trans]: "quietly s s1 \<Longrightarrow> quietly s1 s2 \<Longrightarrow> quietly s s2"
  unfolding quietly_def using adds_append by blast

lemma quietly_world [simp]: "quietly s (s1\<lparr>hs_world := w\<rparr>) = quietly s s1"
  by (simp add: quietly_def adds_def)

lemma on_world_quietly: "on_world f s = (r, s1) \<Longrightarrow> quietly s s1"
  by (auto simp: on_world_def split: prod.splits)

lemma recorded_adds: "recorded a f s = (r, s1) \<Longrightarrow> quiet (a r) \<Longrightarrow> adds s s1 [a r]"
  by (auto simp: recorded_def adds_def split: prod.splits)

lemma recorded_quietly: "recorded a f s = (r, s1) \<Longrightarrow> quiet (a r) \<Longrightarrow> quietly s s1"
  unfolding quietly_def by (rule exI) (rule recorded_adds)

lemma quiet_simps [simp]:
  "quiet (WroteNode st b)" "quiet (WroteRun st b)" "quiet (DeletedLeftovers b)" "quiet (ReadRunStatus st)"
  "quiet (ReadBatchStatus st ts)" "quiet (CheckedDependencies c)" "quiet (WroteBatch st b) \<longleftrightarrow> st \<noteq> NodeBatchSuccess"
  by (auto simp: quiet_def)

lemma set_batch_adds: "set_batch H msg st c s = (e, s1) \<Longrightarrow> st \<noteq> NodeBatchSuccess \<Longrightarrow> adds s s1 [WroteBatch st (e = None)]"
  unfolding set_batch_def by (drule recorded_adds) simp_all

lemma set_batch_quietly: "set_batch H msg st c s = (e, s1) \<Longrightarrow> st \<noteq> NodeBatchSuccess \<Longrightarrow> quietly s s1"
  unfolding quietly_def using set_batch_adds by blast

lemma set_node_quietly: "set_node H msg st c s = (e, s1) \<Longrightarrow> quietly s s1"
  unfolding set_node_def by (erule recorded_quietly) simp

lemma set_run_quietly: "set_run H msg st c s = (e, s1) \<Longrightarrow> quietly s s1"
  unfolding set_run_def by (erule recorded_quietly) simp

lemma updateNode_quietly: "updateNodeStatusFromBatches H msg s = (r, s1) \<Longrightarrow> quietly s s1"
  unfolding updateNodeStatusFromBatches_def Let_def
  by (auto split: prod.splits sum.splits if_splits option.splits
      intro: quietly_trans on_world_quietly set_node_quietly)

lemma updateRun_quietly: "updateRunStatusFromNodes H msg s = (r, s1) \<Longrightarrow> quietly s s1"
  unfolding updateRunStatusFromNodes_def Let_def
  by (auto split: prod.splits sum.splits if_splits dest!: on_world_quietly set_run_quietly)
    (meson quietly_trans)+

lemma refresh_quietly: "refreshNodeAndRunStatus H msg s = (r, s1) \<Longrightarrow> quietly s s1"
  unfolding refreshNodeAndRunStatus_def
  by (auto split: prod.splits sum.splits intro: quietly_trans updateNode_quietly updateRun_quietly)

lemma set_batch_marks:
  "set_batch H msg 1 c s = (e, s1) \<Longrightarrow> quietly s s1"
  "set_batch H msg 3 c s = (e, s1) \<Longrightarrow> quietly s s1"
  "set_batch H msg 104 c s = (e, s1) \<Longrightarrow> quietly s s1"
  by (erule set_batch_quietly, simp)+

lemmas quietly_dests = on_world_quietly set_node_quietly set_run_quietly refresh_quietly set_batch_marks

lemma checkRunStatus_quietly: "checkRunStatus H msg st s = (c, s1) \<Longrightarrow> quietly s s1"
  unfolding checkRunStatus_def
  by (auto split: prod.splits option.splits if_splits dest!: quietly_dests) (meson quietly_trans)+

lemma checkRunStatus_proceeds: "checkRunStatus H msg st s = (FurtherProcessingProceed, s1) \<Longrightarrow> st = RunStart"
  unfolding checkRunStatus_def by (auto split: prod.splits option.splits if_splits)

lemma checkLast_quietly: "checkLastBatchStatus H msg node st ts s = (c, s1) \<Longrightarrow> quietly s s1"
  unfolding checkLastBatchStatus_def
  by (auto split: prod.splits if_splits dest!: quietly_dests)

lemma checkLast_proceeds:
  "checkLastBatchStatus H msg node st ts s = ((FurtherProcessingProceed, scenario), s1) \<Longrightarrow>
    st = NodeBatchNone \<and> scenario = FurtherProcessingBatchClean \<or>
    st = NodeBatchStart \<and> sn_RerunPolicy node = NodeRerun \<and> scenario = FurtherProcessingBatchWasAbadoned"
  unfolding checkLastBatchStatus_def by (auto split: prod.splits if_splits)

lemma ready_quietly: "checkDependencyNodesReady H msg script node s = (r, s1) \<Longrightarrow> quietly s s1"
proof -
  have c: "cached_readyness H key s = (x, s2) \<Longrightarrow> quietly s s2" for key x s2
    unfolding cached_readyness_def by (auto split: option.splits sum.splits prod.splits)
  show "checkDependencyNodesReady H msg script node s = (r, s1) \<Longrightarrow> quietly s s1"
    unfolding checkDependencyNodesReady_def Let_def
    by (auto split: prod.splits option.splits sum.splits list.splits dest!: c on_world_quietly)
      (meson quietly_trans)+
qed

lemma nogo_quietly: "checkDependencyNogoOrWait H msg cmd s = (c, s1) \<Longrightarrow> quietly s s1"
  unfolding checkDependencyNogoOrWait_def
  by (auto split: prod.splits option.splits if_splits dest!: quietly_dests) (meson quietly_trans)+

lemma nogo_proceeds:
  "checkDependencyNogoOrWait H msg cmd s = (FurtherProcessingProceed, s1) \<Longrightarrow> cmd \<noteq> NodeNogo \<and> cmd \<noteq> NodeWait"
  unfolding checkDependencyNogoOrWait_def by (auto split: prod.splits option.splits if_splits)

lemma obey_Inr [simp]: "obey c x = Inr y \<longleftrightarrow> c = FurtherProcessingProceed \<and> y = x"
  by (auto simp: obey_def split: further_cmd.splits)

text \<open>Each stage that hands on, with the entries of the journal that justify it.\<close>

lemma run_stage_adds:
  assumes "run_stage H msg s = (r, s')"
  shows "quietly s s' \<and> (r = Inr () \<longrightarrow> (\<exists>es. adds s s' es \<and> ReadRunStatus RunStart \<in> set es))"
proof -
  have n: "adds s2 (noted_act a s2) [a]" if "quiet a" for s2 :: "'a hstate" and a
    using that by (simp add: adds_def noted_act_def)
  obtain e s1 where c: "on_world (he_DbConnect H) s = (e, s1)" by (cases "on_world (he_DbConnect H) s")
  obtain q s2 where g: "on_world (GetRunStatusRows (he_session H) (he_fv H) (wm_DataKeyspace msg) (wm_RunId msg)) s1 = (q, s2)"
    by (cases "on_world (GetRunStatusRows (he_session H) (he_fv H) (wm_DataKeyspace msg) (wm_RunId msg)) s1")
  have q12: "quietly s s1" "quietly s s2" using on_world_quietly [OF c] on_world_quietly [OF g] quietly_trans by blast+
  show ?thesis
  proof (cases "e = None \<and> (\<exists>rows st. q = Inr rows \<and> RunHistoryRowsToStatus rows = Inr st)")
    case False
    then show ?thesis using assms q12 unfolding run_stage_def c
      by (auto simp: g split: option.splits sum.splits)
  next
    case True
    then obtain rows st where st: "e = None" "q = Inr rows" "RunHistoryRowsToStatus rows = Inr st" by blast
    obtain cmd s3 where k: "checkRunStatus H msg st (noted_act (ReadRunStatus st) s2) = (cmd, s3)"
      by (cases "checkRunStatus H msg st (noted_act (ReadRunStatus st) s2)")
    have r: "r = obey cmd ()" "s' = s3" using assms unfolding run_stage_def c by (simp_all add: st g k)
    from q12(2) obtain es where es: "adds s s2 es" unfolding quietly_def by blast
    from checkRunStatus_quietly [OF k] obtain fs where fs: "adds (noted_act (ReadRunStatus st) s2) s3 fs" unfolding quietly_def by blast
    have all: "adds s s3 ((es @ [ReadRunStatus st]) @ fs)"
      by (rule adds_append [OF adds_append [OF es n] fs]) simp
    moreover have "st = RunStart" if "r = Inr ()" using that checkRunStatus_proceeds k unfolding r by auto
    ultimately show ?thesis unfolding r(2) quietly_def by (intro conjI impI exI) auto
  qed
qed

lemma node_stage_quietly: "node_stage H msg s = (r, s') \<Longrightarrow> quietly s s'"
  unfolding node_stage_def initCtxScript_def
  by (auto split: prod.splits sum.splits option.splits dest!: on_world_quietly)

lemma clean_adds:
  assumes "clean_abandoned H msg node s = (r, s')"
  shows "quietly s s' \<and> (r = Inr () \<longrightarrow> adds s s' [DeletedLeftovers True])"
proof -
  obtain e s1 where c: "recorded (\<lambda>e. DeletedLeftovers (e = None)) (he_DeleteData H msg node) s = (e, s1)"
    by (cases "recorded (\<lambda>e. DeletedLeftovers (e = None)) (he_DeleteData H msg node) s")
  have a: "adds s s1 [DeletedLeftovers (e = None)]" using recorded_adds [OF c] by simp
  then have q: "quietly s s1" unfolding quietly_def by blast
  show ?thesis using assms a q unfolding clean_abandoned_def c
    by (auto split: option.splits if_splits prod.splits dest!: set_batch_marks) (meson quietly_trans)
qed

lemma fail_abandoned_quietly: "fail_abandoned H msg s = (c, s') \<Longrightarrow> quietly s s'"
  unfolding fail_abandoned_def
  by (auto split: prod.splits option.splits if_splits dest!: quietly_dests) (meson quietly_trans)+

lemma batch_stage_adds:
  assumes "batch_stage H msg node s = (r, s')"
  shows "quietly s s' \<and> (\<forall>scenario. r = Inr scenario \<longrightarrow> (\<exists>es. adds s s' es \<and>
    ((\<exists>ts. ReadBatchStatus NodeBatchNone ts \<in> set es) \<and> scenario = FurtherProcessingBatchClean \<or>
     (\<exists>ts. ReadBatchStatus NodeBatchStart ts \<in> set es) \<and> sn_RerunPolicy node = NodeRerun \<and> DeletedLeftovers True \<in> set es)))"
proof -
  let ?get = "on_world (GetSingleBatchStatusRows (he_session H) (he_fv H) (wm_DataKeyspace msg) (wm_RunId msg)
             (wm_TargetNodeName msg) (wm_BatchIdx msg) [''ts'', ''status'']) s"
  obtain q s1 where g: "?get = (q, s1)" by (cases ?get)
  have q1: "quietly s s1" by (rule on_world_quietly [OF g])
  show ?thesis
  proof (cases "\<exists>rows st ts. q = Inr rows \<and> SingleBatchHistoryRowsToLastBatchStatus rows [''ts'', ''status''] = Inr (st, ts)")
    case False
    then show ?thesis using assms q1 unfolding batch_stage_def Let_def g by (auto split: sum.splits)
  next
    case True
    then obtain rows st ts where st: "q = Inr rows" "SingleBatchHistoryRowsToLastBatchStatus rows [''ts'', ''status''] = Inr (st, ts)" by blast
    let ?s1 = "noted_act (ReadBatchStatus st ts) s1"
    obtain cmd scenario s2 where k: "checkLastBatchStatus H msg node st ts ?s1 = ((cmd, scenario), s2)"
      by (metis surj_pair)
    from q1 obtain es where es: "adds s s1 es" unfolding quietly_def by blast
    from checkLast_quietly [OF k] obtain fs where fs: "adds ?s1 s2 fs" unfolding quietly_def by blast
    have n: "adds s1 ?s1 [ReadBatchStatus st ts]" by (simp add: adds_def noted_act_def)
    have all: "adds s s2 ((es @ [ReadBatchStatus st ts]) @ fs)" by (rule adds_append [OF adds_append [OF es n] fs])
    then have q2: "quietly s s2" unfolding quietly_def by blast
    have body: "batch_stage H msg node s =
        (case cmd of FurtherProcessingRetry \<Rightarrow> (Inl AcknowledgerCmdRetry, s2)
         | FurtherProcessingAck \<Rightarrow> (if scenario = FurtherProcessingBatchWasAbadoned
              then (case fail_abandoned H msg s2 of (c, s3) \<Rightarrow> (Inl c, s3)) else (Inl AcknowledgerCmdAck, s2))
         | FurtherProcessingProceed \<Rightarrow> (if scenario = FurtherProcessingBatchWasAbadoned
              then andThen (clean_abandoned H msg node) (\<lambda>_ s3. (Inr scenario, s3)) s2 else (Inr scenario, s2)))"
      unfolding batch_stage_def Let_def g by (simp add: st k split: further_cmd.split)
    show ?thesis
    proof (cases cmd)
      case FurtherProcessingRetry
      then show ?thesis using assms body q2 by auto
    next
      case FurtherProcessingAck
      then show ?thesis using assms body q2
        by (auto split: if_splits prod.splits dest!: fail_abandoned_quietly) (meson quietly_trans)+
    next
      case FurtherProcessingProceed
      have p: "st = NodeBatchNone \<and> scenario = FurtherProcessingBatchClean \<or>
          st = NodeBatchStart \<and> sn_RerunPolicy node = NodeRerun \<and> scenario = FurtherProcessingBatchWasAbadoned"
        by (rule checkLast_proceeds [OF k [unfolded FurtherProcessingProceed]])
      show ?thesis
      proof (cases "scenario = FurtherProcessingBatchWasAbadoned")
        case False
        then have "r = Inr scenario" "s' = s2" using assms body FurtherProcessingProceed by auto
        then show ?thesis using q2 all p False by (intro conjI allI impI exI [of _ "(es @ [ReadBatchStatus st ts]) @ fs"]) auto
      next
        case True
        obtain c s3 where c: "clean_abandoned H msg node s2 = (c, s3)" by (cases "clean_abandoned H msg node s2")
        have rs: "s' = s3" "\<And>x. r = Inr x \<Longrightarrow> c = Inr ()"
          using assms body FurtherProcessingProceed True c by (auto simp: andThen_def split: sum.splits)
        have "adds s s' (((es @ [ReadBatchStatus st ts]) @ fs) @ [DeletedLeftovers True])" if "c = Inr ()"
          using clean_adds [OF c] that adds_append [OF all] unfolding rs(1) by blast
        moreover have "quietly s s'" using clean_adds [OF c] quietly_trans [OF q2] unfolding rs(1) by blast
        ultimately show ?thesis using rs(2) p True
          by (intro conjI allI impI exI [of _ "((es @ [ReadBatchStatus st ts]) @ fs) @ [DeletedLeftovers True]"]) auto
      qed
    qed
  qed
qed

lemma dependency_stage_adds:
  assumes "dependency_stage H msg script node s = (r, s')"
  shows "quietly s s' \<and> (\<forall>x. r = Inr x \<longrightarrow> (\<exists>es. adds s s' es \<and>
    (CheckedDependencies NodeGo \<in> set es \<or> CheckedDependencies NodeNone \<in> set es)))"
proof -
  obtain q s1 where k: "checkDependencyNodesReady H msg script node s = (q, s1)"
    by (cases "checkDependencyNodesReady H msg script node s")
  have q1: "quietly s s1" by (rule ready_quietly [OF k])
  show ?thesis
  proof (cases q)
    case (Inl e)
    then show ?thesis using assms q1 unfolding dependency_stage_def k by auto
  next
    case (Inr x)
    let ?s2 = "noted_act (CheckedDependencies (fst x)) s1"
    have n: "adds s1 ?s2 [CheckedDependencies (fst x)]" by (simp add: adds_def noted_act_def)
    from q1 obtain es where es: "adds s s1 es" unfolding quietly_def by blast
    have a2: "adds s ?s2 (es @ [CheckedDependencies (fst x)])" by (rule adds_append [OF es n])
    then have q2: "quietly s ?s2" unfolding quietly_def by blast
    obtain c s3 where c: "checkDependencyNogoOrWait H msg (fst x) ?s2 = (c, s3)"
      by (cases "checkDependencyNogoOrWait H msg (fst x) ?s2")
    from nogo_quietly [OF c] obtain fs where fs: "adds ?s2 s3 fs" unfolding quietly_def by blast
    have a3: "adds s s3 ((es @ [CheckedDependencies (fst x)]) @ fs)" by (rule adds_append [OF a2 fs])
    show ?thesis
    proof (cases "fst x \<in> set [NodeNone, NodeWait, NodeGo, NodeNogo]")
      case False
      then show ?thesis using assms Inr q2 unfolding dependency_stage_def k by (auto simp: Let_def)
    next
      case True
      then have rs: "r = obey c x" "s' = s3" using assms Inr c unfolding dependency_stage_def k by (auto simp: Let_def)
      have "fst x = NodeGo \<or> fst x = NodeNone" if "c = FurtherProcessingProceed"
        using nogo_proceeds [OF c [unfolded that]] True by auto
      then show ?thesis unfolding rs quietly_def using a3
        by (intro conjI allI impI exI [of _ "(es @ [CheckedDependencies (fst x)]) @ fs"]) auto
    qed
  qed
qed

lemma start_stage_adds:
  assumes "start_stage H msg scenario s = (r, s')"
  shows "quietly s s' \<and> (r = Inr () \<longrightarrow> (\<exists>es ok. adds s s' es \<and> WroteBatch NodeBatchStart ok \<in> set es \<and>
    (ok \<or> scenario = FurtherProcessingBatchWasAbadoned)))"
proof -
  obtain e s1 where n: "set_node H msg NodeBatchStart ''marked started'' s = (e, s1)"
    by (cases "set_node H msg NodeBatchStart ''marked started'' s")
  obtain e2 s2 where b: "set_batch H msg NodeBatchStart '''' s1 = (e2, s2)"
    by (cases "set_batch H msg NodeBatchStart '''' s1")
  have q1: "quietly s s1" by (rule set_node_quietly [OF n])
  have a2: "adds s1 s2 [WroteBatch NodeBatchStart (e2 = None)]" by (rule set_batch_adds [OF b]) simp
  from q1 obtain es where es: "adds s s1 es" unfolding quietly_def by blast
  have all: "adds s s2 (es @ [WroteBatch NodeBatchStart (e2 = None)])" by (rule adds_append [OF es a2])
  then have q2: "quietly s s2" unfolding quietly_def by blast
  have ok: "\<exists>es ok. adds s s2 es \<and> WroteBatch NodeBatchStart ok \<in> set es \<and> (ok \<or> e2 \<noteq> None)"
    using all by (intro exI [of _ "es @ [WroteBatch NodeBatchStart (e2 = None)]"] exI [of _ "e2 = None"]) auto
  show ?thesis
  proof (cases "conn_error H e \<or> fatal e")
    case True
    then show ?thesis using assms q1 unfolding start_stage_def n by (auto split: if_splits)
  next
    case e: False
    show ?thesis
    proof (cases e2)
      case None
      then show ?thesis using assms q2 ok e unfolding start_stage_def n prod.case b None by auto
    next
      case (Some x)
      obtain z s3 where f: "set_batch H msg NodeBatchFail ''unexpected: got a duplicate error, but the batch was not abandoned'' s2 = (z, s3)"
        by (cases "set_batch H msg NodeBatchFail ''unexpected: got a duplicate error, but the batch was not abandoned'' s2")
      have q3: "quietly s s3" by (rule quietly_trans [OF q2 set_batch_quietly [OF f]]) simp
      show ?thesis using assms q2 q3 ok e unfolding start_stage_def n prod.case b Some f
        by (auto split: if_splits)
    qed
  qed
qed

text \<open>The processing of the batch is one entry; the mark of success comes after a success.\<close>

definition settles :: "'w hstate \<Rightarrow> 'w hstate \<Rightarrow> bool" where
  "settles s s' \<longleftrightarrow> (\<exists>ok es. hs_journal s' = hs_journal s @ ProcessedBatch ok # es \<and>
     (\<forall>b. ProcessedBatch b \<notin> set es) \<and> (\<forall>b. WroteBatch NodeBatchSuccess b \<in> set es \<longrightarrow> ok))"

lemma refresh_settles:
  assumes "hs_journal s1 = hs_journal s @ [ProcessedBatch ok, WroteBatch st b]" "st = NodeBatchSuccess \<longrightarrow> ok" "quietly s1 s2"
  shows "settles s s2"
proof -
  obtain es where es: "hs_journal s2 = hs_journal s1 @ es" "\<forall>a\<in>set es. quiet a"
    using assms(3) unfolding quietly_def adds_def by blast
  then have "\<forall>b. ProcessedBatch b \<notin> set es" "\<forall>b. WroteBatch NodeBatchSuccess b \<notin> set es" unfolding quiet_def by blast+
  then show ?thesis unfolding settles_def es(1) assms(1)
    by (intro exI [of _ ok] exI [of _ "WroteBatch st b # es"]) (use assms(2) in auto)
qed

lemma process_stage_settles:
  assumes "process_stage H msg node r s = (c, s')"
  shows "settles s s'"
proof -
  obtain cmd rr lr i j where r: "r = (cmd, rr, lr, i, j)" by (cases r)
  let ?a = "\<lambda>r. ProcessedBatch (case r of Inl _ \<Rightarrow> False | Inr _ \<Rightarrow> True)"
  obtain res w where p: "CallAppropriateProcessorForBatch H msg node rr lr (hs_world s) = (res, w)"
    by (cases "CallAppropriateProcessorForBatch H msg node rr lr (hs_world s)")
  let ?s1 = "\<lparr>hs_world = w, hs_journal = hs_journal s @ [?a res]\<rparr>"
  have rec: "recorded ?a (CallAppropriateProcessorForBatch H msg node rr lr) s = (res, ?s1)"
    unfolding recorded_def p by simp
  obtain st t ok where m: "(case res of Inl e \<Rightarrow> set_batch H msg NodeBatchFail e ?s1
      | Inr (st, stats) \<Rightarrow> set_batch H msg st stats ?s1) = set_batch H msg st t ?s1"
    "?a res = ProcessedBatch ok" "st = NodeBatchSuccess \<longrightarrow> ok"
  proof (cases res)
    case (Inl e)
    then show thesis using that [of NodeBatchFail e False] by simp
  next
    case (Inr q)
    then show thesis using that [of "fst q" "snd q" True] by (cases q) simp
  qed
  obtain e w2 where b: "set_batch H msg st t ?s1 = (e, \<lparr>hs_world = w2, hs_journal = hs_journal ?s1 @ [WroteBatch st (e = None)]\<rparr>)"
    (is "_ = (e, ?s2)")
    by (cases "SetBatchStatus (he_session H) (he_fv H) (he_worker H) msg st t w") (simp add: set_batch_def recorded_def)
  obtain e2 s3 where f: "refreshNodeAndRunStatus H msg ?s2 = (e2, s3)" by (cases "refreshNodeAndRunStatus H msg ?s2")
  have j: "hs_journal ?s2 = hs_journal s @ [ProcessedBatch ok, WroteBatch st (e = None)]" using m(2) by simp
  have "s' = ?s1 \<or> s' = ?s2 \<or> s' = s3"
    using assms unfolding process_stage_def r prod.case rec m(1) b f by (auto simp: f split: if_splits option.splits)
  moreover have "settles s ?s1" unfolding settles_def using m(2)
    by (intro exI [of _ ok] exI [of _ "[]"]) simp
  ultimately show ?thesis
    using refresh_settles [OF j m(3) quietly_refl] refresh_settles [OF j m(3) refresh_quietly [OF f]] by metis
qed

text \<open>The entries that justify the processing of a batch: a new batch needs its start mark written.\<close>

definition justified :: "act list \<Rightarrow> bool" where
  "justified pre \<longleftrightarrow>
     ReadRunStatus RunStart \<in> set pre \<and>
     (CheckedDependencies NodeGo \<in> set pre \<or> CheckedDependencies NodeNone \<in> set pre) \<and>
     ((\<exists>ts. ReadBatchStatus NodeBatchNone ts \<in> set pre) \<and> WroteBatch NodeBatchStart True \<in> set pre \<or>
      (\<exists>ts. ReadBatchStatus NodeBatchStart ts \<in> set pre) \<and> DeletedLeftovers True \<in> set pre \<and>
        (\<exists>ok. WroteBatch NodeBatchStart ok \<in> set pre))"

text \<open>A stage that is quiet and, when it hands a value on, leaves entries that satisfy a predicate.\<close>

definition leaves :: "('w, 'a) stage \<Rightarrow> ('a \<Rightarrow> act list \<Rightarrow> bool) \<Rightarrow> bool" where
  "leaves f P \<longleftrightarrow> (\<forall>s r s'. f s = (r, s') \<longrightarrow>
     quietly s s' \<and> (\<forall>x. r = Inr x \<longrightarrow> (\<exists>es. adds s s' es \<and> P x es)))"

lemma leaves_andThen:
  assumes "leaves f P" "\<And>x. leaves (g x) (Q x)"
  shows "leaves (andThen f g) (\<lambda>y es. \<exists>x es1 es2. es = es1 @ es2 \<and> P x es1 \<and> Q x y es2)"
  unfolding leaves_def
proof (intro allI impI)
  fix s :: "'a hstate" and r s'
  assume r: "andThen f g s = (r, s')"
  obtain q s1 where f: "f s = (q, s1)" by (cases "f s")
  have qf: "quietly s s1" using assms(1) f unfolding leaves_def by blast
  show "quietly s s' \<and> (\<forall>y. r = Inr y \<longrightarrow> (\<exists>es. adds s s' es \<and> (\<exists>x es1 es2. es = es1 @ es2 \<and> P x es1 \<and> Q x y es2)))"
  proof (cases q)
    case (Inl c)
    then show ?thesis using r f qf by (auto simp: andThen_def)
  next
    case (Inr x)
    then have g: "g x s1 = (r, s')" using r f by (simp add: andThen_def)
    obtain es1 where es1: "adds s s1 es1" "P x es1" using assms(1) f Inr unfolding leaves_def by blast
    have qg: "quietly s1 s'" using assms(2) g unfolding leaves_def by blast
    have "\<exists>es. adds s s' es \<and> (\<exists>x es1 es2. es = es1 @ es2 \<and> P x es1 \<and> Q x y es2)" if y: "r = Inr y" for y
    proof -
      obtain es2 where "adds s1 s' es2" "Q x y es2" using assms(2) [of x] g y unfolding leaves_def by blast
      then show ?thesis using adds_append [OF es1(1)] es1(2) by blast
    qed
    then show ?thesis using quietly_trans [OF qf qg] by blast
  qed
qed

lemma leaves_mono: "leaves f P \<Longrightarrow> (\<And>x es. P x es \<Longrightarrow> Q x es) \<Longrightarrow> leaves f Q"
  unfolding leaves_def by blast

lemma run_stage_leaves: "leaves (run_stage H msg) (\<lambda>_ es. ReadRunStatus RunStart \<in> set es)"
  unfolding leaves_def by (intro allI impI, drule run_stage_adds) auto

lemma node_stage_leaves: "leaves (node_stage H msg) (\<lambda>_ _. True)"
  unfolding leaves_def by (intro allI impI, drule node_stage_quietly) (auto simp: quietly_def)

lemma batch_stage_leaves:
  "leaves (batch_stage H msg node) (\<lambda>scenario es.
     (\<exists>ts. ReadBatchStatus NodeBatchNone ts \<in> set es) \<and> scenario = FurtherProcessingBatchClean \<or>
     (\<exists>ts. ReadBatchStatus NodeBatchStart ts \<in> set es) \<and> sn_RerunPolicy node = NodeRerun \<and> DeletedLeftovers True \<in> set es)"
  unfolding leaves_def by (intro allI impI, drule batch_stage_adds) blast

lemma dependency_stage_leaves:
  "leaves (dependency_stage H msg script node) (\<lambda>_ es.
     CheckedDependencies NodeGo \<in> set es \<or> CheckedDependencies NodeNone \<in> set es)"
  unfolding leaves_def by (intro allI impI, drule dependency_stage_adds) blast

lemma start_stage_leaves:
  "leaves (andThen (start_stage H msg scenario) (\<lambda>_ s. (Inr x, s))) (\<lambda>_ es. \<exists>ok. WroteBatch NodeBatchStart ok \<in> set es \<and>
     (ok \<or> scenario = FurtherProcessingBatchWasAbadoned))"
proof -
  have s: "leaves (start_stage H msg scenario) (\<lambda>_ es. \<exists>ok. WroteBatch NodeBatchStart ok \<in> set es \<and>
     (ok \<or> scenario = FurtherProcessingBatchWasAbadoned))"
    unfolding leaves_def by (intro allI impI, drule start_stage_adds) auto
  have h: "leaves (\<lambda>s. (Inr x, s)) (\<lambda>_ es. es = [])" unfolding leaves_def by (auto simp: adds_def)
  show ?thesis by (rule leaves_mono [OF leaves_andThen [OF s h]]) auto
qed

definition stages :: "('w, 'f, 'd) handler_env \<Rightarrow> wf_message \<Rightarrow> ('w, script_node \<times> readyness) stage" where
  "stages H msg = andThen (run_stage H msg) (\<lambda>_.
     andThen (node_stage H msg) (\<lambda>(script, node).
       andThen (batch_stage H msg node) (\<lambda>scenario.
         andThen (dependency_stage H msg script node) (\<lambda>r.
           andThen (start_stage H msg scenario) (\<lambda>_ s1. (Inr (node, r), s1))))))"

lemma stages_leave: "leaves (stages H msg) (\<lambda>_. justified)"
proof -
  let ?A = "\<lambda>es. (\<exists>ts. ReadBatchStatus NodeBatchNone ts \<in> set es) \<and> WroteBatch NodeBatchStart True \<in> set es \<or>
      (\<exists>ts. ReadBatchStatus NodeBatchStart ts \<in> set es) \<and> DeletedLeftovers True \<in> set es \<and>
        (\<exists>ok. WroteBatch NodeBatchStart ok \<in> set es)"
  let ?D = "\<lambda>es. CheckedDependencies NodeGo \<in> set es \<or> CheckedDependencies NodeNone \<in> set es"
  have b: "leaves (andThen (batch_stage H msg node) (\<lambda>scenario.
      andThen (dependency_stage H msg script node) (\<lambda>r.
        andThen (start_stage H msg scenario) (\<lambda>_ s1. (Inr (node, r), s1))))) (\<lambda>_ es. ?A es \<and> ?D es)" for script node
    by (rule leaves_mono [OF leaves_andThen [OF batch_stage_leaves
          leaves_andThen [OF dependency_stage_leaves start_stage_leaves]]]) (auto; metis)
  have n: "leaves (case p of (script, node) \<Rightarrow> andThen (batch_stage H msg node) (\<lambda>scenario.
      andThen (dependency_stage H msg script node) (\<lambda>r.
        andThen (start_stage H msg scenario) (\<lambda>_ s1. (Inr (node, r), s1))))) (\<lambda>_ es. ?A es \<and> ?D es)" for p
    using b by (cases p) (simp only: prod.case)
  show ?thesis unfolding stages_def
    by (rule leaves_mono [OF leaves_andThen [OF run_stage_leaves leaves_andThen [OF node_stage_leaves n]]])
      (auto simp: justified_def)
qed


lemma list_split_at:
  "pre @ a # post = es @ b # fs \<Longrightarrow> a \<in> set es \<or> pre = es \<and> a = b \<and> post = fs \<or>
     (\<exists>us. fs = us @ a # post \<and> pre = es @ b # us)"
  by (auto simp: append_eq_append_conv2 append_eq_Cons_conv Cons_eq_append_conv)

text \<open>C35: The handler processes a batch at most once per message, and only after it has read the
  status start of the run, has read that the nodes it depends on are ready, and has either found no
  status of the batch and written its start mark, or found the batch started by somebody else and
  deleted what that one left; the mark of success is written only after the processing succeeded.\<close>

theorem processing_is_justified:
  assumes "ProcessDataBatchMsg H msg \<lparr>hs_world = w, hs_journal = []\<rparr> = (cmd, s)" "hs_journal s = pre @ a # post"
  shows "(\<forall>ok. a = ProcessedBatch ok \<longrightarrow> justified pre \<and> (\<forall>b. ProcessedBatch b \<notin> set (pre @ post))) \<and>
    (\<forall>b. a = WroteBatch NodeBatchSuccess b \<longrightarrow> ProcessedBatch True \<in> set pre)"
proof -
  let ?s0 = "\<lparr>hs_world = w, hs_journal = []\<rparr>"
  obtain r s1 where st: "stages H msg ?s0 = (r, s1)" by (cases "stages H msg ?s0")
  have body: "ProcessDataBatchMsg H msg ?s0 =
      (case (r, s1) of (Inl c, s1) \<Rightarrow> (c, s1) | (Inr (node, r), s1) \<Rightarrow> process_stage H msg node r s1)"
    unfolding ProcessDataBatchMsg_def st [symmetric] stages_def by (rule refl)
  have l: "quietly ?s0 s1" "\<And>x. r = Inr x \<Longrightarrow> \<exists>es. adds ?s0 s1 es \<and> justified es"
    using stages_leave [of H msg] st unfolding leaves_def by blast+
  show ?thesis
  proof (cases r)
    case (Inl c)
    then have "s = s1" using assms(1) body by simp
    then have "quiet a" using l(1) assms(2) unfolding quietly_def adds_def by auto
    then show ?thesis unfolding quiet_def by blast
  next
    case (Inr x)
    obtain node rd where x: "x = (node, rd)" by (cases x)
    obtain es where es: "hs_journal s1 = es" "\<forall>a\<in>set es. quiet a" "justified es"
      using l(2) [OF Inr] unfolding adds_def by auto
    have "settles s1 s" using assms(1) body Inr x by (auto intro: process_stage_settles)
    then obtain ok fs where fs: "hs_journal s = es @ ProcessedBatch ok # fs" "\<forall>b. ProcessedBatch b \<notin> set fs"
      "\<forall>b. WroteBatch NodeBatchSuccess b \<in> set fs \<longrightarrow> ok" unfolding settles_def es(1) by blast
    have none: "\<forall>b. ProcessedBatch b \<notin> set es" using es(2) unfolding quiet_def by blast
    from list_split_at [OF assms(2) [unfolded fs(1), symmetric]]
    consider "a \<in> set es" | "pre = es" "a = ProcessedBatch ok" "post = fs" |
      us where "fs = us @ a # post" "pre = es @ ProcessedBatch ok # us" by blast
    then show ?thesis
    proof cases
      case 1
      then have "quiet a" using es(2) by blast
      then show ?thesis unfolding quiet_def by blast
    next
      case 2
      then show ?thesis using es(3) fs(2) none by simp
    next
      case 3
      then have "a \<in> set fs" by simp
      then show ?thesis using fs(2,3) 3(2) by auto
    qed
  qed
qed

text \<open>A database that gives fixed answers, a file to read and a processing that succeeds.\<close>

definition answers_env :: "((int, int) row list list, int, int) handler_env" where
  "answers_env = \<lparr>
     he_session = \<lparr>s_Exec = (\<lambda>q w. (None, w)),
       s_SliceMap = (\<lambda>q w. case w of [] \<Rightarrow> (Inl ''no answer'', []) | rows # w' \<Rightarrow> (Inr rows, w')),
       s_MapScanCAS = (\<lambda>q w. (Inr False, w))\<rparr>,
     he_fv = (\<lambda>v. ''''), he_worker = \<lparr>wk_Instance = ''host'', wk_Thread = 1\<rparr>, he_noConnections = ''gocql: no hosts available'',
     he_lang = sample_lang, he_fmt32 = (\<lambda>_. ''''), he_unaccent = id, he_upper = id,
     he_DbConnect = (\<lambda>w. (None, w)),
     he_NewScriptFromFiles = (\<lambda>u p w. (Inr \<lparr>sd_ScriptNodes = [(''read_orders'', sample_node\<lparr>sn_Type := NodeTypeFileTable,
         sn_FileReader := sample_file_reader\<lparr>frd_SrcFileUrls := [''orders.csv'']\<rparr>\<rparr>)],
       sd_RawDependencyPolicies = [], sd_TableCreatorNodeMap = [], sd_IndexNodeMap = []\<rparr>, w)),
     he_Process = (\<lambda>msg node r l w. (Inr ''rows written'', w)), he_DeleteData = (\<lambda>msg node w. (None, w)),
     he_Now = (\<lambda>w. 0), he_CacheGet = None, he_CacheAdd = (\<lambda>k c w. w), he_CacheRemove = (\<lambda>k w. w)\<rparr>"

definition first_batch :: wf_message where
  "first_batch = \<lparr>wm_Ts = 0, wm_Id = ''1'', wm_ScriptURL = ''script.json'', wm_ScriptParamsURL = '''', wm_DataKeyspace = ''ks'',
     wm_RunId = 1, wm_TargetNodeName = ''read_orders'', wm_FirstToken = 0, wm_LastToken = 0, wm_BatchIdx = 0, wm_BatchesTotal = 1\<rparr>"

definition started_run :: "(int, int) row list list" where
  "started_run = [[Map.empty(''ts'' \<mapsto> VTime 5, ''status'' \<mapsto> VInt8 1)], []]"

lemma first_batch_processed:
  "\<exists>c s post. ProcessDataBatchMsg answers_env first_batch \<lparr>hs_world = started_run, hs_journal = []\<rparr> = (c, s) \<and>
     hs_journal s = [ReadRunStatus 1, ReadBatchStatus 0 0, CheckedDependencies NodeGo, WroteNode 1 True, WroteBatch 1 True] @
       ProcessedBatch True # post"
proof -
  let ?row = "Map.empty(''ts'' \<mapsto> VTime 5 :: (int, int) gval, ''status'' \<mapsto> VInt8 1)"
  have a: "RunHistoryRowsToStatus [?row] = Inr 1"
    by (simp add: RunHistoryRowsToStatus_def NewRunHistoryEventFromMap_def run_event_field_def set_field_def
        ReadTimeFromRow_def ReadRunStatusFromRow_def row_error_def run_status_event_def)
  have s: "run_stage answers_env first_batch \<lparr>hs_world = started_run, hs_journal = []\<rparr> =
      (Inr (), \<lparr>hs_world = [[]], hs_journal = [ReadRunStatus 1]\<rparr>)"
    by (simp add: run_stage_def on_world_def answers_env_def started_run_def GetRunStatusRows_def rows_of_def first_batch_def
        a checkRunStatus_def noted_act_def)
  let ?node = "sample_node\<lparr>sn_Type := NodeTypeFileTable, sn_FileReader := sample_file_reader\<lparr>frd_SrcFileUrls := [''orders.csv'']\<rparr>\<rparr>"
  let ?script = "\<lparr>sd_ScriptNodes = [(''read_orders'', ?node)], sd_RawDependencyPolicies = [], sd_TableCreatorNodeMap = [],
    sd_IndexNodeMap = []\<rparr>"
  have n: "node_stage answers_env first_batch st = (Inr (?script, ?node), st)" for st
    by (simp add: node_stage_def initCtxScript_def on_world_def answers_env_def first_batch_def)
  have b: "batch_stage answers_env first_batch ?node \<lparr>hs_world = [[]], hs_journal = j\<rparr> =
      (Inr FurtherProcessingBatchClean, \<lparr>hs_world = [], hs_journal = j @ [ReadBatchStatus 0 0]\<rparr>)" for j
    by (simp add: batch_stage_def on_world_def answers_env_def GetSingleBatchStatusRows_def rows_of_def
        SingleBatchHistoryRowsToLastBatchStatus_def checkLastBatchStatus_def noted_act_def)
  have d: "dependency_stage answers_env first_batch ?script ?node st =
      (Inr (NodeGo, 0, 0, -1, -1), st\<lparr>hs_journal := hs_journal st @ [CheckedDependencies NodeGo]\<rparr>)" for st
    by (simp add: dependency_stage_def checkDependencyNodesReady_def cached_readyness_def answers_env_def dependency_names_def
        HasTableReader_def HasLookup_def noted_act_def checkDependencyNogoOrWait_def)
  have t: "start_stage answers_env first_batch FurtherProcessingBatchClean st =
      (Inr (), st\<lparr>hs_journal := hs_journal st @ [WroteNode 1 True, WroteBatch 1 True]\<rparr>)" for st
    by (simp add: start_stage_def set_node_def set_batch_def recorded_def SetNodeStatus_def SetBatchStatus_def exec_def
        answers_env_def conn_error_def fatal_def)
  have p: "\<exists>c s post. process_stage answers_env first_batch ?node r st = (c, s) \<and>
      hs_journal s = hs_journal st @ ProcessedBatch True # post" for r and st :: "(int, int) row list list hstate"
  proof -
    obtain c s where c: "process_stage answers_env first_batch ?node r st = (c, s)"
      by (cases "process_stage answers_env first_batch ?node r st")
    obtain cmd rr lr i j where r: "r = (cmd, rr, lr, i, j)" by (cases r)
    have "CallAppropriateProcessorForBatch answers_env first_batch ?node rr lr w = (Inr (NodeBatchSuccess, ''rows written''), w)" for w
      by (simp add: CallAppropriateProcessorForBatch_def first_batch_def answers_env_def ValidateNodeType_def)
    moreover obtain e s2 where e: "refreshNodeAndRunStatus answers_env first_batch
        \<lparr>hs_world = hs_world st, hs_journal = hs_journal st @ [ProcessedBatch True, WroteBatch 2 True]\<rparr> = (e, s2)" by fastforce
    moreover have "s_Exec (he_session answers_env) q w = (None, w)" for q w by (simp add: answers_env_def)
    ultimately have "process_stage answers_env first_batch ?node r st = (retry_or_ack answers_env e, s2)"
      unfolding process_stage_def r by (simp add: recorded_def set_batch_def SetBatchStatus_def exec_def)
    then show ?thesis using refresh_quietly [OF e] c unfolding quietly_def adds_def by auto
  qed
  let ?st = "\<lparr>hs_world = [], hs_journal = [ReadRunStatus 1, ReadBatchStatus 0 0, CheckedDependencies NodeGo, WroteNode 1 True,
    WroteBatch 1 True]\<rparr> :: (int, int) row list list hstate"
  have "ProcessDataBatchMsg answers_env first_batch \<lparr>hs_world = started_run, hs_journal = []\<rparr> =
      process_stage answers_env first_batch ?node (NodeGo, 0, 0, -1, -1) ?st"
    unfolding ProcessDataBatchMsg_def andThen_def s prod.case sum.case n b d t by (simp add: b d t)
  then show ?thesis using p [of "(NodeGo, 0, 0, -1, -1)" ?st] by simp
qed

lemma processing_is_justified_witness:
  "\<exists>c s pre post. ProcessDataBatchMsg answers_env first_batch \<lparr>hs_world = started_run, hs_journal = []\<rparr> = (c, s) \<and>
     hs_journal s = pre @ ProcessedBatch True # post \<and> justified pre"
proof -
  obtain c s post where r: "ProcessDataBatchMsg answers_env first_batch \<lparr>hs_world = started_run, hs_journal = []\<rparr> = (c, s)"
    "hs_journal s = [ReadRunStatus 1, ReadBatchStatus 0 0, CheckedDependencies NodeGo, WroteNode 1 True, WroteBatch 1 True] @
       ProcessedBatch True # post"
    using first_batch_processed by (elim exE conjE)
  have "justified [ReadRunStatus 1, ReadBatchStatus 0 0, CheckedDependencies NodeGo, WroteNode 1 True, WroteBatch 1 True]"
    using processing_is_justified [OF r, THEN conjunct1, THEN spec, of True] by simp
  then show ?thesis using r by (intro exI conjI)
qed

end
