(* ===== verification/Inserter.thy ===== *)
theory Inserter
  imports Table_Creator Wfdb
begin

text \<open>
  Writing records into the data table of a run and its index tables (pkg/proc/table_inserter.go, with
  the queries on single index records of pkg/proc/data_util.go and the query performer of pkg/db).
  A worker takes records from a channel and writes each with an insert that the database applies only if
  the rowid is not taken, retrying after errors that may pass. The calls of the database session and the
  random numbers are the record \<open>data_db\<close>, a parameter that acts on an unknown world; pauses are left
  out. The drainer, which collects the workers' results, is a step function over what it may receive.
\<close>

record ('w, 'f, 'd) data_db =
  db_CAS :: "string \<Rightarrow> ('f, 'd) gval list \<Rightarrow> 'w \<Rightarrow> (goerr + ('f, 'd) row \<times> bool) \<times> 'w"
  db_Insert :: "string \<Rightarrow> ('f, 'd) gval list \<Rightarrow> 'w \<Rightarrow> goerr option \<times> 'w"
  db_Exec :: "string \<Rightarrow> 'w \<Rightarrow> goerr option \<times> 'w"
  db_SliceMap :: "string \<Rightarrow> 'w \<Rightarrow> (goerr + ('f, 'd) row list) \<times> 'w"
  db_Int63 :: "'w \<Rightarrow> int \<times> 'w"
  db_Seed :: "'w \<Rightarrow> 'w"

text \<open>
  What an inserter knows; \<open>ti_Equal\<close> is cmp.Equal of github.com/google/go-cmp, \<open>ti_dp\<close> turns a
  decimal into a Cassandra decimal, \<open>ti_fv\<close> prints a value.
\<close>

datatype seq_mode = DataIdxSeqModeDataFirst | DataIdxSeqModeDistinctIdxFirst | DataIdxSeqModeOther int

record ('w, 'f, 'd) inserter =
  ti_Db :: "('w, 'f, 'd) data_db"
  ti_Msg :: wf_message
  ti_TableCreator :: table_creator
  ti_AmazonKeyspaces :: bool
  ti_DataIdxSeqMode :: seq_mode
  ti_MaxDbProblemRetries :: nat
  ti_MaxDuplicateRetries :: nat
  ti_Equal :: "('f, 'd) gval \<Rightarrow> ('f, 'd) gval \<Rightarrow> bool"
  ti_dp :: "'d \<Rightarrow> ('f, 'd) gval"
  ti_fv :: "('f, 'd) gval \<Rightarrow> string"

text \<open>The retries of createInserterAndStartWorkers.\<close>

definition createInserter ::
  "('w, 'f, 'd) data_db \<Rightarrow> wf_message \<Rightarrow> table_creator \<Rightarrow> bool \<Rightarrow> seq_mode \<Rightarrow>
     (('f, 'd) gval \<Rightarrow> ('f, 'd) gval \<Rightarrow> bool) \<Rightarrow> ('d \<Rightarrow> ('f, 'd) gval) \<Rightarrow> (('f, 'd) gval \<Rightarrow> string) \<Rightarrow> ('w, 'f, 'd) inserter" where
  "createInserter D msg tc amazon mode eq dp fv =
     \<lparr>ti_Db = D, ti_Msg = msg, ti_TableCreator = tc, ti_AmazonKeyspaces = amazon, ti_DataIdxSeqMode = mode,
      ti_MaxDbProblemRetries = 5, ti_MaxDuplicateRetries = 5, ti_Equal = eq, ti_dp = dp, ti_fv = fv\<rparr>"

text \<open>A record to write: its fields and the keys of its indexes, in one iteration order of the maps.\<close>

type_synonym ('f, 'd) record_items = "(string \<times> ('f, 'd) gval) list"

record ('f, 'd) write_item =
  wi_TableRecordItems :: "('f, 'd) record_items"
  wi_IndexKeyItems :: "(string \<times> string) list"

definition findIndexKeyValByName :: "('f, 'd) write_item \<Rightarrow> string \<Rightarrow> goerr + string" where
  "findIndexKeyValByName wci idxName =
     (case map_of (wi_IndexKeyItems wci) idxName of None \<Rightarrow> Inl ''cannot find idx name'' | Some v \<Rightarrow> Inr v)"

record ('f, 'd) prepared_query =
  pq_Qb :: "('f, 'd) query_builder option"
  pq_Query :: string

definition no_query :: "('f, 'd) prepared_query" where
  "no_query = \<lparr>pq_Qb = None, pq_Query = ''''\<rparr>"

definition ErrorDoesNotExist :: string where "ErrorDoesNotExist = ''does not exist''"
definition ErrorOperationTimedOut :: string where "ErrorOperationTimedOut = ''Operation timed out''"
definition ErrorAmazonKeyspacesZeroResponses :: string where
  "ErrorAmazonKeyspacesZeroResponses = ''Operation failed - received 0 responses and 1 failures''"
definition ErrorNoResponseWithinTimeout :: string where
  "ErrorNoResponseWithinTimeout = ''no response received from cassandra within timeout period''"

subsection \<open>The tables of a run\<close>

definition CreateDataTableCql :: "string \<Rightarrow> int \<Rightarrow> table_creator \<Rightarrow> string" where
  "CreateDataTableCql keyspace runId tc =
     (let qb = fold (\<lambda>(fieldName, fieldDef). ColumnDef fieldName (wf_Type fieldDef)) (tc_Fields tc)
                 (ColumnDef ''batch_idx'' FieldTypeInt (ColumnDef ''rowid'' FieldTypeInt (NewQB :: (unit, unit) query_builder)))
      in CreateRun (tc_Name tc) runId IfNotExistsLwt (tc_CreateProperties tc)
           (Keyspace keyspace (PartitionKey [''rowid''] qb)))"

definition CreateIdxTableCql :: "string \<Rightarrow> int \<Rightarrow> string \<Rightarrow> idx_def \<Rightarrow> table_creator \<Rightarrow> string" where
  "CreateIdxTableCql keyspace runId idxName idxDef tc =
     (let qb = ColumnDef ''rowid'' FieldTypeInt (ColumnDef ''key'' FieldTypeString
                 (Keyspace keyspace (NewQB :: (unit, unit) query_builder)));
          qb1 = (if idx_Uniqueness idxDef = IdxUnique then PartitionKey [''key''] qb
                 else ClusteringKey [''rowid''] (PartitionKey [''key''] qb))
      in CreateRun idxName runId IfNotExistsLwt (tc_CreateProperties tc) qb1)"

definition buildIndexKeys ::
  "('f, 'd) numops \<Rightarrow> ('f \<Rightarrow> string) \<Rightarrow> (string \<Rightarrow> string) \<Rightarrow> (string \<Rightarrow> string) \<Rightarrow> table_creator \<Rightarrow> ('f, 'd) row \<Rightarrow>
     goerr + (string \<times> string) list" where
  "buildIndexKeys N fmt32 unaccent upper tc tableRecord =
     mapr (\<lambda>(idxName, idxDef).
       (case BuildKey N fmt32 unaccent upper tableRecord idxDef of
          Inl e \<Rightarrow> Inl (''cannot build key for idx '' @ idxName @ '': ['' @ e @ '']'')
        | Inr k \<Rightarrow> Inr (idxName, k))) (tc_Indexes tc)"

subsection \<open>One attempt at a rowid\<close>

definition newDataQueryBuilder ::
  "('d \<Rightarrow> ('f, 'd) gval) \<Rightarrow> string \<Rightarrow> ('f, 'd) record_items \<Rightarrow> int \<Rightarrow> goerr + ('f, 'd) query_builder" where
  "newDataQueryBuilder dp keyspace items batchIdx =
     bindr (WritePreparedColumn ''rowid'' (Keyspace keyspace NewQB)) (\<lambda>qb1.
     bindr (WritePreparedColumn ''batch_idx'' qb1) (\<lambda>qb2.
     bindr (WritePreparedValue dp ''batch_idx'' (VInt16 batchIdx) qb2) (\<lambda>qb3.
     foldr_err (\<lambda>qb c. WritePreparedColumn c qb) qb3 (map fst items))))"

definition newIdxQueryBuilder :: "string \<Rightarrow> goerr + ('f, 'd) query_builder" where
  "newIdxQueryBuilder keyspace =
     bindr (WritePreparedColumn ''key'' (Keyspace keyspace NewQB)) (WritePreparedColumn ''rowid'')"

text \<open>Values are written one by one; those before an error stay in the builder.\<close>

fun write_values ::
  "('d \<Rightarrow> ('f, 'd) gval) \<Rightarrow> ('f, 'd) record_items \<Rightarrow> ('f, 'd) query_builder \<Rightarrow> goerr option \<times> ('f, 'd) query_builder" where
  "write_values dp [] qb = (None, qb)"
| "write_values dp ((f, v) # items) qb =
     (case WritePreparedValue dp f v qb of
        Inl e \<Rightarrow> (Some (''cannot write prepared value for '' @ f @ '': '' @ e), qb)
      | Inr qb1 \<Rightarrow> write_values dp items qb1)"

text \<open>The loop of attempts: \<open>k\<close> are left, \<open>retry\<close> have been made. The flag asks for another rowid.\<close>

definition passes :: "goerr \<Rightarrow> bool" where
  "passes e \<longleftrightarrow> Contains e ErrorDoesNotExist \<or> Contains e ErrorOperationTimedOut \<or>
     Contains e ErrorNoResponseWithinTimeout \<or> Contains e ErrorAmazonKeyspacesZeroResponses"

definition same_record :: "('w, 'f, 'd) inserter \<Rightarrow> ('f, 'd) record_items \<Rightarrow> ('f, 'd) row \<Rightarrow> bool" where
  "same_record I items existing \<longleftrightarrow>
     list_all (\<lambda>(f, v). case existing f of None \<Rightarrow> False | Some x \<Rightarrow> ti_Equal I v x) items"

fun data_attempts ::
  "nat \<Rightarrow> nat \<Rightarrow> ('w, 'f, 'd) inserter \<Rightarrow> ('f, 'd) record_items \<Rightarrow> string \<Rightarrow> ('f, 'd) gval list \<Rightarrow> 'w \<Rightarrow>
     (bool \<times> goerr option) \<times> 'w" where
  "data_attempts 0 retry I items q params w = ((False, Some ''cannot write to data table, too many retries''), w)"
| "data_attempts (Suc k) retry I items q params w =
     (case db_CAS (ti_Db I) q params w of
        (Inr (existing, True), w1) \<Rightarrow> ((False, None), w1)
      | (Inr (existing, False), w1) \<Rightarrow>
          (if \<not> same_record I items existing then ((True, Some ''cannot write to data table, got rowid duplicate''), w1)
           else if retry = 0 then ((True, Some ''cannot write to data table, got full row duplicate''), w1)
           else ((False, None), w1))
      | (Inl e, w1) \<Rightarrow>
          (if passes e then
             (if k = 0 then ((False, Some (''cannot write to data table after all attempts: '' @ e)), w1)
              else data_attempts k (retry + 1) I items q params w1)
           else ((False, Some (WrapDbErrorWithQuery ''cannot write to data table'' q e)), w1)))"

text \<open>The query is built for the first record and used for all.\<close>

definition prepare_data ::
  "('w, 'f, 'd) inserter \<Rightarrow> ('f, 'd) record_items \<Rightarrow> ('f, 'd) prepared_query \<Rightarrow> goerr option \<times> ('f, 'd) prepared_query" where
  "prepare_data I items pq =
     (case pq_Qb pq of
        Some _ \<Rightarrow> (None, pq)
      | None \<Rightarrow>
          (case newDataQueryBuilder (ti_dp I) (wm_DataKeyspace (ti_Msg I)) items (wm_BatchIdx (ti_Msg I)) of
             Inl e \<Rightarrow> (Some (''cannot create insert data query builder: '' @ e), pq)
           | Inr qb \<Rightarrow>
               (case InsertRunPreparedQuery (tc_Name (ti_TableCreator I)) (wm_RunId (ti_Msg I)) IfNotExistsLwt qb of
                  Inl e \<Rightarrow> (Some (''cannot prepare insert data query string: '' @ e), \<lparr>pq_Qb = Some qb, pq_Query = ''''\<rparr>)
                | Inr q \<Rightarrow> (None, \<lparr>pq_Qb = Some qb, pq_Query = q\<rparr>))))"

definition insertDataRecordWithRowid ::
  "('w, 'f, 'd) inserter \<Rightarrow> ('f, 'd) record_items \<Rightarrow> int \<Rightarrow> ('f, 'd) prepared_query \<Rightarrow> 'w \<Rightarrow>
     (bool \<times> goerr option) \<times> ('f, 'd) prepared_query \<times> 'w" where
  "insertDataRecordWithRowid I items rowid pq w =
     (case prepare_data I items pq of
        (Some e, pq1) \<Rightarrow> ((False, Some e), pq1, w)
      | (None, pq1) \<Rightarrow>
          (case pq_Qb pq1 of
             None \<Rightarrow> ((False, Some ''panic: nil pointer dereference''), pq1, w)
           | Some qb \<Rightarrow>
               (case write_values (ti_dp I) items qb of
                  (Some e, qb1) \<Rightarrow> ((False, Some e), pq1\<lparr>pq_Qb := Some qb1\<rparr>, w)
                | (None, qb1) \<Rightarrow>
                    (case WritePreparedValue (ti_dp I) ''rowid'' (VInt64 rowid) qb1 of
                       Inl e \<Rightarrow> ((False, Some (''cannot write rowid to prepared query: '' @ e)), pq1\<lparr>pq_Qb := Some qb1\<rparr>, w)
                     | Inr qb2 \<Rightarrow>
                         (case InsertRunParams qb2 of
                            Inl e \<Rightarrow> ((False, Some (''cannot generate insert params: '' @ e)), pq1\<lparr>pq_Qb := Some qb2\<rparr>, w)
                          | Inr params \<Rightarrow>
                              (case data_attempts (ti_MaxDbProblemRetries I) 0 I items (pq_Query pq1) params w of
                                 (r, w1) \<Rightarrow> (r, pq1\<lparr>pq_Qb := Some qb2\<rparr>, w1)))))))"

subsection \<open>A record in the data table\<close>

fun record_attempts ::
  "nat \<Rightarrow> ('w, 'f, 'd) inserter \<Rightarrow> ('f, 'd) record_items \<Rightarrow> int \<Rightarrow> ('f, 'd) prepared_query \<Rightarrow> 'w \<Rightarrow>
     (goerr + int) \<times> ('f, 'd) prepared_query \<times> 'w" where
  "record_attempts 0 I items rowid pq w = (Inl ''duplicate rowid not written, giving up'', pq, w)"
| "record_attempts (Suc k) I items rowid pq w =
     (case insertDataRecordWithRowid I items rowid pq w of
        ((_, None), pq1, w1) \<Rightarrow> (Inr rowid, pq1, w1)
      | ((False, Some e), pq1, w1) \<Rightarrow> (Inl (''cannot insert data record: '' @ e), pq1, w1)
      | ((True, Some e), pq1, w1) \<Rightarrow>
          (if k = 0 then record_attempts k I items rowid pq1 w1
           else (case db_Int63 (ti_Db I) (db_Seed (ti_Db I) w1) of
                   (rowid1, w2) \<Rightarrow> record_attempts k I items rowid1 pq1 w2)))"

definition insertDataRecord ::
  "('w, 'f, 'd) inserter \<Rightarrow> ('f, 'd) record_items \<Rightarrow> ('f, 'd) prepared_query \<Rightarrow> 'w \<Rightarrow>
     (goerr + int) \<times> ('f, 'd) prepared_query \<times> 'w" where
  "insertDataRecord I items pq w =
     (case db_Int63 (ti_Db I) w of (rowid, w1) \<Rightarrow> record_attempts (ti_MaxDuplicateRetries I) I items rowid pq w1)"

subsection \<open>Records of indexes\<close>

datatype idx_error = ErrDuplicateKey | ErrMismatchedKey | IdxError goerr

text \<open>The production performer: a unique index is inserted if it is not there, another is overwritten.\<close>

definition HelperPerformInsertIdxRecordWithRowid ::
  "('w, 'f, 'd) data_db \<Rightarrow> idx_uniqueness \<Rightarrow> string \<Rightarrow> ('f, 'd) gval list \<Rightarrow> 'w \<Rightarrow>
     (goerr + ('f, 'd) row \<times> bool) \<times> 'w" where
  "HelperPerformInsertIdxRecordWithRowid D uniqueness q params w =
     (if uniqueness = IdxUnique then db_CAS D q params w
      else (case db_Insert D q params w of
              (None, w1) \<Rightarrow> (Inr (Map.empty, True), w1)
            | (Some e, w1) \<Rightarrow> (Inl e, w1)))"

text \<open>The loop of attempts; the code falls out of it without an error when no attempt is left.\<close>

fun idx_attempts ::
  "nat \<Rightarrow> nat \<Rightarrow> ('w, 'f, 'd) inserter \<Rightarrow> idx_uniqueness \<Rightarrow> string \<Rightarrow> int \<Rightarrow> string \<Rightarrow> ('f, 'd) gval list \<Rightarrow> 'w \<Rightarrow>
     idx_error option \<times> 'w" where
  "idx_attempts 0 retry I uniqueness key rowid q params w = (None, w)"
| "idx_attempts (Suc k) retry I uniqueness key rowid q params w =
     (case HelperPerformInsertIdxRecordWithRowid (ti_Db I) uniqueness q params w of
        (Inr (existing, True), w1) \<Rightarrow> (None, w1)
      | (Inr (existing, False), w1) \<Rightarrow>
          (if existing ''key'' = Some (VStr key) \<and> existing ''rowid'' \<noteq> Some (VInt64 rowid) then (Some ErrDuplicateKey, w1)
           else if existing ''key'' \<noteq> Some (VStr key) \<and> existing ''rowid'' = Some (VInt64 rowid) then (Some ErrMismatchedKey, w1)
           else if retry = 0 then (Some ErrDuplicateKey, w1)
           else (None, w1))
      | (Inl e, w1) \<Rightarrow>
          (if Contains e ErrorDoesNotExist \<or> Contains e ErrorOperationTimedOut \<or> Contains e ErrorAmazonKeyspacesZeroResponses then
             (if k = 0 then (Some (IdxError (''cannot write to idx table after all attempts: '' @ e)), w1)
              else idx_attempts k (retry + 1) I uniqueness key rowid q params w1)
           else (Some (IdxError (WrapDbErrorWithQuery ''cannot write to idx table'' q e)), w1)))"

definition insertIdxRecordWithRowid ::
  "('w, 'f, 'd) inserter \<Rightarrow> string \<Rightarrow> idx_uniqueness \<Rightarrow> string \<Rightarrow> int \<Rightarrow> ('f, 'd) prepared_query \<Rightarrow> 'w \<Rightarrow>
     idx_error option \<times> ('f, 'd) prepared_query \<times> 'w" where
  "insertIdxRecordWithRowid I idxName uniqueness key rowid pq w =
     (case (case pq_Qb pq of Some qb \<Rightarrow> Inr qb | None \<Rightarrow> newIdxQueryBuilder (wm_DataKeyspace (ti_Msg I))) of
        Inl e \<Rightarrow> (Some (IdxError (''cannot prepare idx builder: '' @ e)), pq, w)
      | Inr qb \<Rightarrow>
          (case InsertRunPreparedQuery idxName (wm_RunId (ti_Msg I))
                  (if uniqueness = IdxUnique then IfNotExistsLwt else IfExistsOverwrite) qb of
             Inl e \<Rightarrow> (Some (IdxError (''cannot prepare idx query: '' @ e)), \<lparr>pq_Qb = Some qb, pq_Query = ''''\<rparr>, w)
           | Inr q \<Rightarrow>
               (case write_values (ti_dp I) [(''key'', VStr key), (''rowid'', VInt64 rowid)] qb of
                  (Some e, qb1) \<Rightarrow> (Some (IdxError e), \<lparr>pq_Qb = Some qb1, pq_Query = q\<rparr>, w)
                | (None, qb1) \<Rightarrow>
                    (case InsertRunParams qb1 of
                       Inl e \<Rightarrow> (Some (IdxError (''cannot provide idx query params: '' @ e)), \<lparr>pq_Qb = Some qb1, pq_Query = q\<rparr>, w)
                     | Inr params \<Rightarrow>
                         (case idx_attempts (ti_MaxDbProblemRetries I) 0 I uniqueness key rowid q params w of
                            (r, w1) \<Rightarrow> (r, \<lparr>pq_Qb = Some qb1, pq_Query = q\<rparr>, w1))))))"

definition deleteIdxRecordByKey :: "('w, 'f, 'd) inserter \<Rightarrow> string \<Rightarrow> string \<Rightarrow> 'w \<Rightarrow> goerr option \<times> 'w" where
  "deleteIdxRecordByKey I idxName key w =
     (let qb = Keyspace (wm_DataKeyspace (ti_Msg I)) NewQB :: ('f, 'd) query_builder; run = wm_RunId (ti_Msg I);
          q = (if ti_AmazonKeyspaces I
               then ''BEGIN UNLOGGED BATCH '' @ DeleteRun idxName run (Cond (ti_fv I) ''key'' ''='' (VStr key) qb) @ '';'' @
                    '' APPLY BATCH''
               else DeleteRun idxName run (CondInString ''key'' [key] qb))
      in case db_Exec (ti_Db I) q w of
           (None, w1) \<Rightarrow> (None, w1)
         | (Some e, w1) \<Rightarrow> (Some (WrapDbErrorWithQuery ''cannot delete from idx table'' q e), w1))"

definition selectDataRowidByIdxKey ::
  "('w, 'f, 'd) inserter \<Rightarrow> string \<Rightarrow> string \<Rightarrow> string \<Rightarrow> 'w \<Rightarrow> (goerr + bool) \<times> 'w" where
  "selectDataRowidByIdxKey I idxName dataTableName key w =
     (let qb = Keyspace (wm_DataKeyspace (ti_Msg I)) NewQB :: ('f, 'd) query_builder; run = wm_RunId (ti_Msg I);
          idxQ = SelectRun idxName run [''rowid''] (Cond (ti_fv I) ''key'' ''='' (VStr key) qb)
      in case db_SliceMap (ti_Db I) idxQ w of
           (Inl e, w1) \<Rightarrow> (Inl (WrapDbErrorWithQuery ''cannot read idx record rowid'' idxQ e), w1)
         | (Inr [], w1) \<Rightarrow> (Inr False, w1)
         | (Inr (r # _), w1) \<Rightarrow>
             (case r ''rowid'' of
                Some (VInt64 idxRowid) \<Rightarrow>
                  (let dataQ = SelectRun dataTableName run [''rowid''] (Cond (ti_fv I) ''rowid'' ''='' (VInt64 idxRowid) qb)
                   in case db_SliceMap (ti_Db I) dataQ w1 of
                        (Inl e, w2) \<Rightarrow> (Inl (WrapDbErrorWithQuery ''cannot read data record by rowid'' dataQ e), w2)
                      | (Inr rows, w2) \<Rightarrow> (Inr (length rows > 0), w2))
              | _ \<Rightarrow> (Inl (''cannot read idx record rowid for key '' @ key), w1)))"

subsection \<open>A record of a distinct table\<close>

definition idx_error_str :: "idx_error \<Rightarrow> goerr" where
  "idx_error_str e = (case e of ErrDuplicateKey \<Rightarrow> ''duplicate key'' | ErrMismatchedKey \<Rightarrow> ''mismatched key'' | IdxError t \<Rightarrow> t)"

text \<open>The index record is written first and claims the key; \<open>k\<close> attempts are left.\<close>

fun distinct_attempts ::
  "nat \<Rightarrow> ('w, 'f, 'd) inserter \<Rightarrow> ('f, 'd) record_items \<Rightarrow> string \<Rightarrow> string \<Rightarrow> int \<Rightarrow>
     ('f, 'd) prepared_query \<Rightarrow> ('f, 'd) prepared_query \<Rightarrow> 'w \<Rightarrow>
     (goerr + int) \<times> ('f, 'd) prepared_query \<times> ('f, 'd) prepared_query \<times> 'w" where
  "distinct_attempts 0 I items idxName key rowid pdq piq w =
     (Inl ''cannot insert distinct idx/data records'', pdq, piq, w)"
| "distinct_attempts (Suc k) I items idxName key rowid pdq piq w =
     (case insertIdxRecordWithRowid I idxName IdxUnique key rowid piq w of
        (None, piq1, w1) \<Rightarrow>
          (case insertDataRecordWithRowid I items rowid pdq w1 of
             ((_, None), pdq1, w2) \<Rightarrow> (Inr rowid, pdq1, piq1, w2)
           | ((False, Some e), pdq1, w2) \<Rightarrow> (Inl e, pdq1, piq1, w2)
           | ((True, Some e), pdq1, w2) \<Rightarrow>
               (case deleteIdxRecordByKey I idxName key w2 of
                  (Some e, w3) \<Rightarrow> (Inl e, pdq1, piq1, w3)
                | (None, w3) \<Rightarrow>
                    (case db_Int63 (ti_Db I) (db_Seed (ti_Db I) w3) of
                       (rowid1, w4) \<Rightarrow> distinct_attempts k I items idxName key rowid1 pdq1 piq1 w4)))
      | (Some ErrDuplicateKey, piq1, w1) \<Rightarrow>
          (case selectDataRowidByIdxKey I idxName (tc_Name (ti_TableCreator I)) key w1 of
             (Inl e, w2) \<Rightarrow> (Inl e, pdq, piq1, w2)
           | (Inr True, w2) \<Rightarrow> (Inr rowid, pdq, piq1, w2)
           | (Inr False, w2) \<Rightarrow>
               (case deleteIdxRecordByKey I idxName key w2 of
                  (Some e, w3) \<Rightarrow> (Inl e, pdq, piq1, w3)
                | (None, w3) \<Rightarrow> distinct_attempts k I items idxName key rowid pdq piq1 w3))
      | (Some e, piq1, w1) \<Rightarrow>
          (if k > 0 then
             (case db_Int63 (ti_Db I) (db_Seed (ti_Db I) w1) of
                (rowid1, w2) \<Rightarrow> distinct_attempts k I items idxName key rowid1 pdq piq1 w2)
           else (Inl (idx_error_str e), pdq, piq1, w1)))"

definition insertDistinctIdxAndDataRecords ::
  "('w, 'f, 'd) inserter \<Rightarrow> ('f, 'd) record_items \<Rightarrow> string \<Rightarrow> string \<Rightarrow>
     ('f, 'd) prepared_query \<Rightarrow> ('f, 'd) prepared_query \<Rightarrow> 'w \<Rightarrow>
     (goerr + int) \<times> ('f, 'd) prepared_query \<times> ('f, 'd) prepared_query \<times> 'w" where
  "insertDistinctIdxAndDataRecords I items idxName key pdq piq w =
     (case db_Int63 (ti_Db I) w of
        (rowid, w1) \<Rightarrow> distinct_attempts (ti_MaxDuplicateRetries I) I items idxName key rowid pdq piq w1)"

subsection \<open>The worker\<close>

fun insertIdxRecordsForIndexes ::
  "('w, 'f, 'd) inserter \<Rightarrow> (string \<times> string) list \<Rightarrow> string \<Rightarrow> int \<Rightarrow> ('f, 'd) prepared_query \<Rightarrow> 'w \<Rightarrow>
     goerr option \<times> ('f, 'd) prepared_query \<times> 'w" where
  "insertIdxRecordsForIndexes I [] idxNameToSkip rowid piq w = (None, piq, w)"
| "insertIdxRecordsForIndexes I ((idxName, key) # keys) idxNameToSkip rowid piq w =
     (if idxNameToSkip \<noteq> '''' \<and> idxName = idxNameToSkip then insertIdxRecordsForIndexes I keys idxNameToSkip rowid piq w
      else (case map_of (tc_Indexes (ti_TableCreator I)) idxName of
              None \<Rightarrow> (Some ''dev error, inserter cannot find index'', piq, w)
            | Some idxDef \<Rightarrow>
                (case insertIdxRecordWithRowid I idxName (idx_Uniqueness idxDef) key rowid piq w of
                   (Some e, piq1, w1) \<Rightarrow> (Some (''cannot insert idx record to '' @ idxName @ '': '' @ idx_error_str e), piq1, w1)
                 | (None, piq1, w1) \<Rightarrow> insertIdxRecordsForIndexes I keys idxNameToSkip rowid piq1 w1)))"

text \<open>The other indexes get the rowid that the data record has been given.\<close>

definition other_indexes ::
  "('w, 'f, 'd) inserter \<Rightarrow> ('f, 'd) write_item \<Rightarrow> string \<Rightarrow> (goerr + int) \<Rightarrow>
     ('f, 'd) prepared_query \<Rightarrow> ('f, 'd) prepared_query \<Rightarrow> 'w \<Rightarrow>
     goerr option \<times> ('f, 'd) prepared_query \<times> ('f, 'd) prepared_query \<times> 'w" where
  "other_indexes I item skip r pdq piq w =
     (case r of
        Inl e \<Rightarrow> (Some e, pdq, piq, w)
      | Inr rowid \<Rightarrow>
          (case insertIdxRecordsForIndexes I (wi_IndexKeyItems item) skip rowid piq w of
             (None, piq1, w1) \<Rightarrow> (None, pdq, piq1, w1)
           | (Some e, piq1, w1) \<Rightarrow> (Some (''cannot insert index records: '' @ e), pdq, piq1, w1)))"

definition write_one ::
  "('w, 'f, 'd) inserter \<Rightarrow> ('f, 'd) write_item \<Rightarrow> ('f, 'd) prepared_query \<Rightarrow> ('f, 'd) prepared_query \<Rightarrow> 'w \<Rightarrow>
     goerr option \<times> ('f, 'd) prepared_query \<times> ('f, 'd) prepared_query \<times> 'w" where
  "write_one I item pdq piq w =
     (case ti_DataIdxSeqMode I of
        DataIdxSeqModeDataFirst \<Rightarrow>
          (case insertDataRecord I (wi_TableRecordItems item) pdq w of
             (r, pdq1, w1) \<Rightarrow> other_indexes I item '''' r pdq1 piq w1)
      | DataIdxSeqModeDistinctIdxFirst \<Rightarrow>
          (case GetSingleUniqueIndexDef (ti_TableCreator I) of
             Inl e \<Rightarrow> (Some (''unsupported configuration error: '' @ e), pdq, piq, w)
           | Inr (idxName, _) \<Rightarrow>
               (case findIndexKeyValByName item idxName of
                  Inl e \<Rightarrow> (Some (''unexpectedly cannot find key value for distinct index: '' @ e), pdq, piq, w)
                | Inr key \<Rightarrow>
                    (case insertDistinctIdxAndDataRecords I (wi_TableRecordItems item) idxName key pdq piq w of
                       (r, pdq1, piq1, w1) \<Rightarrow> other_indexes I item idxName r pdq1 piq1 w1)))
      | DataIdxSeqModeOther n \<Rightarrow> (Some ''unsupported instr.DataIdxSeqMode'', pdq, piq, w))"

text \<open>The statuses of the records that one worker takes from the channel, in their order.\<close>

fun worker_loop ::
  "('w, 'f, 'd) inserter \<Rightarrow> ('f, 'd) write_item list \<Rightarrow> ('f, 'd) prepared_query \<Rightarrow> ('f, 'd) prepared_query \<Rightarrow> 'w \<Rightarrow>
     goerr option list \<times> 'w" where
  "worker_loop I [] pdq piq w = ([], w)"
| "worker_loop I (item # items) pdq piq w =
     (case write_one I item pdq piq w of
        (st, pdq1, piq1, w1) \<Rightarrow>
          (case worker_loop I items pdq1 piq1 w1 of (sts, w2) \<Rightarrow> (st # sts, w2)))"

definition tableInserterWorker ::
  "('w, 'f, 'd) inserter \<Rightarrow> ('f, 'd) write_item list \<Rightarrow> 'w \<Rightarrow> goerr option list \<times> 'w" where
  "tableInserterWorker I items w = worker_loop I items no_query no_query (db_Seed (ti_Db I) w)"

subsection \<open>The drainer\<close>

datatype drain_event = RecordWritten "goerr option" | DrainTimeout | DrainerCancel goerr | DrainerDone

record drainer =
  dr_errorsFound :: "string list"
  dr_stillSending :: bool
  dr_processed :: nat

definition MaxInserterErrors :: nat where "MaxInserterErrors = 5"

text \<open>What the loop makes of an event, whose error is limited only for records written.\<close>

definition drain_step :: "drainer \<Rightarrow> drain_event \<Rightarrow> drainer" where
  "drain_step d ev =
     (let (d1, failed) =
        (case ev of
           RecordWritten None \<Rightarrow> (d\<lparr>dr_processed := dr_processed d + 1\<rparr>, False)
         | RecordWritten (Some e) \<Rightarrow>
             (d\<lparr>dr_processed := dr_processed d + 1,
                dr_errorsFound := (if length (dr_errorsFound d) < MaxInserterErrors then dr_errorsFound d @ [e]
                                   else dr_errorsFound d)\<rparr>, True)
         | DrainTimeout \<Rightarrow> (d\<lparr>dr_errorsFound := dr_errorsFound d @ [''got a timeout while draining''], dr_stillSending := False\<rparr>, True)
         | DrainerCancel e \<Rightarrow> (d\<lparr>dr_errorsFound := dr_errorsFound d @ [e], dr_stillSending := False\<rparr>, True)
         | DrainerDone \<Rightarrow> (d\<lparr>dr_stillSending := False\<rparr>, False))
      in if failed \<and> length (dr_errorsFound d1) = MaxInserterErrors
         then d1\<lparr>dr_errorsFound := dr_errorsFound d1 @ [''too many errors in TableInserter'']\<rparr> else d1)"

text \<open>The loop, given the events in their order and the number of records sent when each is awaited.\<close>

fun drain_loop :: "(drain_event \<times> nat) list \<Rightarrow> nat \<Rightarrow> drainer \<Rightarrow> drainer option" where
  "drain_loop evs sent d =
     (if \<not> dr_stillSending d \<and> sent \<le> dr_processed d then Some d
      else (case evs of [] \<Rightarrow> None | (ev, sent1) # evs1 \<Rightarrow> drain_loop evs1 sent1 (drain_step d ev)))"

definition startDrainer :: "(drain_event \<times> nat) list \<Rightarrow> nat \<Rightarrow> goerr option option" where
  "startDrainer evs sent =
     map_option (\<lambda>d. if length (dr_errorsFound d) > 0 then Some (Join (dr_errorsFound d) ''; '') else None)
       (drain_loop evs sent \<lparr>dr_errorsFound = [], dr_stillSending = True, dr_processed = 0\<rparr>)"

definition waitForDrainer :: "goerr option \<Rightarrow> goerr option" where
  "waitForDrainer e =
     (case e of None \<Rightarrow> None | Some e \<Rightarrow> Some (''error(s) while waiting for workers to drain RecordsIn: '' @ e))"

subsection \<open>A written record is in the table\<close>

text \<open>
  What the database promises for an insert that applies if the rowid is not taken, with the rows of the
  table in a world given by \<open>tbl\<close>: it says whether it has been applied, gives the row that is there
  otherwise, and after an error it may or may not have been applied.
\<close>

definition lwt_store ::
  "('w, 'f, 'd) data_db \<Rightarrow> string \<Rightarrow> string list \<Rightarrow> ('w \<Rightarrow> int \<Rightarrow> ('f, 'd) row option) \<Rightarrow> bool" where
  "lwt_store D q cols tbl \<longleftrightarrow>
     (\<forall>params w r w' rowid. map_of (zip cols params) ''rowid'' = Some (VInt64 rowid) \<longrightarrow> db_CAS D q params w = (r, w') \<longrightarrow>
        (case r of
           Inr (old, True) \<Rightarrow> tbl w rowid = None \<and> tbl w' = (tbl w)(rowid \<mapsto> map_of (zip cols params))
         | Inr (old, False) \<Rightarrow> tbl w rowid = Some old \<and> tbl w' = tbl w
         | Inl e \<Rightarrow> tbl w' = tbl w \<or> tbl w rowid = None \<and> tbl w' = (tbl w)(rowid \<mapsto> map_of (zip cols params)))) \<and>
     (\<forall>w. tbl (snd (db_Int63 D w)) = tbl w \<and> tbl (db_Seed D w) = tbl w)"

definition stored_record :: "('w, 'f, 'd) inserter \<Rightarrow> ('f, 'd) record_items \<Rightarrow> int \<Rightarrow> ('f, 'd) row \<Rightarrow> bool" where
  "stored_record I items rowid row \<longleftrightarrow>
     row ''rowid'' = Some (VInt64 rowid) \<and> row ''batch_idx'' = Some (VInt16 (wm_BatchIdx (ti_Msg I))) \<and>
     (\<forall>(f, v)\<in>set items. row f = Some (valueToCqlParam (ti_dp I) v))"

text \<open>Rows stay, and the new ones hold the record.\<close>

definition grows ::
  "('w, 'f, 'd) inserter \<Rightarrow> ('f, 'd) record_items \<Rightarrow> ('w \<Rightarrow> int \<Rightarrow> ('f, 'd) row option) \<Rightarrow> 'w \<Rightarrow> 'w \<Rightarrow> bool" where
  "grows I items tbl w w' \<longleftrightarrow> (\<forall>id. tbl w' id = tbl w id \<or>
     tbl w id = None \<and> (\<exists>row. tbl w' id = Some row \<and> stored_record I items id row))"

lemma grows_trans: "grows I items tbl w w1 \<Longrightarrow> grows I items tbl w1 w2 \<Longrightarrow> grows I items tbl w w2"
  unfolding grows_def by metis

lemma grows_same: "tbl w' = tbl w \<Longrightarrow> grows I items tbl w w'"
  by (simp add: grows_def)

lemma grows_insert: "tbl w rowid = None \<Longrightarrow> tbl w' = (tbl w)(rowid \<mapsto> row) \<Longrightarrow> stored_record I items rowid row \<Longrightarrow>
    grows I items tbl w w'"
  by (simp add: grows_def)

text \<open>The builder of a worker: not yet made, or made for a record with the same fields.\<close>

definition query_ready ::
  "('w, 'f, 'd) inserter \<Rightarrow> ('f, 'd) record_items \<Rightarrow> string list \<Rightarrow> string \<Rightarrow> ('f, 'd) prepared_query \<Rightarrow> bool" where
  "query_ready I items cols q pq \<longleftrightarrow>
     distinct (map fst items) \<and> ''rowid'' \<notin> fst ` set items \<and> ''batch_idx'' \<notin> fst ` set items \<and>
     (case pq_Qb pq of
        None \<Rightarrow> cols = ''rowid'' # ''batch_idx'' # map fst items \<and>
          (\<exists>qb. newDataQueryBuilder (ti_dp I) (wm_DataKeyspace (ti_Msg I)) items (wm_BatchIdx (ti_Msg I)) = Inr qb \<and>
             InsertRunPreparedQuery (tc_Name (ti_TableCreator I)) (wm_RunId (ti_Msg I)) IfNotExistsLwt qb = Inr q)
      | Some qb \<Rightarrow> pq_Query pq = q \<and> set cols = insert ''rowid'' (insert ''batch_idx'' (fst ` set items)) \<and>
          (\<exists>vals. prep_inv (ti_dp I) cols vals (PreparedColumnData qb) \<and>
             vals ''batch_idx'' = Some (VInt16 (wm_BatchIdx (ti_Msg I)))))"

lemma columns_prepared:
  "foldr_err (\<lambda>qb c. WritePreparedColumn c qb) qb cs = Inr qb' \<Longrightarrow> prep_inv dp cols vals (PreparedColumnData qb) \<Longrightarrow>
     prep_inv dp (cols @ cs) vals (PreparedColumnData qb')"
proof (induction cs arbitrary: qb cols)
  case (Cons c cs)
  obtain qb1 where qb1: "WritePreparedColumn c qb = Inr qb1" "foldr_err (\<lambda>qb c. WritePreparedColumn c qb) qb1 cs = Inr qb'"
    using Cons.prems(1) by (auto split: sum.splits)
  obtain cd where "addColumnName c (PreparedColumnData qb) = Inr cd" "PreparedColumnData qb1 = cd"
    using qb1(1) by (auto simp: WritePreparedColumn_def bindr_Inr_conv)
  then have "prep_inv dp (cols @ [c]) vals (PreparedColumnData qb1)" using prep_inv_column [OF Cons.prems(2)] by simp
  from Cons.IH [OF qb1(2) this] show ?case by simp
qed simp

lemma value_prepared:
  assumes "WritePreparedValue dp c v qb = Inr qb'" "prep_inv dp cols vals (PreparedColumnData qb)"
  shows "prep_inv dp cols (vals(c \<mapsto> v)) (PreparedColumnData qb')"
proof -
  obtain cd where "addColumnValue dp c v (PreparedColumnData qb) = Inr cd" "PreparedColumnData qb' = cd"
    using assms(1) by (auto simp: WritePreparedValue_def bindr_Inr_conv)
  then show ?thesis using prep_inv_value [OF assms(2)] by blast
qed

lemma values_prepared:
  "write_values dp items qb = (None, qb') \<Longrightarrow> prep_inv dp cols vals (PreparedColumnData qb) \<Longrightarrow>
     prep_inv dp cols (vals ++ map_of (rev items)) (PreparedColumnData qb')"
proof (induction items arbitrary: qb vals)
  case (Cons fv items)
  obtain f v where fv: "fv = (f, v)" by (cases fv)
  obtain qb1 where qb1: "WritePreparedValue dp f v qb = Inr qb1" "write_values dp items qb1 = (None, qb')"
    using Cons.prems(1) unfolding fv by (auto split: sum.splits)
  have "prep_inv dp cols (vals(f \<mapsto> v)) (PreparedColumnData qb1)" by (rule value_prepared [OF qb1(1) Cons.prems(2)])
  moreover have "vals ++ map_of (rev (fv # items)) = vals(f \<mapsto> v) ++ map_of (rev items)"
    by (auto simp: fv map_add_def fun_eq_iff split: option.splits)
  ultimately show ?case using Cons.IH [OF qb1(2)] by simp
qed simp

lemma new_builder_prepared:
  assumes "newDataQueryBuilder dp ks items b = Inr qb"
  shows "prep_inv dp (''rowid'' # ''batch_idx'' # map fst items) [''batch_idx'' \<mapsto> VInt16 b] (PreparedColumnData qb)"
proof -
  obtain qb1 qb2 qb3 where b: "WritePreparedColumn ''rowid'' (Keyspace ks NewQB :: ('a, 'b) query_builder) = Inr qb1"
    "WritePreparedColumn ''batch_idx'' qb1 = Inr qb2"
    "WritePreparedValue dp ''batch_idx'' (VInt16 b) qb2 = Inr qb3"
    "foldr_err (\<lambda>qb c. WritePreparedColumn c qb) qb3 (map fst items) = Inr qb"
    using assms unfolding newDataQueryBuilder_def by (auto simp: bindr_Inr_conv)
  have e: "prep_inv dp [] Map.empty (PreparedColumnData (Keyspace ks NewQB :: ('a, 'b) query_builder))"
    by (simp add: prep_inv_def Keyspace_def NewQB_def Let_def)
  have "foldr_err (\<lambda>qb c. WritePreparedColumn c qb) (Keyspace ks NewQB :: ('a, 'b) query_builder) [''rowid'', ''batch_idx''] = Inr qb2"
    using b(1,2) by simp
  from value_prepared [OF b(3) columns_prepared [OF this e]] columns_prepared [OF b(4)] show ?thesis by fastforce
qed


text \<open>The row that the parameters of the query make.\<close>

lemma params_row:
  assumes "prep_inv dp cols vals (PreparedColumnData qb)" "InsertRunParams qb = Inr params" "vals c = Some v"
  shows "map_of (zip cols params) c = Some (valueToCqlParam dp v)"
proof -
  have p: "set cols = dom vals" "params = map (\<lambda>c. valueToCqlParam dp (the (vals c))) cols"
    using prep_inv_params [OF assms(1)] assms(2) by (auto split: if_splits)
  then have "c \<in> set cols" using assms(3) by auto
  then show ?thesis unfolding p(2) using assms(3) by (simp add: map_of_zip_map)
qed

lemma data_attempts_writes:
  assumes s: "lwt_store (ti_Db I) q cols tbl" and R: "stored_record I items rowid (map_of (zip cols params))"
    and "data_attempts k retry I items q params w = ((need, e), w')"
  shows "grows I items tbl w w' \<and>
    (e = None \<longrightarrow> (\<exists>row. tbl w' rowid = Some row \<and> (stored_record I items rowid row \<or> same_record I items row)))"
  using assms(3)
proof (induction k arbitrary: retry w)
  case 0
  then show ?case by (auto simp: grows_def)
next
  case (Suc k)
  obtain r w1 where c: "db_CAS (ti_Db I) q params w = (r, w1)" by (cases "db_CAS (ti_Db I) q params w")
  have "map_of (zip cols params) ''rowid'' = Some (VInt64 rowid)" using R unfolding stored_record_def by blast
  then have law: "case r of
           Inr (old, True) \<Rightarrow> tbl w rowid = None \<and> tbl w1 = (tbl w)(rowid \<mapsto> map_of (zip cols params))
         | Inr (old, False) \<Rightarrow> tbl w rowid = Some old \<and> tbl w1 = tbl w
         | Inl e \<Rightarrow> tbl w1 = tbl w \<or> tbl w rowid = None \<and> tbl w1 = (tbl w)(rowid \<mapsto> map_of (zip cols params))"
    using s c unfolding lwt_store_def by blast
  show ?case
  proof (cases r)
    case (Inl err)
    then have g: "grows I items tbl w w1" using law grows_insert [OF _ _ R] grows_same by auto
    show ?thesis
    proof (cases "passes err \<and> k \<noteq> 0")
      case True
      then have "data_attempts k (retry + 1) I items q params w1 = ((need, e), w')" using Suc.prems c Inl by simp
      from Suc.IH [OF this] show ?thesis using grows_trans [OF g] by blast
    next
      case False
      then have "w' = w1" "e \<noteq> None" using Suc.prems c Inl by (auto split: if_splits)
      then show ?thesis using g by auto
    qed
  next
    case (Inr oa)
    obtain old applied where oa: "oa = (old, applied)" by (cases oa)
    show ?thesis
    proof (cases applied)
      case True
      then have "tbl w rowid = None" "tbl w1 = (tbl w)(rowid \<mapsto> map_of (zip cols params))" "w' = w1"
        using law Suc.prems c Inr oa by auto
      then show ?thesis using grows_insert [OF _ _ R] R by auto
    next
      case False
      then have "tbl w rowid = Some old" "tbl w1 = tbl w" "w' = w1" "e = None \<longrightarrow> same_record I items old"
        using law Suc.prems c Inr oa by (auto split: if_splits)
      then show ?thesis using grows_same by auto
    qed
  qed
qed

lemma insert_with_rowid_writes:
  assumes "lwt_store (ti_Db I) q cols tbl" "query_ready I items cols q pq"
    and r: "insertDataRecordWithRowid I items rowid pq w = ((need, e), pq', w')" and ok: "e = None \<or> need"
  shows "grows I items tbl w w' \<and> query_ready I items cols q pq' \<and>
    (e = None \<longrightarrow> (\<exists>row. tbl w' rowid = Some row \<and> (stored_record I items rowid row \<or> same_record I items row)))"
proof -
  note rd = assms(2) [unfolded query_ready_def]
  have names: "distinct (map fst items)" "''rowid'' \<notin> fst ` set items" "''batch_idx'' \<notin> fst ` set items" using rd by blast+
  obtain qb vals where pq1: "prepare_data I items pq = (None, \<lparr>pq_Qb = Some qb, pq_Query = q\<rparr>)"
    and inv: "prep_inv (ti_dp I) cols vals (PreparedColumnData qb)" "vals ''batch_idx'' = Some (VInt16 (wm_BatchIdx (ti_Msg I)))"
    and cols: "set cols = insert ''rowid'' (insert ''batch_idx'' (fst ` set items))"
  proof (cases "pq_Qb pq")
    case None
    then obtain qb where qb: "newDataQueryBuilder (ti_dp I) (wm_DataKeyspace (ti_Msg I)) items (wm_BatchIdx (ti_Msg I)) = Inr qb"
      "InsertRunPreparedQuery (tc_Name (ti_TableCreator I)) (wm_RunId (ti_Msg I)) IfNotExistsLwt qb = Inr q"
      "cols = ''rowid'' # ''batch_idx'' # map fst items" using rd by auto
    have "prepare_data I items pq = (None, \<lparr>pq_Qb = Some qb, pq_Query = q\<rparr>)" using None qb by (simp add: prepare_data_def)
    then show ?thesis using that [OF _ new_builder_prepared [OF qb(1), folded qb(3)]] qb(3) by simp
  next
    case (Some qb)
    then obtain vals where v: "prep_inv (ti_dp I) cols vals (PreparedColumnData qb)"
      "vals ''batch_idx'' = Some (VInt16 (wm_BatchIdx (ti_Msg I)))" "pq_Query pq = q"
      "set cols = insert ''rowid'' (insert ''batch_idx'' (fst ` set items))" using rd by auto
    have "prepare_data I items pq = (None, \<lparr>pq_Qb = Some qb, pq_Query = q\<rparr>)"
      using Some v(3) by (cases pq) (simp add: prepare_data_def)
    then show ?thesis using that v by blast
  qed
  obtain qb1 qb2 params where w: "write_values (ti_dp I) items qb = (None, qb1)"
    "WritePreparedValue (ti_dp I) ''rowid'' (VInt64 rowid) qb1 = Inr qb2" "InsertRunParams qb2 = Inr params"
    "data_attempts (ti_MaxDbProblemRetries I) 0 I items q params w = ((need, e), w')" "pq' = \<lparr>pq_Qb = Some qb2, pq_Query = q\<rparr>"
    using r ok unfolding insertDataRecordWithRowid_def pq1
    by (auto split: prod.splits option.splits sum.splits)
  let ?vals = "(vals ++ map_of (rev items))(''rowid'' \<mapsto> VInt64 rowid)"
  have inv2: "prep_inv (ti_dp I) cols ?vals (PreparedColumnData qb2)"
    by (rule value_prepared [OF w(2) values_prepared [OF w(1) inv(1)]])
  have it: "?vals f = Some v" if "(f, v) \<in> set items" for f v
  proof -
    have "f \<noteq> ''rowid''" using names(2) that by force
    moreover have "map_of (rev items) f = Some v" using names(1) that by (intro map_of_is_SomeI) (simp_all add: rev_map [symmetric])
    ultimately show ?thesis by simp
  qed
  have "map_of (rev items) ''batch_idx'' = None" using names(3) by (simp add: map_of_eq_None_iff)
  then have b: "?vals ''batch_idx'' = Some (VInt16 (wm_BatchIdx (ti_Msg I)))" using inv(2) by (simp add: map_add_def)
  have conv: "valueToCqlParam (ti_dp I) (VInt64 n) = VInt64 n" "valueToCqlParam (ti_dp I) (VInt16 n) = VInt16 n" for n
    by (simp_all add: valueToCqlParam_def)
  have R: "stored_record I items rowid (map_of (zip cols params))"
    unfolding stored_record_def
    using params_row [OF inv2 w(3), of "''rowid''"] params_row [OF inv2 w(3) b] params_row [OF inv2 w(3) it] by (auto simp: conv)
  have "\<exists>vals'. prep_inv (ti_dp I) cols vals' (PreparedColumnData qb2) \<and>
      vals' ''batch_idx'' = Some (VInt16 (wm_BatchIdx (ti_Msg I)))" using inv2 b by blast
  then have "query_ready I items cols q pq'" unfolding query_ready_def w(5) using names cols by simp
  then show ?thesis using data_attempts_writes [OF assms(1) R w(4)] by blast
qed

lemma record_attempts_writes:
  assumes s: "lwt_store (ti_Db I) q cols tbl"
  shows "query_ready I items cols q pq \<Longrightarrow> record_attempts k I items rowid pq w = (Inr rowid', pq', w') \<Longrightarrow>
    grows I items tbl w w' \<and> query_ready I items cols q pq' \<and>
    (\<exists>row. tbl w' rowid' = Some row \<and> (stored_record I items rowid' row \<or> same_record I items row))"
proof (induction k arbitrary: rowid pq w)
  case (Suc k)
  obtain need e pq1 w1 where i: "insertDataRecordWithRowid I items rowid pq w = ((need, e), pq1, w1)"
    by (metis surj_pair)
  show ?case
  proof (cases e)
    case None
    then show ?thesis using insert_with_rowid_writes [OF s Suc.prems(1) i] Suc.prems(2) i by (cases need) simp_all
  next
    case (Some err)
    then have need: "need" "k \<noteq> 0" using Suc.prems(2) i by (auto split: bool.splits if_splits)
    obtain rowid1 w2 where d: "db_Int63 (ti_Db I) (db_Seed (ti_Db I) w1) = (rowid1, w2)"
      by (cases "db_Int63 (ti_Db I) (db_Seed (ti_Db I) w1)")
    have rec: "record_attempts k I items rowid1 pq1 w2 = (Inr rowid', pq', w')" using Suc.prems(2) i Some need d by simp
    have first: "grows I items tbl w w1" "query_ready I items cols q pq1"
      using insert_with_rowid_writes [OF s Suc.prems(1) i] need(1) by blast+
    have "tbl w2 = tbl w1" using s d unfolding lwt_store_def by (metis snd_conv)
    then have "grows I items tbl w w2" using grows_trans [OF first(1) grows_same] by blast
    from Suc.IH [OF first(2) rec] grows_trans [OF this] show ?thesis by blast
  qed
qed simp

text \<open>C36: When insertDataRecord returns a rowid, the table has a row under that rowid that holds the
  record: all fields as written, or a row that compares equal field by field. No row that was in the
  table has changed, every row that has been added holds the record, and the prepared query
  is fit for the next record, whatever errors, timeouts and collisions of rowids there have been.\<close>

theorem inserted_record_is_stored:
  assumes "lwt_store (ti_Db I) q cols tbl" "query_ready I items cols q pq"
    "insertDataRecord I items pq w = (Inr rowid, pq', w')"
  shows "(\<exists>row. tbl w' rowid = Some row \<and> (stored_record I items rowid row \<or> same_record I items row)) \<and>
    (\<forall>id row. tbl w id = Some row \<longrightarrow> tbl w' id = Some row) \<and>
    (\<forall>id row. tbl w' id = Some row \<longrightarrow> tbl w id = Some row \<or> stored_record I items id row) \<and>
    query_ready I items cols q pq'"
proof -
  obtain rowid0 w1 where d: "db_Int63 (ti_Db I) w = (rowid0, w1)" by (cases "db_Int63 (ti_Db I) w")
  have same: "tbl w1 = tbl w" using assms(1) d unfolding lwt_store_def by (metis snd_conv)
  have "record_attempts (ti_MaxDuplicateRetries I) I items rowid0 pq w1 = (Inr rowid, pq', w')"
    using assms(3) d unfolding insertDataRecord_def by simp
  from record_attempts_writes [OF assms(1,2) this]
  have r: "grows I items tbl w1 w'" "query_ready I items cols q pq'"
    "\<exists>row. tbl w' rowid = Some row \<and> (stored_record I items rowid row \<or> same_record I items row)" by blast+
  have g: "tbl w' id = tbl w id \<or> tbl w id = None \<and> (\<exists>row. tbl w' id = Some row \<and> stored_record I items id row)" for id
    using r(1) unfolding grows_def same by blast
  have "tbl w' id = Some row" if "tbl w id = Some row" for id row using g [of id] that by auto
  moreover have "tbl w id = Some row \<or> stored_record I items id row" if "tbl w' id = Some row" for id row
    using g [of id] that by auto
  ultimately show ?thesis using r(2,3) by blast
qed


text \<open>A store of rows with a counter for random numbers, in which rowid 0 is taken.\<close>

type_synonym row_store = "(int \<Rightarrow> (int, int) row option) \<times> int"

definition store_columns :: "string list" where "store_columns = [''rowid'', ''batch_idx'', ''name'']"

definition store_db :: "(row_store, int, int) data_db" where
  "store_db = \<lparr>
     db_CAS = (\<lambda>q params w. case map_of (zip store_columns params) ''rowid'' of
         Some (VInt64 r) \<Rightarrow>
           (case fst w r of
              None \<Rightarrow> (Inr (Map.empty, True), ((fst w)(r \<mapsto> map_of (zip store_columns params)), snd w))
            | Some old \<Rightarrow> (Inr (old, False), w))
       | _ \<Rightarrow> (Inl ''bad rowid'', w)),
     db_Insert = (\<lambda>q params w. (None, w)), db_Exec = (\<lambda>q w. (None, w)), db_SliceMap = (\<lambda>q w. (Inr [], w)),
     db_Int63 = (\<lambda>w. (snd w, (fst w, snd w + 1))), db_Seed = (\<lambda>w. w)\<rparr>"

definition store_inserter :: "(row_store, int, int) inserter" where
  "store_inserter = createInserter store_db
     \<lparr>wm_Ts = 0, wm_Id = ''1'', wm_ScriptURL = ''script.json'', wm_ScriptParamsURL = '''', wm_DataKeyspace = ''ks'',
      wm_RunId = 1, wm_TargetNodeName = ''orders'', wm_FirstToken = 0, wm_LastToken = 0, wm_BatchIdx = 0, wm_BatchesTotal = 1\<rparr>
     sample_table False DataIdxSeqModeDataFirst (=) (\<lambda>d. VStr ''dec'') (\<lambda>v. '''')"

definition bolt :: "(int, int) record_items" where "bolt = [(''name'', VStr ''bolt'')]"
definition taken :: row_store where "taken = ([0 \<mapsto> [''rowid'' \<mapsto> VInt64 0, ''name'' \<mapsto> VStr ''nut'']], 0)"

lemma store_db_lwt: "lwt_store store_db q store_columns fst"
  unfolding lwt_store_def by (auto simp: store_db_def split: option.splits)

lemma bolt_stored: "fst (insertDataRecord store_inserter bolt no_query taken) = Inr 1"
  by code_simp

lemma bolt_query:
  "\<exists>q. query_ready store_inserter bolt store_columns q no_query"
proof -
  let ?I = store_inserter
  have "case newDataQueryBuilder (ti_dp ?I) (wm_DataKeyspace (ti_Msg ?I)) bolt (wm_BatchIdx (ti_Msg ?I)) of
      Inl e \<Rightarrow> False
    | Inr qb \<Rightarrow> (case InsertRunPreparedQuery (tc_Name (ti_TableCreator ?I)) (wm_RunId (ti_Msg ?I)) IfNotExistsLwt qb of
        Inl e \<Rightarrow> False | Inr q \<Rightarrow> True)"
    by code_simp
  then obtain qb q where "newDataQueryBuilder (ti_dp ?I) (wm_DataKeyspace (ti_Msg ?I)) bolt (wm_BatchIdx (ti_Msg ?I)) = Inr qb"
    "InsertRunPreparedQuery (tc_Name (ti_TableCreator ?I)) (wm_RunId (ti_Msg ?I)) IfNotExistsLwt qb = Inr q"
    by (auto split: sum.splits)
  then have "query_ready ?I bolt store_columns q no_query"
    by (simp add: query_ready_def bolt_def store_columns_def no_query_def)
  then show ?thesis by blast
qed

lemma inserted_record_is_stored_witness:
  "\<exists>pq' w' row. insertDataRecord store_inserter bolt no_query taken = (Inr 1, pq', w') \<and>
     fst w' 0 = fst taken 0 \<and> fst w' 1 = Some row \<and> row ''name'' = Some (VStr ''bolt'')"
proof -
  obtain pq' w' where r: "insertDataRecord store_inserter bolt no_query taken = (Inr 1, pq', w')"
    using bolt_stored by (metis fst_conv surj_pair)
  obtain q where q: "query_ready store_inserter bolt store_columns q no_query" using bolt_query by blast
  have "ti_Db store_inserter = store_db" by (simp add: store_inserter_def createInserter_def)
  then have s: "lwt_store (ti_Db store_inserter) q store_columns fst" using store_db_lwt by simp
  note t = inserted_record_is_stored [OF s q r]
  obtain row where row: "fst w' 1 = Some row" "stored_record store_inserter bolt 1 row \<or> same_record store_inserter bolt row"
    using t by blast
  then have "row ''name'' = Some (VStr ''bolt'')"
    by (auto simp: stored_record_def same_record_def bolt_def valueToCqlParam_def store_inserter_def createInserter_def
        split: option.splits)
  moreover have "fst w' 0 = fst taken 0" using t by (simp add: taken_def)
  ultimately show ?thesis using r row(1) by blast
qed

subsection \<open>What goes wrong\<close>

text \<open>
  A decimal is written as a Cassandra decimal and reads back as one, which cmp.Equal never finds
  equal to the decimal of the record, their types being different. So when a write has been applied although
  it timed out, the retry does not recognize its own row, asks for another rowid, and the record is in the table twice.
\<close>

lemma applied_timeout_not_recognized:
  assumes "(f, VDec d) \<in> set items" "\<not> ti_Equal I (VDec d) (ti_dp I d)"
    and "db_CAS (ti_Db I) q params w = (Inl ErrorOperationTimedOut, w1)"
    and "db_CAS (ti_Db I) q params w1 = (Inr (row, False), w2)" "stored_record I items rowid row"
  shows "\<exists>e. data_attempts (Suc (Suc k)) 0 I items q params w = ((True, Some e), w2)"
proof -
  have "row f = Some (ti_dp I d)" using assms(1,5) by (auto simp: stored_record_def valueToCqlParam_def)
  then have "\<not> same_record I items row" using assms(1,2) unfolding same_record_def list_all_iff by force
  moreover have "passes ErrorOperationTimedOut" by (simp add: passes_def)
  ultimately show ?thesis using assms(3,4) by simp
qed

text \<open>
  When a distinct table already has the key, the rowid returned is the one just drawn, under which no data
  record has been written; the worker then writes the records of the other indexes with it.
\<close>

lemma known_key_returns_unused_rowid:
  assumes "db_Int63 (ti_Db I) w = (rowid, w1)" "ti_MaxDuplicateRetries I > 0"
    and "insertIdxRecordWithRowid I idxName IdxUnique key rowid piq w1 = (Some ErrDuplicateKey, piq1, w2)"
    and "selectDataRowidByIdxKey I idxName (tc_Name (ti_TableCreator I)) key w2 = (Inr True, w3)"
  shows "insertDistinctIdxAndDataRecords I items idxName key pdq piq w = (Inr rowid, pdq, piq1, w3)"
proof -
  obtain k where "ti_MaxDuplicateRetries I = Suc k" using assms(2) by (cases "ti_MaxDuplicateRetries I") simp_all
  then show ?thesis using assms unfolding insertDistinctIdxAndDataRecords_def by simp
qed

text \<open>One status for each record taken from the channel.\<close>

lemma worker_statuses: "length (fst (worker_loop I items pdq piq w)) = length items"
  by (induction items arbitrary: pdq piq w) (auto split: prod.splits, metis fst_conv)

end
