(* ===== verification/Runs.thy ===== *)
theory Runs
  imports Handler Inserter
begin

text \<open>
  Starting and stopping runs (pkg/api/run.go, with the check of keyspace names in pkg/api/db.go). A state is the
  world of the database and the queue with a journal of what has been done, as in Handler; the queue's producer,
  uuids, the clock and the readiness check of Amazon Keyspaces are calls on the world, in the record
  \<open>run_env\<close>. GetAffectedNodes has fuel, so StartRun has it too: None says that it has not returned.
\<close>

datatype run_act =
    CreatedTable string bool
  | WroteProperties int bool
  | WroteStart int bool
  | SentMessages "wf_message list" bool

record 'w rstate =
  rs_world :: 'w
  rs_journal :: "run_act list"

record ('w, 'f, 'd) run_env =
  ren_session :: "('w, 'f, 'd) session"
  ren_fv :: "('f, 'd) gval \<Rightarrow> string"
  ren_NewScriptFromFiles :: "string \<Rightarrow> string \<Rightarrow> 'w \<Rightarrow> (goerr + script_def) \<times> 'w"
  ren_AmazonKeyspaces :: bool
  ren_VerifyTablesReady :: "string \<Rightarrow> string list \<Rightarrow> 'w \<Rightarrow> goerr option \<times> 'w"
  ren_NewUuid :: "'w \<Rightarrow> string \<times> 'w"
  ren_UnixMilli :: "'w \<Rightarrow> int"
  ren_SupportsSendBulk :: bool
  ren_SendBulk :: "wf_message list \<Rightarrow> 'w \<Rightarrow> goerr option \<times> 'w"
  ren_Send :: "wf_message \<Rightarrow> 'w \<Rightarrow> goerr option \<times> 'w"

type_synonym ('w, 'a) rcall = "'w rstate \<Rightarrow> (goerr + 'a) \<times> 'w rstate"

definition rthen :: "('w, 'a) rcall \<Rightarrow> ('a \<Rightarrow> ('w, 'b) rcall) \<Rightarrow> ('w, 'b) rcall" where
  "rthen f g s = (case f s of (Inl e, s1) \<Rightarrow> (Inl e, s1) | (Inr x, s1) \<Rightarrow> g x s1)"

text \<open>A call that leaves no mark in the journal, and one that does.\<close>

definition rsilent :: "('w \<Rightarrow> (goerr + 'a) \<times> 'w) \<Rightarrow> ('w, 'a) rcall" where
  "rsilent f s = (case f (rs_world s) of (r, w) \<Rightarrow> (r, s\<lparr>rs_world := w\<rparr>))"

definition rmarked :: "(bool \<Rightarrow> run_act) \<Rightarrow> (goerr \<Rightarrow> goerr) \<Rightarrow> ('w \<Rightarrow> goerr option \<times> 'w) \<Rightarrow> ('w, unit) rcall" where
  "rmarked a werr f s =
     (case f (rs_world s) of
        (None, w) \<Rightarrow> (Inr (), \<lparr>rs_world = w, rs_journal = rs_journal s @ [a True]\<rparr>)
      | (Some e, w) \<Rightarrow> (Inl (werr e), \<lparr>rs_world = w, rs_journal = rs_journal s @ [a False]\<rparr>))"

definition rreturn :: "goerr + 'a \<Rightarrow> ('w, 'a) rcall" where "rreturn r s = (r, s)"

fun reach_all :: "('a \<Rightarrow> ('w, unit) rcall) \<Rightarrow> 'a list \<Rightarrow> ('w, unit) rcall" where
  "reach_all f [] = rreturn (Inr ())"
| "reach_all f (x # xs) = rthen (f x) (\<lambda>_. reach_all f xs)"

subsection \<open>Keyspaces\<close>

definition IsSystemKeyspaceName :: "string \<Rightarrow> bool" where
  "IsSystemKeyspaceName keyspace = HasPrefix keyspace ''system''"

definition checkKeyspaceNameAllowed :: "string \<Rightarrow> goerr option" where
  "checkKeyspaceNameAllowed keyspace =
     (if HasPrefix keyspace ''system'' then Some ''invalid keyspace name: prohibited''
      else if keyspace = '''' \<or> \<not> list_all word_char keyspace then Some ''invalid keyspace name: characters not allowed''
      else None)"

definition allowed_keyspace :: "string \<Rightarrow> ('w, unit) rcall" where
  "allowed_keyspace keyspace = rreturn (case checkKeyspaceNameAllowed keyspace of None \<Rightarrow> Inr () | Some e \<Rightarrow> Inl e)"

definition StopRun ::
  "('w, 'f, 'd) run_env \<Rightarrow> string \<Rightarrow> int \<Rightarrow> string \<Rightarrow> 'w \<Rightarrow> goerr option \<times> 'w" where
  "StopRun E keyspace runId comment w =
     (case checkKeyspaceNameAllowed keyspace of
        Some e \<Rightarrow> (Some e, w)
      | None \<Rightarrow> SetRunStatus (ren_session E) (ren_fv E) keyspace runId RunStop comment w)"

subsection \<open>Tables and messages of a run\<close>

definition missing_nodes :: "script_def \<Rightarrow> string list \<Rightarrow> string list" where
  "missing_nodes script startNodes = filter (\<lambda>n. map_of (sd_ScriptNodes script) n = None) startNodes"

text \<open>The statements that create the tables of the affected nodes, with the names of the tables.\<close>

definition node_tables :: "string \<Rightarrow> int \<Rightarrow> script_node \<Rightarrow> (string \<times> string) list" where
  "node_tables keyspace runId node =
     (if \<not> HasTableCreator node then []
      else (let tc = sn_TableCreator node in
            (tc_Name tc @ RunIdSuffix runId, CreateDataTableCql keyspace runId tc) #
            map (\<lambda>(idxName, idxDef). (idxName @ RunIdSuffix runId, CreateIdxTableCql keyspace runId idxName idxDef tc))
              (tc_Indexes tc)))"

definition run_tables :: "string \<Rightarrow> int \<Rightarrow> script_def \<Rightarrow> string list \<Rightarrow> (string \<times> string) list" where
  "run_tables keyspace runId script affected =
     concat (map (\<lambda>n. case map_of (sd_ScriptNodes script) n of None \<Rightarrow> [] | Some node \<Rightarrow> node_tables keyspace runId node) affected)"

definition create_table :: "('w, 'f, 'd) run_env \<Rightarrow> string \<times> string \<Rightarrow> ('w, unit) rcall" where
  "create_table E t =
     rmarked (CreatedTable (fst t)) (WrapDbErrorWithQuery ''cannot create table'' (snd t)) (s_Exec (ren_session E) (snd t))"

text \<open>The messages for the intervals of a node, numbered from \<open>i\<close>.\<close>

fun node_messages ::
  "('w, 'f, 'd) run_env \<Rightarrow> string \<Rightarrow> string \<Rightarrow> string \<Rightarrow> int \<Rightarrow> string \<Rightarrow> int \<Rightarrow> nat \<Rightarrow> (int \<times> int) list \<Rightarrow> 'w \<Rightarrow>
     wf_message list \<times> 'w" where
  "node_messages E url params keyspace runId nodeName batches i [] w = ([], w)"
| "node_messages E url params keyspace runId nodeName batches i ((tok0, tok1) # ivs) w =
     (case ren_NewUuid E w of
        (uuid, w1) \<Rightarrow>
          (case node_messages E url params keyspace runId nodeName batches (i + 1) ivs w1 of
             (msgs, w2) \<Rightarrow>
               (\<lparr>wm_Ts = ren_UnixMilli E w1, wm_Id = int_str0 6 (int i) @ ''-'' @ uuid, wm_ScriptURL = url,
                 wm_ScriptParamsURL = params, wm_DataKeyspace = keyspace, wm_RunId = runId, wm_TargetNodeName = nodeName,
                 wm_FirstToken = tok0, wm_LastToken = tok1, wm_BatchIdx = wrap16 (int i),
                 wm_BatchesTotal = wrap16 batches\<rparr> # msgs, w2)))"

fun run_messages ::
  "('w, 'f, 'd) run_env \<Rightarrow> string \<Rightarrow> string \<Rightarrow> string \<Rightarrow> int \<Rightarrow> script_def \<Rightarrow> string list \<Rightarrow> 'w \<Rightarrow>
     (goerr + wf_message list) \<times> 'w" where
  "run_messages E url params keyspace runId script [] w = (Inr [], w)"
| "run_messages E url params keyspace runId script (n # ns) w =
     (case map_of (sd_ScriptNodes script) n of
        None \<Rightarrow> (Inl (''cannot find node to start with: '' @ n), w)
      | Some node \<Rightarrow>
          (case GetTokenIntervalsByNumberOfBatches node of
             Inl e \<Rightarrow> (Inl e, w)
           | Inr ivs \<Rightarrow>
               (case node_messages E url params keyspace runId n (int (length ivs)) 0 ivs w of
                  (msgs, w1) \<Rightarrow>
                    (case run_messages E url params keyspace runId script ns w1 of
                       (Inl e, w2) \<Rightarrow> (Inl e, w2)
                     | (Inr rest, w2) \<Rightarrow> (Inr (msgs @ rest), w2)))))"

definition send_messages :: "('w, 'f, 'd) run_env \<Rightarrow> wf_message list \<Rightarrow> ('w, unit) rcall" where
  "send_messages E msgs =
     (if ren_SupportsSendBulk E then rmarked (SentMessages msgs) (\<lambda>e. ''failed to send messages: '' @ e) (ren_SendBulk E msgs)
      else reach_all (\<lambda>m. rmarked (SentMessages [m]) (\<lambda>e. ''failed to send next message: '' @ e) (ren_Send E m)) msgs)"

subsection \<open>Starting a run\<close>

text \<open>The run once its id and its affected nodes are known, in two halves: up to the start status, and the messages.\<close>

definition prepare_run ::
  "('w, 'f, 'd) run_env \<Rightarrow> string \<Rightarrow> string \<Rightarrow> string \<Rightarrow> string list \<Rightarrow> string \<Rightarrow> script_def \<Rightarrow> int \<Rightarrow> string list \<Rightarrow>
     ('w, wf_message list) rcall" where
  "prepare_run E url params keyspace startNodes desc script runId affected =
     rthen (rmarked (WroteProperties runId) id
              (WriteRunProperties (ren_session E) (ren_fv E) keyspace runId startNodes affected url params desc)) (\<lambda>_.
     rthen (reach_all (create_table E) (run_tables keyspace runId script affected)) (\<lambda>_.
     rthen (if ren_AmazonKeyspaces E
            then rsilent (\<lambda>w. case ren_VerifyTablesReady E keyspace (map fst (run_tables keyspace runId script affected)) w of
                                (None, w1) \<Rightarrow> (Inr (), w1) | (Some e, w1) \<Rightarrow> (Inl e, w1))
            else rreturn (Inr ())) (\<lambda>_.
     rsilent (run_messages E url params keyspace runId script affected))))"

definition launch_run ::
  "('w, 'f, 'd) run_env \<Rightarrow> string \<Rightarrow> string \<Rightarrow> string \<Rightarrow> string list \<Rightarrow> string \<Rightarrow> script_def \<Rightarrow> int \<Rightarrow> string list \<Rightarrow>
     ('w, int) rcall" where
  "launch_run E url params keyspace startNodes desc script runId affected =
     rthen (prepare_run E url params keyspace startNodes desc script runId affected) (\<lambda>msgs.
     rthen (rmarked (WroteStart runId) id
              (SetRunStatus (ren_session E) (ren_fv E) keyspace runId RunStart ''api.StartRun'')) (\<lambda>_.
     rthen (send_messages E msgs) (\<lambda>_. rreturn (Inr runId))))"

definition StartRun ::
  "nat \<Rightarrow> ('w, 'f, 'd) run_env \<Rightarrow> string \<Rightarrow> string \<Rightarrow> string \<Rightarrow> string list \<Rightarrow> string \<Rightarrow> 'w rstate \<Rightarrow>
     ((goerr + int) \<times> 'w rstate) option" where
  "StartRun fuel E url params keyspace startNodes desc s =
     (case rthen (allowed_keyspace keyspace) (\<lambda>_.
           rthen (rsilent (ren_NewScriptFromFiles E url params)) (\<lambda>script.
           rthen (rreturn (if missing_nodes script startNodes \<noteq> []
                           then Inl (''node(s) '' @ Join (missing_nodes script startNodes) '','' @ '' missing'') else Inr ())) (\<lambda>_.
           rthen (rsilent (GetNextRunCounter (ren_session E) (ren_fv E) keyspace)) (\<lambda>runId.
           rreturn (Inr (script, runId)))))) s of
        (Inl e, s1) \<Rightarrow> Some (Inl e, s1)
      | (Inr (script, runId), s1) \<Rightarrow>
          (case GetAffectedNodes fuel (sd_ScriptNodes script) startNodes of
             None \<Rightarrow> None
           | Some affected \<Rightarrow> Some (launch_run E url params keyspace startNodes desc script runId affected s1)))"

subsection \<open>What is sent, and when\<close>

text \<open>What a call adds to the journal when it fails and when it returns a value.\<close>

definition rleaves :: "('w, 'a) rcall \<Rightarrow> (run_act list \<Rightarrow> bool) \<Rightarrow> ('a \<Rightarrow> run_act list \<Rightarrow> bool) \<Rightarrow> bool" where
  "rleaves f P Q \<longleftrightarrow> (\<forall>s r s'. f s = (r, s') \<longrightarrow>
     (\<exists>es. rs_journal s' = rs_journal s @ es \<and> (case r of Inl _ \<Rightarrow> P es | Inr x \<Rightarrow> Q x es)))"

lemma rleavesD: "rleaves f P Q \<Longrightarrow> f s = (r, s') \<Longrightarrow>
    \<exists>es. rs_journal s' = rs_journal s @ es \<and> (case r of Inl _ \<Rightarrow> P es | Inr x \<Rightarrow> Q x es)"
  by (simp add: rleaves_def)

lemma rleaves_mono:
  assumes "rleaves f P Q" "\<And>es. P es \<Longrightarrow> P' es" "\<And>x es. Q x es \<Longrightarrow> Q' x es"
  shows "rleaves f P' Q'"
  unfolding rleaves_def
proof (intro allI impI)
  fix s :: "'a rstate" and r s'
  assume "f s = (r, s')"
  then obtain es where "rs_journal s' = rs_journal s @ es" "case r of Inl _ \<Rightarrow> P es | Inr x \<Rightarrow> Q x es"
    using rleavesD [OF assms(1)] by blast
  then show "\<exists>es. rs_journal s' = rs_journal s @ es \<and> (case r of Inl _ \<Rightarrow> P' es | Inr x \<Rightarrow> Q' x es)"
    using assms(2,3) by (cases r) auto
qed

lemma rleaves_then:
  assumes "rleaves f P Q" "\<And>x. rleaves (g x) (P' x) (Q' x)"
  shows "rleaves (rthen f g) (\<lambda>es. P es \<or> (\<exists>x as bs. es = as @ bs \<and> Q x as \<and> P' x bs))
    (\<lambda>y es. \<exists>x as bs. es = as @ bs \<and> Q x as \<and> Q' x y bs)"
  unfolding rleaves_def
proof (intro allI impI)
  fix s :: "'a rstate" and r s'
  assume r: "rthen f g s = (r, s')"
  obtain q s1 where f: "f s = (q, s1)" by (cases "f s")
  obtain es1 where es1: "rs_journal s1 = rs_journal s @ es1" "case q of Inl _ \<Rightarrow> P es1 | Inr x \<Rightarrow> Q x es1"
    using rleavesD [OF assms(1) f] by blast
  show "\<exists>es. rs_journal s' = rs_journal s @ es \<and> (case r of Inl _ \<Rightarrow> P es \<or> (\<exists>x as bs. es = as @ bs \<and> Q x as \<and> P' x bs)
      | Inr y \<Rightarrow> \<exists>x as bs. es = as @ bs \<and> Q x as \<and> Q' x y bs)"
  proof (cases q)
    case (Inl e)
    then show ?thesis using r f es1 by (intro exI [of _ es1]) (auto simp: rthen_def)
  next
    case (Inr x)
    then have g: "g x s1 = (r, s')" using r f by (simp add: rthen_def)
    obtain es2 where "rs_journal s' = rs_journal s1 @ es2" "case r of Inl _ \<Rightarrow> P' x es2 | Inr y \<Rightarrow> Q' x y es2"
      using rleavesD [OF assms(2) g] by blast
    then show ?thesis using es1 Inr by (intro exI [of _ "es1 @ es2"]) (auto split: sum.splits)
  qed
qed

lemma rleaves_silent: "rleaves (rsilent f) (\<lambda>es. es = []) (\<lambda>x es. es = [] \<and> (\<exists>w w'. f w = (Inr x, w')))"
  unfolding rleaves_def rsilent_def by (auto split: prod.splits sum.splits)

lemma rleaves_return: "rleaves (rreturn r) (\<lambda>es. es = []) (\<lambda>x es. es = [] \<and> r = Inr x)"
  unfolding rleaves_def rreturn_def by (auto split: sum.splits)

lemma rleaves_marked: "rleaves (rmarked a e f) (\<lambda>es. es = [a False]) (\<lambda>_ es. es = [a True])"
  unfolding rleaves_def rmarked_def by (auto split: prod.splits option.splits)

text \<open>The messages that the journal shows as sent.\<close>

definition sent_messages :: "run_act list \<Rightarrow> wf_message list" where
  "sent_messages es = concat (map (\<lambda>a. case a of SentMessages ms True \<Rightarrow> ms | _ \<Rightarrow> []) es)"

definition sends :: "run_act \<Rightarrow> bool" where
  "sends a \<longleftrightarrow> (\<exists>ms ok. a = SentMessages ms ok)"

lemma sends_simps [simp]:
  "sends (SentMessages ms ok)" "\<not> sends (CreatedTable n ok)" "\<not> sends (WroteProperties i ok)" "\<not> sends (WroteStart i ok)"
  by (simp_all add: sends_def)

lemma sent_append: "sent_messages (as @ bs) = sent_messages as @ sent_messages bs"
  by (simp add: sent_messages_def)

lemma sent_none: "\<forall>a\<in>set es. \<not> sends a \<Longrightarrow> sent_messages es = []"
  unfolding sent_messages_def by (auto simp: sends_def split: run_act.splits)

lemma tables_leave:
  "rleaves (reach_all (create_table E) ts) (\<lambda>es. \<forall>a\<in>set es. \<not> sends a) (\<lambda>_ es. es = map (\<lambda>t. CreatedTable (fst t) True) ts)"
proof (induction ts)
  case Nil
  show ?case using rleaves_mono [OF rleaves_return] by (simp add: rleaves_def rreturn_def)
next
  case (Cons t ts)
  have "rleaves (create_table E t) (\<lambda>es. es = [CreatedTable (fst t) False]) (\<lambda>_ es. es = [CreatedTable (fst t) True])"
    unfolding create_table_def by (rule rleaves_marked)
  from rleaves_then [OF this Cons.IH] show ?case unfolding reach_all.simps by (rule rleaves_mono) auto
qed

lemma sending_leaves:
  "rleaves (send_messages E msgs) (\<lambda>es. \<forall>a\<in>set es. \<exists>ms ok. a = SentMessages ms ok \<and> set ms \<subseteq> set msgs)
     (\<lambda>_ es. (\<forall>a\<in>set es. \<exists>ms. a = SentMessages ms True \<and> set ms \<subseteq> set msgs) \<and> sent_messages es = msgs)"
proof (cases "ren_SupportsSendBulk E")
  case True
  then have e: "send_messages E msgs =
      rmarked (SentMessages msgs) (\<lambda>e. ''failed to send messages: '' @ e) (ren_SendBulk E msgs)" by (simp only: send_messages_def if_True)
  show ?thesis unfolding e by (rule rleaves_mono [OF rleaves_marked]) (auto simp: sent_messages_def)
next
  case False
  let ?f = "\<lambda>m. rmarked (SentMessages [m]) (\<lambda>e. ''failed to send next message: '' @ e) (ren_Send E m)"
  have "rleaves (reach_all ?f ms) (\<lambda>es. \<forall>a\<in>set es. \<exists>m\<in>set ms. a = SentMessages [m] True \<or> a = SentMessages [m] False)
      (\<lambda>_ es. es = map (\<lambda>m. SentMessages [m] True) ms)" for ms
  proof (induction ms)
    case Nil
    show ?case by (simp add: rleaves_def rreturn_def)
  next
    case (Cons m ms)
    have "rleaves (?f m) (\<lambda>es. es = [SentMessages [m] False]) (\<lambda>_ es. es = [SentMessages [m] True])" by (rule rleaves_marked)
    from rleaves_then [OF this Cons.IH] show ?case unfolding reach_all.simps by (rule rleaves_mono) auto
  qed
  note all = this [of msgs]
  have e: "send_messages E msgs = reach_all ?f msgs" using False by (simp only: send_messages_def if_False)
  have sub: "\<exists>ms ok. a = SentMessages ms ok \<and> set ms \<subseteq> set msgs"
    if h: "\<forall>a\<in>set es. \<exists>m\<in>set msgs. a = SentMessages [m] True \<or> a = SentMessages [m] False" "a \<in> set es" for a es
  proof -
    obtain m ok where "m \<in> set msgs" "a = SentMessages [m] ok" using h by blast
    then show ?thesis by (intro exI [of _ "[m]"] exI [of _ ok]) simp
  qed
  have "sent_messages (map (\<lambda>m. SentMessages [m] True) ms) = ms" for ms by (induction ms) (simp_all add: sent_messages_def)
  moreover have "\<exists>ms. a = SentMessages ms True \<and> set ms \<subseteq> set msgs" if "a \<in> (\<lambda>m. SentMessages [m] True) ` set msgs" for a
    using that by (elim imageE) (intro exI [of _ "[_]"], simp)
  ultimately show ?thesis unfolding e by (intro rleaves_mono [OF all]) (use sub in blast, simp)
qed

text \<open>The intervals that the batches of a run read, node by node.\<close>

definition batch_intervals :: "script_def \<Rightarrow> string \<Rightarrow> (int \<times> int) list" where
  "batch_intervals script n =
     (case map_of (sd_ScriptNodes script) n of
        None \<Rightarrow> []
      | Some node \<Rightarrow> (case GetTokenIntervalsByNumberOfBatches node of Inl e \<Rightarrow> [] | Inr ivs \<Rightarrow> ivs))"

definition batches_of :: "int \<Rightarrow> script_def \<Rightarrow> string \<Rightarrow> (int \<times> string \<times> int \<times> int \<times> int \<times> int) list" where
  "batches_of runId script n =
     (let ivs = batch_intervals script n in
      map (\<lambda>i. (runId, n, fst (ivs ! i), snd (ivs ! i), wrap16 (int i), wrap16 (int (length ivs)))) [0..<length ivs])"

definition batch_of_message :: "wf_message \<Rightarrow> int \<times> string \<times> int \<times> int \<times> int \<times> int" where
  "batch_of_message m =
     (wm_RunId m, wm_TargetNodeName m, wm_FirstToken m, wm_LastToken m, wm_BatchIdx m, wm_BatchesTotal m)"

lemma node_messages_batches:
  "node_messages E url params ks runId n batches i ivs w = (msgs, w') \<Longrightarrow>
     map batch_of_message msgs =
     map (\<lambda>j. (runId, n, fst (ivs ! j), snd (ivs ! j), wrap16 (int (i + j)), wrap16 batches)) [0..<length ivs]"
proof (induction ivs arbitrary: i w w' msgs)
  case (Cons iv ivs)
  obtain t0 t1 where iv: "iv = (t0, t1)" by (cases iv)
  obtain u w1 where u: "ren_NewUuid E w = (u, w1)" by (cases "ren_NewUuid E w")
  obtain ms w2 where ms: "node_messages E url params ks runId n batches (Suc i) ivs w1 = (ms, w2)"
    by (cases "node_messages E url params ks runId n batches (Suc i) ivs w1")
  have upt: "[0..<length (iv # ivs)] = 0 # map Suc [0..<length ivs]" by (simp add: map_Suc_upt upt_conv_Cons del: upt_Suc)
  have "map batch_of_message msgs = (runId, n, t0, t1, wrap16 (int i), wrap16 batches) # map batch_of_message ms"
    using Cons.prems by (auto simp: iv u ms batch_of_message_def)
  then show ?case unfolding upt Cons.IH [OF ms] by (simp add: iv o_def algebra_simps)
qed simp

lemma run_messages_batches:
  "run_messages E url params ks runId script ns w = (Inr msgs, w') \<Longrightarrow>
     map batch_of_message msgs = concat (map (batches_of runId script) ns)"
proof (induction ns arbitrary: w w' msgs)
  case (Cons n ns)
  obtain node ivs where n: "map_of (sd_ScriptNodes script) n = Some node" "GetTokenIntervalsByNumberOfBatches node = Inr ivs"
    using Cons.prems by (auto split: option.splits sum.splits)
  obtain ms w1 where ms: "node_messages E url params ks runId n (int (length ivs)) 0 ivs w = (ms, w1)"
    by (cases "node_messages E url params ks runId n (int (length ivs)) 0 ivs w")
  obtain rest w2 where rest: "run_messages E url params ks runId script ns w1 = (Inr rest, w2)" "msgs = ms @ rest"
    using Cons.prems n ms by (auto split: prod.splits sum.splits)
  have "map batch_of_message ms = batches_of runId script n"
    unfolding node_messages_batches [OF ms] batches_of_def batch_intervals_def by (simp add: n Let_def)
  then show ?case using Cons.IH [OF rest(1)] rest(2) by simp
qed simp

lemma prepare_leaves:
  "rleaves (prepare_run E url params ks startNodes desc script runId affected) (\<lambda>es. \<forall>a\<in>set es. \<not> sends a)
     (\<lambda>msgs es. es = WroteProperties runId True # map (\<lambda>t. CreatedTable (fst t) True) (run_tables ks runId script affected) \<and>
        map batch_of_message msgs = concat (map (batches_of runId script) affected))"
proof -
  let ?verify = "if ren_AmazonKeyspaces E
      then rsilent (\<lambda>w. case ren_VerifyTablesReady E ks (map fst (run_tables ks runId script affected)) w of
                          (None, w1) \<Rightarrow> (Inr (), w1) | (Some e, w1) \<Rightarrow> (Inl e, w1))
      else rreturn (Inr ())"
  have v: "rleaves ?verify (\<lambda>es. es = []) (\<lambda>_ es. es = [])"
    using rleaves_mono [OF rleaves_silent] rleaves_mono [OF rleaves_return] by (auto simp: rleaves_def rreturn_def rsilent_def split: prod.splits)
  show ?thesis unfolding prepare_run_def
    by (rule rleaves_mono [OF rleaves_then [OF rleaves_marked rleaves_then [OF tables_leave rleaves_then [OF v rleaves_silent]]]])
      (auto dest: run_messages_batches)
qed

text \<open>Nothing is sent before the tables are there and the start of the run is written; then only its batches are.\<close>

definition launched :: "string \<Rightarrow> script_def \<Rightarrow> int \<Rightarrow> string list \<Rightarrow> run_act list \<Rightarrow> bool" where
  "launched ks script runId affected as \<longleftrightarrow>
     (\<forall>a\<in>set as. \<not> sends a) \<and> WroteStart runId True \<in> set as \<and> WroteProperties runId True \<in> set as \<and>
     (\<forall>t\<in>set (run_tables ks runId script affected). CreatedTable (fst t) True \<in> set as)"

definition only_batches :: "int \<Rightarrow> script_def \<Rightarrow> string list \<Rightarrow> run_act list \<Rightarrow> bool" where
  "only_batches runId script affected bs \<longleftrightarrow>
     (\<forall>a\<in>set bs. \<exists>ms ok. a = SentMessages ms ok \<and>
        batch_of_message ` set ms \<subseteq> set (concat (map (batches_of runId script) affected)))"

lemma launch_leaves:
  "rleaves (launch_run E url params ks startNodes desc script runId affected)
     (\<lambda>es. (\<forall>a\<in>set es. \<not> sends a) \<or>
        (\<exists>as bs. es = as @ bs \<and> launched ks script runId affected as \<and> only_batches runId script affected bs))
     (\<lambda>r es. r = runId \<and> (\<exists>as bs. es = as @ bs \<and> launched ks script runId affected as \<and> only_batches runId script affected bs \<and>
          map batch_of_message (sent_messages bs) = concat (map (batches_of runId script) affected)))"
proof -
  let ?prep = "WroteProperties runId True # map (\<lambda>t. CreatedTable (fst t) True) (run_tables ks runId script affected)"
  have l: "launched ks script runId affected (?prep @ [WroteStart runId True])" unfolding launched_def by auto
  have o: "only_batches runId script affected bs" if "map batch_of_message msgs = concat (map (batches_of runId script) affected)"
    "\<forall>a\<in>set bs. \<exists>ms ok. a = SentMessages ms ok \<and> set ms \<subseteq> set msgs" for msgs bs
    unfolding only_batches_def that(1) [symmetric] using that(2) by fastforce
  show ?thesis unfolding launch_run_def
  proof (rule rleaves_mono [OF rleaves_then [OF prepare_leaves rleaves_then [OF rleaves_marked rleaves_then [OF sending_leaves rleaves_return]]]],
      goal_cases)
    case (1 es)
    then show ?case
    proof (elim disjE exE conjE, goal_cases)
      case 1
      then show ?case by blast
    next
      case (2 msgs as bs)
      then show ?case by auto
    next
      case (3 msgs as bs x as' bs')
      then have "es = (?prep @ [WroteStart runId True]) @ bs'" by simp
      then show ?case using l o [OF 3(3) 3(6)] by blast
    next
      case (4 msgs as bs x as' bs' y as'' bs'')
      then have "es = (?prep @ [WroteStart runId True]) @ as''" by simp
      moreover have "\<forall>a\<in>set as''. \<exists>ms ok. a = SentMessages ms ok \<and> set ms \<subseteq> set msgs" using 4 by blast
      ultimately show ?case using l o [OF 4(3)] by blast
    qed
  next
    case (2 x es)
    then obtain msgs bs where b: "es = (?prep @ [WroteStart runId True]) @ bs" "x = runId"
      "map batch_of_message msgs = concat (map (batches_of runId script) affected)"
      "\<forall>a\<in>set bs. \<exists>ms. a = SentMessages ms True \<and> set ms \<subseteq> set msgs" "sent_messages bs = msgs" by force
    have "\<forall>a\<in>set bs. \<exists>ms ok. a = SentMessages ms ok \<and> set ms \<subseteq> set msgs" using b(4) by blast
    then show ?case using l o [OF b(3)] b(1,2,3,5) by blast
  qed
qed


lemma after_all:
  "pre @ a # post = as @ bs \<Longrightarrow> a \<notin> set as \<Longrightarrow> \<exists>us. pre = as @ us \<and> bs = us @ a # post"
  by (auto simp: append_eq_append_conv2 append_eq_Cons_conv Cons_eq_append_conv)

text \<open>The journal of a run whose launch may have been reached: what StartRun leaves, stated over the whole journal.\<close>

definition run_journal :: "string \<Rightarrow> int \<Rightarrow> script_def \<Rightarrow> string list \<Rightarrow> string + int \<Rightarrow> run_act list \<Rightarrow> bool" where
  "run_journal ks runId script affected r es \<longleftrightarrow> (case r of
     Inl _ \<Rightarrow> (\<forall>a\<in>set es. \<not> sends a) \<or>
       (\<exists>as bs. es = as @ bs \<and> launched ks script runId affected as \<and> only_batches runId script affected bs)
   | Inr x \<Rightarrow> x = runId \<and> (\<exists>as bs. es = as @ bs \<and> launched ks script runId affected as \<and>
       only_batches runId script affected bs \<and>
       map batch_of_message (sent_messages bs) = concat (map (batches_of runId script) affected)))"

lemma run_journal_before:
  assumes "run_journal ks runId script affected r es" "es = pre @ SentMessages msgs ok # post"
  shows "WroteProperties runId True \<in> set pre" "WroteStart runId True \<in> set pre"
    "\<forall>t\<in>set (run_tables ks runId script affected). CreatedTable (fst t) True \<in> set pre"
    "batch_of_message ` set msgs \<subseteq> set (concat (map (batches_of runId script) affected))"
proof -
  have "\<not> (\<forall>a\<in>set es. \<not> sends a)" unfolding assms(2) by auto
  then obtain as bs where ab: "es = as @ bs" "launched ks script runId affected as" "only_batches runId script affected bs"
    using assms(1) unfolding run_journal_def by (cases r) auto
  have "SentMessages msgs ok \<notin> set as" using ab(2) unfolding launched_def by auto
  then obtain us where us: "pre = as @ us" "bs = us @ SentMessages msgs ok # post" using after_all assms(2) ab(1) by metis
  show "WroteProperties runId True \<in> set pre" "WroteStart runId True \<in> set pre"
    "\<forall>t\<in>set (run_tables ks runId script affected). CreatedTable (fst t) True \<in> set pre"
    using ab(2) unfolding us(1) launched_def by auto
  have "SentMessages msgs ok \<in> set bs" unfolding us(2) by simp
  then show "batch_of_message ` set msgs \<subseteq> set (concat (map (batches_of runId script) affected))"
    using ab(3) unfolding only_batches_def by blast
qed

lemma run_journal_all:
  assumes "run_journal ks runId script affected (Inr x) es"
  shows "x = runId" "map batch_of_message (sent_messages es) = concat (map (batches_of runId script) affected)"
proof -
  obtain as bs where ab: "es = as @ bs" "launched ks script runId affected as" "x = runId"
    "map batch_of_message (sent_messages bs) = concat (map (batches_of runId script) affected)"
    using assms unfolding run_journal_def by auto
  have "sent_messages as = []" using ab(2) sent_none unfolding launched_def by blast
  then show "x = runId" "map batch_of_message (sent_messages es) = concat (map (batches_of runId script) affected)"
    using ab by (simp_all add: sent_append)
qed

lemma StartRun_journal:
  assumes "StartRun fuel E url params ks startNodes desc \<lparr>rs_world = w, rs_journal = []\<rparr> = Some (r, s)"
  obtains e where "r = Inl e" "rs_journal s = []"
  | script runId affected where "fst (ren_NewScriptFromFiles E url params w) = Inr script"
      "GetAffectedNodes fuel (sd_ScriptNodes script) startNodes = Some affected"
      "run_journal ks runId script affected r (rs_journal s)"
proof -
  let ?s0 = "\<lparr>rs_world = w, rs_journal = []\<rparr>"
  let ?check = "\<lambda>script. rreturn (if missing_nodes script startNodes \<noteq> []
      then Inl (''node(s) '' @ Join (missing_nodes script startNodes) '','' @ '' missing'') else Inr ())"
  let ?head = "rthen (allowed_keyspace ks) (\<lambda>_. rthen (rsilent (ren_NewScriptFromFiles E url params)) (\<lambda>script.
      rthen (?check script) (\<lambda>_. rthen (rsilent (GetNextRunCounter (ren_session E) (ren_fv E) ks)) (\<lambda>runId.
        rreturn (Inr (script, runId))))))"
  obtain q s1 where h: "?head ?s0 = (q, s1)" by (cases "?head ?s0")
  have head: "rs_journal s1 = []" "\<And>script runId. q = Inr (script, runId) \<Longrightarrow> fst (ren_NewScriptFromFiles E url params w) = Inr script"
    using h unfolding rthen_def allowed_keyspace_def rreturn_def rsilent_def by (auto split: prod.splits sum.splits if_splits)
  show thesis
  proof (cases q)
    case (Inl e)
    then have "s = s1" "r = Inl e" using assms h unfolding StartRun_def by auto
    then show ?thesis using head(1) that(1) by simp
  next
    case (Inr p)
    obtain script runId where p: "p = (script, runId)" by (cases p)
    obtain affected where a: "GetAffectedNodes fuel (sd_ScriptNodes script) startNodes = Some affected"
      and l: "launch_run E url params ks startNodes desc script runId affected s1 = (r, s)"
      using assms h Inr p unfolding StartRun_def by (auto split: option.splits)
    have "run_journal ks runId script affected r (rs_journal s)"
      using rleavesD [OF launch_leaves l] unfolding head(1) run_journal_def by auto
    then show ?thesis using that(2) head(2) [OF Inr [unfolded p]] a by blast
  qed
qed


text \<open>A script with one node that reads two files, and a database and a queue that accept everything.\<close>

definition two_files :: script_def where
  "two_files = \<lparr>sd_ScriptNodes = [(''read_orders'', sample_node\<lparr>sn_Name := ''read_orders'', sn_Type := NodeTypeFileTable,
       sn_FileReader := sample_file_reader\<lparr>frd_SrcFileUrls := [''a.csv'', ''b.csv'']\<rparr>\<rparr>)],
     sd_RawDependencyPolicies = [], sd_TableCreatorNodeMap = [], sd_IndexNodeMap = []\<rparr>"

definition accepting_env :: "(unit, int, int) run_env" where
  "accepting_env = \<lparr>
     ren_session = \<lparr>s_Exec = (\<lambda>q w. (None, w)), s_SliceMap = (\<lambda>q w. (Inr [Map.empty(''last_run'' \<mapsto> VInt64 0)], w)),
       s_MapScanCAS = (\<lambda>q w. (Inr True, w))\<rparr>,
     ren_fv = (\<lambda>v. ''''), ren_NewScriptFromFiles = (\<lambda>u p w. (Inr two_files, w)), ren_AmazonKeyspaces = False,
     ren_VerifyTablesReady = (\<lambda>k t w. (None, w)), ren_NewUuid = (\<lambda>w. (''uuid'', w)), ren_UnixMilli = (\<lambda>w. 0),
     ren_SupportsSendBulk = False, ren_SendBulk = (\<lambda>ms w. (None, w)), ren_Send = (\<lambda>m w. (None, w))\<rparr>"

lemma two_files_affected: "GetAffectedNodes 3 (sd_ScriptNodes two_files) [''read_orders''] = Some [''read_orders'']"
  by code_simp

lemma two_files_batches:
  "concat (map (batches_of 1 two_files) [''read_orders'']) = [(1, ''read_orders'', 0, 0, 0, 2), (1, ''read_orders'', 1, 1, 1, 2)]"
  by code_simp

lemma reach_all_ok: "(\<And>x s. \<exists>s'. f x s = (Inr (), s')) \<Longrightarrow> \<exists>s'. reach_all f xs s = (Inr (), s')"
  by (induction xs arbitrary: s) (simp_all add: rreturn_def rthen_def, metis (mono_tags, lifting) prod.case sum.case(2))

lemma accepting_run:
  "\<exists>s. StartRun 3 accepting_env ''script.json'' '''' ''ks'' [''read_orders''] '''' \<lparr>rs_world = (), rs_journal = []\<rparr> = Some (Inr 1, s)"
proof -
  let ?E = accepting_env
  have w: "wrap64 1 = 1" "wrap16 1 = 1" by (simp_all add: wrap_id in_range_def)
  have "counter_attempts (Suc 99) (ren_session ?E) (ren_fv ?E) ''ks'' () = (Inr 1, ())"
    unfolding counter_attempts.simps by (simp add: accepting_env_def read_counter_def rows_of_def int_of_gval_def set_counter_def w)
  then have c: "GetNextRunCounter (ren_session ?E) (ren_fv ?E) ''ks'' () = (Inr 1, ())"
    by (simp add: GetNextRunCounter_def eval_nat_numeral)
  have n: "ren_NewScriptFromFiles ?E ''script.json'' '''' () = (Inr two_files, ())" by (simp add: accepting_env_def)
  have k: "checkKeyspaceNameAllowed ''ks'' = None" by code_simp
  have m: "missing_nodes two_files [''read_orders''] = []" by (simp add: missing_nodes_def two_files_def)
  have "case run_messages ?E ''script.json'' '''' ''ks'' 1 two_files [''read_orders''] () of (Inr ms, w) \<Rightarrow> True | _ \<Rightarrow> False"
    by code_simp
  then obtain msgs where g: "run_messages ?E ''script.json'' '''' ''ks'' 1 two_files [''read_orders''] () = (Inr msgs, ())"
    by (auto split: prod.splits sum.splits)
  have p: "\<exists>s'. rmarked a e (\<lambda>w. (None, w)) s = (Inr (), s')" for a e and s :: "unit rstate" by (simp add: rmarked_def)
  have x: "s_Exec (ren_session ?E) q = (\<lambda>w. (None, w))" for q by (simp add: accepting_env_def)
  have props: "\<exists>s'. rmarked (WroteProperties 1) id (WriteRunProperties (ren_session ?E) (ren_fv ?E) ''ks'' 1 [''read_orders'']
      [''read_orders''] ''script.json'' '''' '''') s = (Inr (), s')" for s
    by (simp add: rmarked_def WriteRunProperties_def exec_def x)
  have start: "\<exists>s'. rmarked (WroteStart 1) id (SetRunStatus (ren_session ?E) (ren_fv ?E) ''ks'' 1 RunStart ''api.StartRun'') s = (Inr (), s')" for s
    by (simp add: rmarked_def SetRunStatus_def exec_def x)
  have tables: "\<exists>s'. reach_all (create_table ?E) ts s = (Inr (), s')" for ts s
    by (rule reach_all_ok) (simp add: create_table_def x p)
  have sendf: "\<exists>s'. send_messages ?E ms s = (Inr (), s')" for ms s
  proof -
    have "ren_Send ?E m = (\<lambda>w. (None, w))" "\<not> ren_SupportsSendBulk ?E" for m by (simp_all add: accepting_env_def)
    then show ?thesis using reach_all_ok [of "\<lambda>m. rmarked (SentMessages [m]) (\<lambda>e. ''failed to send next message: '' @ e) (ren_Send ?E m)"]
      by (simp only: send_messages_def if_False p)
  qed
  have "\<exists>s'. launch_run ?E ''script.json'' '''' ''ks'' [''read_orders''] '''' two_files 1 [''read_orders''] s = (Inr 1, s')"
    for s :: "unit rstate"
  proof -
    let ?ts = "run_tables ''ks'' 1 two_files [''read_orders'']"
    obtain s1 where s1: "rmarked (WroteProperties 1) id (WriteRunProperties (ren_session ?E) (ren_fv ?E) ''ks'' 1 [''read_orders'']
      [''read_orders''] ''script.json'' '''' '''') s = (Inr (), s1)" using props by blast
    obtain s2 where s2: "reach_all (create_table ?E) ?ts s1 = (Inr (), s2)" using tables by blast
    have amazon: "\<not> ren_AmazonKeyspaces ?E" by (simp add: accepting_env_def)
    have p: "prepare_run ?E ''script.json'' '''' ''ks'' [''read_orders''] '''' two_files 1 [''read_orders''] s = (Inr msgs, s2\<lparr>rs_world := ()\<rparr>)"
      by (simp del: run_messages.simps reach_all.simps add: prepare_run_def rthen_def s1 s2 amazon rreturn_def rsilent_def g)
    obtain s3 where s3: "rmarked (WroteStart 1) id (SetRunStatus (ren_session ?E) (ren_fv ?E) ''ks'' 1 RunStart ''api.StartRun'') (s2\<lparr>rs_world := ()\<rparr>) = (Inr (), s3)"
      using start by blast
    obtain s4 where "send_messages ?E msgs s3 = (Inr (), s4)" using sendf by blast
    then show ?thesis by (simp add: launch_run_def rthen_def p s3 [unfolded RunStart_def] rreturn_def)
  qed
  then show ?thesis
    by (simp add: StartRun_def rthen_def allowed_keyspace_def k rreturn_def rsilent_def n m c two_files_affected)
qed


end
