(* ===== verification/Rowset.thy ===== *)
theory Rowset
  imports Field_Refs Cql
begin

text \<open>
  Rows scanned from the database (pkg/proc/rowset.go): which fields a rowset has and at which column, the
  typed cells that scanning fills, and the records and variables made of a row. A row is the list of its
  values by column. Which value stands for a Cassandra decimal (*inf.Dec), and what the decimal package makes
  of it, is the parameter \<open>infd\<close>.
\<close>

record rowset =
  rs_Fields :: "field_ref list"
  rs_FieldsByFullAliasName :: "(string \<times> nat) list"
  rs_FieldsByFieldName :: "(string \<times> nat) list"

definition append_field_ref :: "string \<Rightarrow> field_ref \<Rightarrow> rowset \<Rightarrow> rowset" where
  "append_field_ref tableFilter fr rs =
     (if length tableFilter > 0 \<and> fr_TableName fr \<noteq> tableFilter then rs
      else if map_of (rs_FieldsByFullAliasName rs) (GetAliasHash fr) \<noteq> None then rs
      else \<lparr>rs_Fields = rs_Fields rs @ [fr],
            rs_FieldsByFullAliasName = AList.update (GetAliasHash fr) (length (rs_Fields rs)) (rs_FieldsByFullAliasName rs),
            rs_FieldsByFieldName = AList.update (fr_FieldName fr) (length (rs_Fields rs)) (rs_FieldsByFieldName rs)\<rparr>)"

definition AppendFieldRefsWithFilter :: "field_ref list \<Rightarrow> string \<Rightarrow> rowset \<Rightarrow> rowset" where
  "AppendFieldRefsWithFilter fieldRefs tableFilter rs = fold (append_field_ref tableFilter) fieldRefs rs"

definition AppendFieldRefs :: "field_ref list \<Rightarrow> rowset \<Rightarrow> rowset" where
  "AppendFieldRefs fieldRefs rs = AppendFieldRefsWithFilter fieldRefs '''' rs"

definition NewRowsetFromFieldRefs :: "field_ref list list \<Rightarrow> rowset" where
  "NewRowsetFromFieldRefs refLists =
     fold AppendFieldRefs refLists \<lparr>rs_Fields = [], rs_FieldsByFullAliasName = [], rs_FieldsByFieldName = []\<rparr>"

definition GetFieldNames :: "rowset \<Rightarrow> string list" where
  "GetFieldNames rs = map fr_FieldName (rs_Fields rs)"

text \<open>The typed cells that a row is scanned into.\<close>

definition init_cell :: "('f \<times> gotime \<times> ('f, 'd) gval) \<Rightarrow> field_ref \<Rightarrow> goerr + ('f, 'd) gval" where
  "init_cell z fr =
     (case z of (zeroFloat, defaultTime, zeroDec) \<Rightarrow>
        (case fr_FieldType fr of
           FieldTypeInt \<Rightarrow> Inr (VInt64 0)
         | FieldTypeFloat \<Rightarrow> Inr (VFloat64 zeroFloat)
         | FieldTypeString \<Rightarrow> Inr (VStr '''')
         | FieldTypeDecimal2 \<Rightarrow> Inr zeroDec
         | FieldTypeBool \<Rightarrow> Inr (VBool False)
         | FieldTypeDateTime \<Rightarrow> Inr (VTime defaultTime)
         | FieldTypeUnknown \<Rightarrow> Inl ''InitRows unsupported field type''))"

definition InitRows ::
  "('f \<times> gotime \<times> ('f, 'd) gval) \<Rightarrow> rowset \<Rightarrow> nat \<Rightarrow> goerr + ('f, 'd) gval list list" where
  "InitRows z rs capacity = mapr (\<lambda>_. mapr (init_cell z) (rs_Fields rs)) [0..<capacity]"

text \<open>What the driver returned for a cell, as a value of the script.\<close>

definition cell_value ::
  "(('f, 'd) gval \<Rightarrow> (goerr + 'd) option) \<Rightarrow> ('f, 'd) gval \<Rightarrow> goerr + ('f, 'd) gval" where
  "cell_value infd v =
     (case infd v of
        Some (Inr d) \<Rightarrow> Inr (VDec d)
      | Some (Inl e) \<Rightarrow> Inl ''cannot convert inf.Dec to decimal.Decimal''
      | None \<Rightarrow>
          (case v of VInt64 _ \<Rightarrow> Inr v | VStr _ \<Rightarrow> Inr v | VTime _ \<Rightarrow> Inr v | VBool _ \<Rightarrow> Inr v | VDec _ \<Rightarrow> Inr v
           | VFloat64 _ \<Rightarrow> Inr v | _ \<Rightarrow> Inl ''unsupported field type''))"

text \<open>A record goes by the names of the fields, whose column is the last one with that name.\<close>

definition GetTableRecord ::
  "(('f, 'd) gval \<Rightarrow> (goerr + 'd) option) \<Rightarrow> rowset \<Rightarrow> ('f, 'd) gval list \<Rightarrow> goerr + ('f, 'd) row" where
  "GetTableRecord infd rs vals =
     foldr_err (\<lambda>rcd fr.
       case map_of (rs_FieldsByFieldName rs) (fr_FieldName fr) of
         None \<Rightarrow> Inl ''panic: no column''
       | Some i \<Rightarrow> bindr (cell_value infd (vals ! i)) (\<lambda>v. Inr (rcd(fr_FieldName fr \<mapsto> v)))) Map.empty (rs_Fields rs)"

text \<open>Variables go by table and field, each from its own column.\<close>

definition export_var :: "string \<Rightarrow> string \<Rightarrow> ('f, 'd) gval \<Rightarrow> ('f, 'd) var_values \<Rightarrow> ('f, 'd) var_values" where
  "export_var t f v vars = vars(t \<mapsto> (case vars t of None \<Rightarrow> Map.empty | Some r \<Rightarrow> r)(f \<mapsto> v))"

definition ExportToVarsWithAlias ::
  "(('f, 'd) gval \<Rightarrow> (goerr + 'd) option) \<Rightarrow> rowset \<Rightarrow> ('f, 'd) gval list \<Rightarrow> string \<Rightarrow> ('f, 'd) var_values \<Rightarrow>
     goerr + ('f, 'd) var_values" where
  "ExportToVarsWithAlias infd rs vals useTableAlias vars =
     foldr_err (\<lambda>vars (fr, v).
       bindr (cell_value infd v) (\<lambda>x.
         Inr (export_var (if length useTableAlias > 0 then useTableAlias else fr_TableName fr) (fr_FieldName fr) x vars)))
       vars (zip (rs_Fields rs) vals)"

definition ExportToVars ::
  "(('f, 'd) gval \<Rightarrow> (goerr + 'd) option) \<Rightarrow> rowset \<Rightarrow> ('f, 'd) gval list \<Rightarrow> ('f, 'd) var_values \<Rightarrow>
     goerr + ('f, 'd) var_values" where
  "ExportToVars infd rs vals vars = ExportToVarsWithAlias infd rs vals '''' vars"

text \<open>Reading a cell that the callers take for an integer.\<close>

definition int64_cell :: "rowset \<Rightarrow> string \<Rightarrow> ('f, 'd) gval list \<Rightarrow> goerr + int" where
  "int64_cell rs f vals =
     (case map_of (rs_FieldsByFieldName rs) f of
        None \<Rightarrow> Inl ''panic: no column''
      | Some i \<Rightarrow> (case vals ! i of VInt64 n \<Rightarrow> Inr n | _ \<Rightarrow> Inl ''panic: interface conversion''))"

text \<open>
  Moving the rows into the order of given rowids: \<open>rowMap\<close> says where the row of a rowid is; a rowid that it
  does not know is taken to be at 0, as Go's map gives 0 for a missing key.
\<close>

definition row_at :: "(int \<times> nat) list \<Rightarrow> int \<Rightarrow> nat" where
  "row_at rowMap rowid = (case map_of rowMap rowid of None \<Rightarrow> 0 | Some i \<Rightarrow> i)"

definition arrange_step ::
  "('r \<Rightarrow> int) \<Rightarrow> int list \<Rightarrow> nat \<Rightarrow> 'r list \<times> (int \<times> nat) list \<Rightarrow> 'r list \<times> (int \<times> nat) list" where
  "arrange_step rowidOf rowids i st =
     (case st of (rows, rowMap) \<Rightarrow>
        (if row_at rowMap (rowids ! i) = i then st
         else (let tail = row_at rowMap (rowids ! i) in
               (rows[tail := rows ! i, i := rows ! tail],
                AList.update (rowids ! i) i (AList.update (rowidOf (rows ! i)) tail rowMap)))))"

definition ArrangeByRowid :: "('r \<Rightarrow> int) \<Rightarrow> int list \<Rightarrow> 'r list \<Rightarrow> goerr + 'r list" where
  "ArrangeByRowid rowidOf rowids rows =
     (if length rowids < length rows then Inl ''invalid rowid array length''
      else (let rowMap = fold (\<lambda>(r, i). AList.update (rowidOf r) i) (zip rows [0..<length rows]) []
            in Inr (fst (fold (arrange_step rowidOf rowids) [0..<length rows] (rows, rowMap)))))"

end
