(* ===== verification/Batch_Delete.thy ===== *)
theory Batch_Delete
  imports Rowset Script_Node Wfdb
begin

text \<open>
  Deleting what an abandoned batch has left in the data table and in the index tables of its node
  (pkg/proc/delete_data_for_batch.go, with the paged query and the deletions of pkg/proc/data_util.go). The whole
  table is read in pages, the rows of the batch are picked out, and the index records are deleted
  before the data records. The paged query and the execution of statements are the record \<open>delete_db\<close>.
\<close>

record ('w, 'f, 'd) delete_db =
  dd_Page :: "string \<Rightarrow> int \<Rightarrow> string \<Rightarrow> 'w \<Rightarrow> (goerr + ('f, 'd) gval list list \<times> string) \<times> 'w"
  dd_Exec :: "string \<Rightarrow> 'w \<Rightarrow> goerr option \<times> 'w"

record ('w, 'f, 'd) delete_ctx =
  dc_Db :: "('w, 'f, 'd) delete_db"
  dc_Msg :: wf_message
  dc_Node :: script_node
  dc_AmazonKeyspaces :: bool
  dc_fv :: "('f, 'd) gval \<Rightarrow> string"
  dc_inf :: "('f, 'd) gval \<Rightarrow> (goerr + 'd) option"
  dc_BuildKey :: "('f, 'd) row \<Rightarrow> idx_def \<Rightarrow> goerr + string"

definition MaxAmazonKeyspacesBatchLen :: nat where "MaxAmazonKeyspacesBatchLen = 30"
definition HarvestForDeleteRowsetSize :: nat where "HarvestForDeleteRowsetSize = 1000"

definition data_table :: "('w, 'f, 'd) delete_ctx \<Rightarrow> string" where
  "data_table C = tc_Name (sn_TableCreator (dc_Node C))"

definition in_keyspace :: "('w, 'f, 'd) delete_ctx \<Rightarrow> ('f, 'd) query_builder" where
  "in_keyspace C = Keyspace (wm_DataKeyspace (dc_Msg C)) NewQB"

definition exec_delete :: "('w, 'f, 'd) delete_ctx \<Rightarrow> string \<Rightarrow> string \<Rightarrow> 'w \<Rightarrow> goerr option \<times> 'w" where
  "exec_delete C msg q w =
     (case dd_Exec (dc_Db C) q w of
        (None, w1) \<Rightarrow> (None, w1)
      | (Some e, w1) \<Rightarrow> (Some (WrapDbErrorWithQuery msg q e), w1))"

text \<open>A page of the data table.\<close>

definition selectBatchPagedAllRowids ::
  "('w, 'f, 'd) delete_ctx \<Rightarrow> rowset \<Rightarrow> nat \<Rightarrow> string \<Rightarrow> 'w \<Rightarrow> (goerr + ('f, 'd) gval list list \<times> string) \<times> 'w" where
  "selectBatchPagedAllRowids C rs batchSize pageState w =
     (let q = SelectRun (data_table C) (wm_RunId (dc_Msg C)) (GetFieldNames rs) (in_keyspace C) in
      if \<exists>fr\<in>set (rs_Fields rs). fr_FieldType fr = FieldTypeUnknown then (Inl ''InitRows unsupported field type'', w)
      else (case dd_Page (dc_Db C) q (int batchSize) pageState w of
              (Inl e, w1) \<Rightarrow> (Inl (WrapDbErrorWithQuery ''data all rows scanner error'' q e), w1)
            | (Inr (rows, next), w1) \<Rightarrow>
                (if length rows > batchSize then (Inl ''unexpected data row retrieved, exceeding rowset size'', w1)
                 else (Inr (rows, next), w1))))"

text \<open>Statements run one after the other, up to the first error.\<close>

fun exec_all :: "('w, 'f, 'd) delete_ctx \<Rightarrow> string \<Rightarrow> string list \<Rightarrow> 'w \<Rightarrow> goerr option \<times> 'w" where
  "exec_all C msg [] w = (None, w)"
| "exec_all C msg (q # qs) w =
     (case exec_delete C msg q w of
        (Some e, w1) \<Rightarrow> (Some e, w1)
      | (None, w1) \<Rightarrow> exec_all C msg qs w1)"

text \<open>Amazon Keyspaces takes up to thirty statements in a batch.\<close>

function chunks :: "nat \<Rightarrow> 'a list \<Rightarrow> 'a list list" where
  "chunks n xs = (if xs = [] \<or> n = 0 then [] else take n xs # chunks n (drop n xs))"
  by pat_completeness auto
termination by (relation "measure (length \<circ> snd)") auto

declare chunks.simps [simp del]

definition batch_statements :: "string list \<Rightarrow> string list" where
  "batch_statements qs =
     map (\<lambda>c. ''BEGIN UNLOGGED BATCH '' @ concat (map (\<lambda>q. q @ '';'') c) @ '' APPLY BATCH'') (chunks MaxAmazonKeyspacesBatchLen qs)"

definition deleteIdxRecordByKeyAndRowid ::
  "('w, 'f, 'd) delete_ctx \<Rightarrow> string \<Rightarrow> (string \<times> int) list \<Rightarrow> 'w \<Rightarrow> goerr option \<times> 'w" where
  "deleteIdxRecordByKeyAndRowid C idxName pairs w =
     (let qs = map (\<lambda>(key, rowid). DeleteRun idxName (wm_RunId (dc_Msg C))
                 (Cond (dc_fv C) ''rowid'' ''='' (VInt64 rowid) (Cond (dc_fv C) ''key'' ''='' (VStr key) (in_keyspace C)))) pairs
      in exec_all C ''cannot delete from idx table'' (if dc_AmazonKeyspaces C then batch_statements qs else qs) w)"

definition deleteDataRecordByRowid :: "('w, 'f, 'd) delete_ctx \<Rightarrow> int list \<Rightarrow> 'w \<Rightarrow> goerr option \<times> 'w" where
  "deleteDataRecordByRowid C rowids w =
     (let run = wm_RunId (dc_Msg C);
          qs = (if dc_AmazonKeyspaces C
                then batch_statements (map (\<lambda>rowid. DeleteRun (data_table C) run
                       (Cond (dc_fv C) ''rowid'' ''='' (VInt64 rowid) (in_keyspace C))) rowids)
                else [DeleteRun (data_table C) run (CondInInt ''rowid'' rowids (in_keyspace C))])
      in exec_all C ''cannot delete from data table'' qs w)"

text \<open>The rowids of the batch on a page, and for every index the keys of their records.\<close>

type_synonym leftovers = "int list \<times> (string \<times> (string \<times> int) list) list"

definition key_of_record ::
  "('w, 'f, 'd) delete_ctx \<Rightarrow> ('f, 'd) row \<Rightarrow> int \<Rightarrow> string \<times> idx_def \<Rightarrow> goerr + string \<times> (string \<times> int)" where
  "key_of_record C tableRecord rowid idx =
     (case dc_BuildKey C tableRecord (snd idx) of
        Inl e \<Rightarrow> Inl (''while deleting previous batch attempt leftovers, cannot build a key for index '' @ fst idx @ '': '' @ e)
      | Inr key \<Rightarrow> (if length key = 0 then Inl ''invalid empty key calculated'' else Inr (fst idx, (key, rowid))))"

definition populateUniqueKeysToDeleteMap ::
  "('w, 'f, 'd) delete_ctx \<Rightarrow> ('f, 'd) row \<Rightarrow> int \<Rightarrow> (string \<times> (string \<times> int) list) list \<Rightarrow>
     goerr + (string \<times> (string \<times> int) list) list" where
  "populateUniqueKeysToDeleteMap C tableRecord rowid m =
     bindr (mapr (key_of_record C tableRecord rowid) (tc_Indexes (sn_TableCreator (dc_Node C))))
       (\<lambda>new. Inr (map (\<lambda>(idxName, pairs).
          (idxName, pairs @ (case map_of new idxName of None \<Rightarrow> [] | Some p \<Rightarrow> [p]))) m))"

definition harvest_row :: "('w, 'f, 'd) delete_ctx \<Rightarrow> rowset \<Rightarrow> leftovers \<Rightarrow> ('f, 'd) gval list \<Rightarrow> goerr + leftovers" where
  "harvest_row C rs st vals =
     (case st of (rowids, keys) \<Rightarrow>
        bindr (int64_cell rs ''rowid'' vals) (\<lambda>rowid.
        bindr (int64_cell rs ''batch_idx'' vals) (\<lambda>b.
          if wrap16 b \<noteq> wm_BatchIdx (dc_Msg C) then Inr st
          else bindr (GetTableRecord (dc_inf C) rs vals) (\<lambda>tableRecord.
               bindr (populateUniqueKeysToDeleteMap C tableRecord rowid keys) (\<lambda>keys1. Inr (rowids @ [rowid], keys1))))))"

definition harvest_page :: "('w, 'f, 'd) delete_ctx \<Rightarrow> rowset \<Rightarrow> ('f, 'd) gval list list \<Rightarrow> goerr + leftovers" where
  "harvest_page C rs rows =
     foldr_err (harvest_row C rs) ([], map (\<lambda>(idxName, _). (idxName, [])) (tc_Indexes (sn_TableCreator (dc_Node C)))) rows"

fun delete_indexes :: "('w, 'f, 'd) delete_ctx \<Rightarrow> (string \<times> (string \<times> int) list) list \<Rightarrow> 'w \<Rightarrow> goerr option \<times> 'w" where
  "delete_indexes C [] w = (None, w)"
| "delete_indexes C ((idxName, pairs) # m) w =
     (case deleteIdxRecordByKeyAndRowid C idxName pairs w of
        (Some e, w1) \<Rightarrow> (Some e, w1)
      | (None, w1) \<Rightarrow> delete_indexes C m w1)"

definition delete_leftovers :: "('w, 'f, 'd) delete_ctx \<Rightarrow> leftovers \<Rightarrow> 'w \<Rightarrow> goerr option \<times> 'w" where
  "delete_leftovers C l w =
     (case l of (rowids, keys) \<Rightarrow>
        if rowids = [] then (None, w)
        else (case delete_indexes C keys w of
                (Some e, w1) \<Rightarrow> (Some e, w1)
              | (None, w1) \<Rightarrow> deleteDataRecordByRowid C rowids w1))"

text \<open>The fields that are read: the rowid, the fields of the keys, and the index of the batch.\<close>

definition delete_rowset :: "('w, 'f, 'd) delete_ctx \<Rightarrow> rowset" where
  "delete_rowset C =
     NewRowsetFromFieldRefs [[RowidFieldRef (data_table C)], GetAllIndexesFieldRefs (dc_Node C), [BatchIdxFieldRef (data_table C)]]"

text \<open>
  The loop over the pages, which need not end: the fuel counts its rounds, and None says that it has not ended. It starts
  over after a deletion, and goes on with the state of the page otherwise.
\<close>

fun delete_loop :: "nat \<Rightarrow> ('w, 'f, 'd) delete_ctx \<Rightarrow> string \<Rightarrow> 'w \<Rightarrow> (goerr option \<times> 'w) option" where
  "delete_loop 0 C pageState w = None"
| "delete_loop (Suc fuel) C pageState w =
     (case selectBatchPagedAllRowids C (delete_rowset C) HarvestForDeleteRowsetSize pageState w of
        (Inl e, w1) \<Rightarrow> Some (Some e, w1)
      | (Inr (rows, next), w1) \<Rightarrow>
          (if rows = [] then Some (None, w1)
           else (case harvest_page C (delete_rowset C) rows of
                   Inl e \<Rightarrow> Some (Some e, w1)
                 | Inr l \<Rightarrow>
                     (case delete_leftovers C l w1 of
                        (Some e, w2) \<Rightarrow> Some (Some e, w2)
                      | (None, w2) \<Rightarrow>
                          (if dc_AmazonKeyspaces C \<and> next = '''' then Some (None, w2)
                           else delete_loop fuel C (if fst l \<noteq> [] then '''' else next) w2)))))"

definition DeleteDataAndUniqueIndexesByBatchIdx :: "nat \<Rightarrow> ('w, 'f, 'd) delete_ctx \<Rightarrow> 'w \<Rightarrow> (goerr option \<times> 'w) option" where
  "DeleteDataAndUniqueIndexesByBatchIdx fuel C w =
     (if \<not> HasTableCreator (dc_Node C) then Some (None, w) else delete_loop fuel C '''' w)"

subsection \<open>Ending\<close>

text \<open>A page without rows of the batch: nothing is harvested, so nothing is deleted.\<close>

definition foreign_row :: "('w, 'f, 'd) delete_ctx \<Rightarrow> ('f, 'd) gval list \<Rightarrow> bool" where
  "foreign_row C vals \<longleftrightarrow> (\<exists>rowid b. int64_cell (delete_rowset C) ''rowid'' vals = Inr rowid \<and>
     int64_cell (delete_rowset C) ''batch_idx'' vals = Inr b \<and> wrap16 b \<noteq> wm_BatchIdx (dc_Msg C))"

lemma harvest_foreign:
  assumes "\<forall>vals\<in>set rows. foreign_row C vals"
  shows "\<exists>keys. harvest_page C (delete_rowset C) rows = Inr ([], keys)"
proof -
  have "foldr_err (harvest_row C (delete_rowset C)) ([], keys) rows = Inr ([], keys)" for keys
    using assms by (induction rows) (auto simp: harvest_row_def foreign_row_def)
  then show ?thesis unfolding harvest_page_def by blast
qed

text \<open>
  What the driver does with a table that fits on one page: the first page has all rows and no state, and reading
  changes nothing.
\<close>

definition single_page :: "('w, 'f, 'd) delete_ctx \<Rightarrow> ('f, 'd) gval list list \<Rightarrow> 'w \<Rightarrow> bool" where
  "single_page C rows w \<longleftrightarrow>
     selectBatchPagedAllRowids C (delete_rowset C) HarvestForDeleteRowsetSize '''' w = (Inr (rows, ''''), w)"

lemma foreign_round:
  assumes "single_page C rows w" "rows \<noteq> []" "\<forall>vals\<in>set rows. foreign_row C vals"
  shows "delete_loop (Suc n) C '''' w = (if dc_AmazonKeyspaces C then Some (None, w) else delete_loop n C '''' w)"
proof -
  obtain keys where "harvest_page C (delete_rowset C) rows = Inr ([], keys)" using harvest_foreign [OF assms(3)] by blast
  then show ?thesis using assms(1,2) by (simp add: single_page_def delete_leftovers_def)
qed

text \<open>C38: The clean-up of an abandoned batch that has left no rows ends at once when the table is empty. When
  the table has rows of other batches only, and they fit on one page, it ends on Amazon Keyspaces; on any
  other database it reads that page again and again and never ends.\<close>

theorem clean_up_rereads_last_page:
  assumes "single_page C rows w" "\<forall>vals\<in>set rows. foreign_row C vals" "HasTableCreator (dc_Node C)"
  shows "(rows = [] \<or> dc_AmazonKeyspaces C \<longrightarrow> DeleteDataAndUniqueIndexesByBatchIdx (Suc n) C w = Some (None, w)) \<and>
    (rows \<noteq> [] \<and> \<not> dc_AmazonKeyspaces C \<longrightarrow> DeleteDataAndUniqueIndexesByBatchIdx n C w = None)"
proof -
  have "delete_loop n C '''' w = None" if "rows \<noteq> []" "\<not> dc_AmazonKeyspaces C"
  proof (induction n)
    case (Suc n)
    then show ?case unfolding foreign_round [OF assms(1) that(1) assms(2)] using that(2) by simp
  qed simp
  moreover have "delete_loop (Suc n) C '''' w = Some (None, w)" if "rows = []"
    using assms(1) that by (simp add: single_page_def)
  ultimately show ?thesis
    using foreign_round [OF assms(1) _ assms(2)] assms(3) unfolding DeleteDataAndUniqueIndexesByBatchIdx_def
    by (cases "rows = []") (auto simp del: delete_loop.simps)
qed

text \<open>The second batch is cleaned up while the table has a row of the first.\<close>

definition one_row_ctx :: "bool \<Rightarrow> (unit, int, int) delete_ctx" where
  "one_row_ctx amazon = \<lparr>
     dc_Db = \<lparr>dd_Page = (\<lambda>q n st w. (Inr ([[VInt64 7, VInt64 0]], ''''), w)), dd_Exec = (\<lambda>q w. (None, w))\<rparr>,
     dc_Msg = \<lparr>wm_Ts = 0, wm_Id = ''1'', wm_ScriptURL = ''script.json'', wm_ScriptParamsURL = '''', wm_DataKeyspace = ''ks'',
       wm_RunId = 1, wm_TargetNodeName = ''orders'', wm_FirstToken = 0, wm_LastToken = 0, wm_BatchIdx = 1, wm_BatchesTotal = 2\<rparr>,
     dc_Node = sample_node\<lparr>sn_TableCreator := sample_table\<lparr>tc_Indexes := []\<rparr>\<rparr>,
     dc_AmazonKeyspaces = amazon, dc_fv = (\<lambda>v. ''''), dc_inf = (\<lambda>v. None), dc_BuildKey = (\<lambda>r d. Inr ''key'')\<rparr>"

lemma one_row_facts:
  "single_page (one_row_ctx amazon) [[VInt64 7, VInt64 0]] ()" "foreign_row (one_row_ctx amazon) [VInt64 7, VInt64 0]"
  "HasTableCreator (dc_Node (one_row_ctx amazon))"
proof -
  have rs: "delete_rowset (one_row_ctx amazon) = \<lparr>rs_Fields = [RowidFieldRef (data_table (one_row_ctx amazon)), BatchIdxFieldRef (data_table (one_row_ctx amazon))],
      rs_FieldsByFullAliasName = [(GetAliasHash (RowidFieldRef (data_table (one_row_ctx amazon))), 0),
        (GetAliasHash (BatchIdxFieldRef (data_table (one_row_ctx amazon))), 1)],
      rs_FieldsByFieldName = [(''rowid'', 0), (''batch_idx'', 1)]\<rparr>"
    by (cases amazon) code_simp+
  show "single_page (one_row_ctx amazon) [[VInt64 7, VInt64 0]] ()"
    by (simp add: single_page_def selectBatchPagedAllRowids_def rs RowidFieldRef_def BatchIdxFieldRef_def Let_def
        HarvestForDeleteRowsetSize_def) (simp add: one_row_ctx_def)
  have "wrap16 0 = 0" by (simp add: wrap_id in_range_def)
  then show "foreign_row (one_row_ctx amazon) [VInt64 7, VInt64 0]"
    by (simp add: foreign_row_def rs int64_cell_def) (simp add: one_row_ctx_def)
  show "HasTableCreator (dc_Node (one_row_ctx amazon))" by (simp add: one_row_ctx_def HasTableCreator_def sample_node_def)
qed

lemma clean_up_rereads_last_page_witness:
  "DeleteDataAndUniqueIndexesByBatchIdx 1000 (one_row_ctx False) () = None \<and>
   DeleteDataAndUniqueIndexesByBatchIdx (Suc 0) (one_row_ctx True) () = Some (None, ())"
proof -
  have f: "\<forall>vals\<in>set [[VInt64 7, VInt64 0]]. foreign_row (one_row_ctx amazon) vals" for amazon using one_row_facts(2) by simp
  have "\<not> dc_AmazonKeyspaces (one_row_ctx False)" "dc_AmazonKeyspaces (one_row_ctx True)" by (simp_all add: one_row_ctx_def)
  then show ?thesis
    using clean_up_rereads_last_page [OF one_row_facts(1) f one_row_facts(3), of False 1000]
      clean_up_rereads_last_page [OF one_row_facts(1) f one_row_facts(3), of True 0] by simp
qed

end
