(* ===== verification/Token_Read.thy ===== *)
theory Token_Read
  imports Rowset Inserter
begin

text \<open>
  Reading the rows of a table for a batch (pkg/proc/data_util.go): the queries for one row by its rowid, for a
  page of the rowids under a key of an index, and for the next rows of an interval of tokens, and the
  loop over those rows that the processors of table, file, distinct and lookup nodes share. The driver is the
  record \<open>read_db\<close>: what an iterator yields, and what closing it says. A query by token starts at the token where the
  last one ended, and skips the rowids with that token that it has been told.
\<close>

record ('w, 'f, 'd) read_db =
  rdb_Iter :: "string \<Rightarrow> ('f, 'd) gval list \<Rightarrow> int \<Rightarrow> 'w \<Rightarrow> (goerr + ('f, 'd) gval list list) \<times> 'w"
  rdb_Close :: "string \<Rightarrow> 'w \<Rightarrow> goerr option \<times> 'w"
  rdb_Scanner :: "string \<Rightarrow> ('f, 'd) gval list \<Rightarrow> int \<Rightarrow> string \<Rightarrow> 'w \<Rightarrow>
     (goerr + string \<times> (goerr + ('f, 'd) gval list) list \<times> goerr option) \<times> 'w"
  rdb_Keyspace :: string
  rdb_fv :: "('f, 'd) gval \<Rightarrow> string"

definition ErrorCannotAchieveConsistencyLevel :: string where
  "ErrorCannotAchieveConsistencyLevel = ''Cannot achieve consistency level''"

definition unsupported_rows :: "rowset \<Rightarrow> bool" where
  "unsupported_rows rs \<longleftrightarrow> (\<exists>fr\<in>set (rs_Fields rs). fr_FieldType fr = FieldTypeUnknown)"

subsection \<open>Queries with a scanner\<close>

text \<open>The scanner fills the rowset up to its capacity; a row too many is an error, and so is a row that cannot be scanned.\<close>

fun scan_rows ::
  "nat \<Rightarrow> goerr \<Rightarrow> string \<Rightarrow> string \<Rightarrow> (goerr + ('f, 'd) gval list) list \<Rightarrow> ('f, 'd) gval list list \<Rightarrow>
     goerr + ('f, 'd) gval list list" where
  "scan_rows capacity tooMany msg q [] acc = Inr acc"
| "scan_rows capacity tooMany msg q (r # rs) acc =
     (if capacity \<le> length acc then Inl tooMany
      else (case r of Inl e \<Rightarrow> Inl (WrapDbErrorWithQuery msg q e) | Inr vals \<Rightarrow> scan_rows capacity tooMany msg q rs (acc @ [vals])))"

text \<open>
  The attempts of a query: after a timeout it is tried again without an end, after a lack of consistency up to
  three times. The fuel counts the attempts; None says that it is still trying.
\<close>

definition try_again :: "goerr \<Rightarrow> nat \<Rightarrow> bool" where
  "try_again e selectRetryIdx \<longleftrightarrow> Contains e ErrorOperationTimedOut \<or>
     Contains e ErrorCannotAchieveConsistencyLevel \<and> selectRetryIdx < 3"

fun select_attempts ::
  "nat \<Rightarrow> ('w \<Rightarrow> (goerr + string \<times> (goerr + ('f, 'd) gval list) list \<times> goerr option) \<times> 'w) \<Rightarrow> nat \<Rightarrow>
     goerr \<Rightarrow> string \<Rightarrow> string \<Rightarrow> string \<Rightarrow> nat \<Rightarrow> 'w \<Rightarrow> ((goerr + ('f, 'd) gval list list \<times> string) \<times> 'w) option" where
  "select_attempts 0 call capacity tooMany scanMsg msg q selectRetryIdx w = None"
| "select_attempts (Suc fuel) call capacity tooMany scanMsg msg q selectRetryIdx w =
     (case call w of
        (Inl e, w1) \<Rightarrow> Some (Inl (WrapDbErrorWithQuery ''cannot create iterator'' q e), w1)
      | (Inr (nextPageState, rows, err), w1) \<Rightarrow>
          (case scan_rows capacity tooMany scanMsg q rows [] of
             Inl e \<Rightarrow> Some (Inl e, w1)
           | Inr scanned \<Rightarrow>
               (case err of
                  None \<Rightarrow> Some (Inr (scanned, nextPageState), w1)
                | Some e \<Rightarrow>
                    (if try_again e selectRetryIdx
                     then select_attempts fuel call capacity tooMany scanMsg msg q (Suc selectRetryIdx) w1
                     else Some (Inl (WrapDbErrorWithQuery msg q e), w1)))))"

definition selectDataRowByRowid ::
  "nat \<Rightarrow> ('w, 'f, 'd) read_db \<Rightarrow> rowset \<Rightarrow> string \<Rightarrow> int \<Rightarrow> int \<Rightarrow> 'w \<Rightarrow> ((goerr + ('f, 'd) gval list list) \<times> 'w) option" where
  "selectDataRowByRowid fuel D rs tableName lookupNodeRunId rowid w =
     (let q = SelectRun tableName lookupNodeRunId (GetFieldNames rs)
                (CondPrepared (rdb_fv D) ''rowid'' ''='' (Keyspace (rdb_Keyspace D) NewQB))
      in if unsupported_rows rs then Some (Inl ''InitRows unsupported field type'', w)
         else map_option (map_prod (map_sum id fst) id)
                (select_attempts fuel (rdb_Scanner D q [VInt64 rowid] 0 '''') 1 ''unexpected data row retrieved by rowid''
                   ''cannot scan data row by rowid'' ''data-by-rowid scanner cannot select'' q 0 w))"

definition selectRowidsFromIdxTablePagedByKey ::
  "nat \<Rightarrow> ('w, 'f, 'd) read_db \<Rightarrow> rowset \<Rightarrow> string \<Rightarrow> int \<Rightarrow> nat \<Rightarrow> string \<Rightarrow> string \<Rightarrow> 'w \<Rightarrow>
     ((goerr + ('f, 'd) gval list list \<times> string) \<times> 'w) option" where
  "selectRowidsFromIdxTablePagedByKey fuel D rs idxName lookupNodeRunId batchSize pageState key w =
     (let q = SelectRun idxName lookupNodeRunId (GetFieldNames rs)
                (CondPrepared (rdb_fv D) ''key'' ''='' (Keyspace (rdb_Keyspace D) NewQB))
      in if unsupported_rows rs then Some (Inl ''InitRows unsupported field type'', w)
         else select_attempts fuel (rdb_Scanner D q [VStr key] (int batchSize) pageState) batchSize
                ''unexpected idx row retrieved, exceeding rowset size'' ''cannot scan paged idx rowid''
                ''paged idx scanner cannot select'' q 0 w)"

subsection \<open>The next rows by token\<close>

text \<open>Rows are kept up to the capacity, without those at the start token whose rowids are known; the last token scanned is remembered.\<close>

fun scan_tokens ::
  "rowset \<Rightarrow> nat \<Rightarrow> int \<Rightarrow> int list \<Rightarrow> ('f, 'd) gval list list \<Rightarrow> ('f, 'd) gval list list \<Rightarrow> int \<Rightarrow>
     goerr + ('f, 'd) gval list list \<times> int" where
  "scan_tokens rs capacity startToken startTokenRowIds [] got lastToken = Inr (got, lastToken)"
| "scan_tokens rs capacity startToken startTokenRowIds (vals # rows) got lastToken =
     (if capacity \<le> length got then Inr (got, lastToken)
      else bindr (int64_cell rs ''token(rowid)'' vals) (\<lambda>token.
           if token = startToken
           then bindr (int64_cell rs ''rowid'' vals) (\<lambda>rowid.
                  scan_tokens rs capacity startToken startTokenRowIds rows
                    (if rowid \<in> set startTokenRowIds then got else got @ [vals]) token)
           else scan_tokens rs capacity startToken startTokenRowIds rows (got @ [vals]) token))"

text \<open>The rowids at the end, from the last row on, that have the last token.\<close>

fun epilogue :: "rowset \<Rightarrow> int \<Rightarrow> ('f, 'd) gval list list \<Rightarrow> goerr + int list" where
  "epilogue rs lastToken [] = Inr []"
| "epilogue rs lastToken (vals # rows) =
     bindr (int64_cell rs ''rowid'' vals) (\<lambda>rowid.
     bindr (int64_cell rs ''token(rowid)'' vals) (\<lambda>token.
       if token \<noteq> lastToken then Inr [] else bindr (epilogue rs lastToken rows) (\<lambda>ids. Inr (rowid # ids))))"

text \<open>Closing the iterator is tried up to five times, as long as it times out.\<close>

fun close_attempts :: "('w, 'f, 'd) read_db \<Rightarrow> string \<Rightarrow> nat \<Rightarrow> 'w \<Rightarrow> goerr option \<times> 'w" where
  "close_attempts D q 0 w = (None, w)"
| "close_attempts D q (Suc n) w =
     (case rdb_Close D q w of
        (None, w1) \<Rightarrow> (None, w1)
      | (Some e, w1) \<Rightarrow>
          (if \<not> Contains e ErrorOperationTimedOut then (Some (WrapDbErrorWithQuery ''cannot close iterator'' q e), w1)
           else if n = 0 then (Some (WrapDbErrorWithQuery ''cannot close iterator, still getting timeouts'' q e), w1)
           else close_attempts D q n w1))"

definition token_query :: "('w, 'f, 'd) read_db \<Rightarrow> rowset \<Rightarrow> string \<Rightarrow> int \<Rightarrow> nat \<Rightarrow> string" where
  "token_query D rs tableName readerNodeRunId batchSize =
     SelectRun tableName readerNodeRunId (GetFieldNames rs)
       (CondPrepared (rdb_fv D) ''token(rowid)'' ''<='' (CondPrepared (rdb_fv D) ''token(rowid)'' ''>=''
          (Limit (int batchSize) (Keyspace (rdb_Keyspace D) NewQB))))"

definition selectBatchFromTableByToken ::
  "('w, 'f, 'd) read_db \<Rightarrow> rowset \<Rightarrow> string \<Rightarrow> int \<Rightarrow> nat \<Rightarrow> int \<Rightarrow> int \<Rightarrow> int list \<Rightarrow> 'w \<Rightarrow>
     (goerr + ('f, 'd) gval list list \<times> int \<times> int list) \<times> 'w" where
  "selectBatchFromTableByToken D rs tableName readerNodeRunId batchSize startToken endToken startTokenRowIds w =
     (let q = token_query D rs tableName readerNodeRunId batchSize in
      if unsupported_rows rs then (Inl ''InitRows unsupported field type'', w)
      else (case rdb_Iter D q [VInt64 startToken, VInt64 endToken] (int batchSize + int (length startTokenRowIds)) w of
              (Inl e, w1) \<Rightarrow> (Inl (WrapDbErrorWithQuery ''cannot create iterator'' q e), w1)
            | (Inr rows, w1) \<Rightarrow>
                (case bindr (scan_tokens rs batchSize startToken startTokenRowIds rows [] 0) (\<lambda>(got, lastToken).
                        bindr (epilogue rs lastToken (rev got)) (\<lambda>ids. Inr (got, lastToken, ids))) of
                   Inl e \<Rightarrow> (Inl e, w1)
                 | Inr r \<Rightarrow>
                     (case close_attempts D q 5 w1 of
                        (Some e, w2) \<Rightarrow> (Inl e, w2)
                      | (None, w2) \<Rightarrow> (Inr r, w2)))))"

subsection \<open>The loop over the rows of an interval\<close>

text \<open>
  The loop of the processors: it ends on an empty read only. What a processor does with the rows of a read is
  \<open>page\<close>, on a state of its own. The fuel counts the reads.
\<close>

fun token_loop ::
  "nat \<Rightarrow> (int \<Rightarrow> int list \<Rightarrow> 'w \<Rightarrow> (goerr + 'r list \<times> int \<times> int list) \<times> 'w) \<Rightarrow>
     ('r list \<Rightarrow> 's \<Rightarrow> 'w \<Rightarrow> (goerr option \<times> 's) \<times> 'w) \<Rightarrow> int \<Rightarrow> int list \<Rightarrow> 's \<Rightarrow> 'w \<Rightarrow> ((goerr option \<times> 's) \<times> 'w) option" where
  "token_loop 0 sel page curStartToken curStartTokenRowIds s w = None"
| "token_loop (Suc fuel) sel page curStartToken curStartTokenRowIds s w =
     (case sel curStartToken curStartTokenRowIds w of
        (Inl e, w1) \<Rightarrow> Some ((Some e, s), w1)
      | (Inr (rows, lastRetrievedToken, endTokenRowIds), w1) \<Rightarrow>
          (if rows = [] then Some ((None, s), w1)
           else (case page rows s w1 of
                   ((Some e, s1), w2) \<Rightarrow> Some ((Some e, s1), w2)
                 | ((None, s1), w2) \<Rightarrow> token_loop fuel sel page lastRetrievedToken endTokenRowIds s1 w2)))"

subsection \<open>Every row of the interval is read once\<close>

definition tok :: "rowset \<Rightarrow> ('f, 'd) gval list \<Rightarrow> int" where
  "tok rs vals = projr (int64_cell rs ''token(rowid)'' vals)"

definition rid :: "rowset \<Rightarrow> ('f, 'd) gval list \<Rightarrow> int" where
  "rid rs vals = projr (int64_cell rs ''rowid'' vals)"

definition token_row :: "rowset \<Rightarrow> ('f, 'd) gval list \<Rightarrow> bool" where
  "token_row rs vals \<longleftrightarrow> int64_cell rs ''token(rowid)'' vals = Inr (tok rs vals) \<and> int64_cell rs ''rowid'' vals = Inr (rid rs vals)"

text \<open>What the driver is expected to do: a query by token yields the first rows, in the order of the tokens, of the
  interval, and the table does not change while it is read.\<close>

definition interval :: "rowset \<Rightarrow> int \<Rightarrow> int \<Rightarrow> ('f, 'd) gval list list \<Rightarrow> ('f, 'd) gval list list" where
  "interval rs startToken endToken rows = filter (\<lambda>v. startToken \<le> tok rs v \<and> tok rs v \<le> endToken) rows"

definition serves_tokens ::
  "('w, 'f, 'd) read_db \<Rightarrow> rowset \<Rightarrow> string \<Rightarrow> int \<Rightarrow> nat \<Rightarrow> int \<Rightarrow> ('f, 'd) gval list list \<Rightarrow> bool" where
  "serves_tokens D rs tableName runId batchSize endToken rows \<longleftrightarrow>
     (let q = token_query D rs tableName runId batchSize in
      (\<forall>startToken n w. rdb_Iter D q [VInt64 startToken, VInt64 endToken] n w =
         (Inr (take batchSize (interval rs startToken endToken rows)), w)) \<and>
      (\<forall>w. rdb_Close D q w = (None, w)))"

definition by_tokens :: "rowset \<Rightarrow> ('f, 'd) gval list list \<Rightarrow> bool" where
  "by_tokens rs rows \<longleftrightarrow> (\<forall>v\<in>set rows. token_row rs v) \<and> sorted (map (tok rs) rows) \<and> distinct (map (rid rs) rows)"

fun run_pages ::
  "('r list \<Rightarrow> 's \<Rightarrow> 'w \<Rightarrow> (goerr option \<times> 's) \<times> 'w) \<Rightarrow> 'r list list \<Rightarrow> 's \<Rightarrow> 'w \<Rightarrow> (goerr option \<times> 's) \<times> 'w" where
  "run_pages page [] s w = ((None, s), w)"
| "run_pages page (rows # pages) s w =
     (case page rows s w of ((Some e, s1), w1) \<Rightarrow> ((Some e, s1), w1) | ((None, s1), w1) \<Rightarrow> run_pages page pages s1 w1)"

definition fresh :: "rowset \<Rightarrow> int \<Rightarrow> int list \<Rightarrow> ('f, 'd) gval list \<Rightarrow> bool" where
  "fresh rs startToken ids v \<longleftrightarrow> \<not> (tok rs v = startToken \<and> rid rs v \<in> set ids)"

lemma scan_tokens_fresh:
  assumes "\<forall>v\<in>set rows. token_row rs v" "length got + length rows \<le> capacity"
  shows "scan_tokens rs capacity startToken ids rows got lastToken =
    Inr (got @ filter (fresh rs startToken ids) rows, if rows = [] then lastToken else tok rs (last rows))"
  using assms
proof (induction rows arbitrary: got lastToken)
  case (Cons v rows)
  have c: "int64_cell rs ''token(rowid)'' v = Inr (tok rs v)" "int64_cell rs ''rowid'' v = Inr (rid rs v)"
    using Cons.prems(1) unfolding token_row_def by simp_all
  have l: "\<not> capacity \<le> length got" "\<forall>v\<in>set rows. token_row rs v" "length got + length rows \<le> capacity"
    "length (got @ [v]) + length rows \<le> capacity" using Cons.prems by simp_all
  show ?case using l(1) Cons.IH [OF l(2,3)] Cons.IH [OF l(2,4)] by (simp add: c fresh_def)
qed simp

lemma epilogue_ids:
  "\<forall>v\<in>set rows. token_row rs v \<Longrightarrow> epilogue rs t rows = Inr (map (rid rs) (takeWhile (\<lambda>v. tok rs v = t) rows))"
  by (induction rows) (simp_all add: token_row_def)

lemma takeWhile_top:
  assumes "sorted (map f (rev xs))" "\<forall>x\<in>set xs. f x \<le> (m::'b::linorder)"
  shows "set (takeWhile (\<lambda>x. f x = m) xs) = {x\<in>set xs. f x = m}"
  using assms
proof (induction xs)
  case (Cons x xs)
  have s: "\<forall>y\<in>set xs. f y \<le> f x" "sorted (map f (rev xs))" using Cons.prems(1) by (auto simp: sorted_append)
  show ?case
  proof (cases "f x = m")
    case True
    then show ?thesis using Cons.IH [OF s(2)] Cons.prems(2) by auto
  next
    case False
    then have "f x < m" using Cons.prems(2) by (simp add: order_less_le)
    then show ?thesis using s(1) False by fastforce
  qed
qed simp

lemma select_by_token:
  assumes "\<not> unsupported_rows rs" "by_tokens rs rows" "serves_tokens D rs tableName runId b endToken rows"
  shows "selectBatchFromTableByToken D rs tableName runId b startToken endToken ids w =
    (let page = take b (interval rs startToken endToken rows);
         new = filter (fresh rs startToken ids) page;
         lastToken = (if page = [] then 0 else tok rs (last page))
     in (Inr (new, lastToken, map (rid rs) (takeWhile (\<lambda>v. tok rs v = lastToken) (rev new))), w))"
proof -
  let ?page = "take b (interval rs startToken endToken rows)"
  have r: "\<forall>v\<in>set ?page. token_row rs v"
    using assms(2) unfolding by_tokens_def interval_def by (auto dest: in_set_takeD)
  have "scan_tokens rs b startToken ids ?page [] 0 = Inr (filter (fresh rs startToken ids) ?page, if ?page = [] then 0 else tok rs (last ?page))"
    using scan_tokens_fresh [OF r, of "[]" b] by simp
  moreover have "\<forall>v\<in>set (rev (filter (fresh rs startToken ids) ?page)). token_row rs v" using r by simp
  note epilogue_ids [OF this]
  moreover have "close_attempts D (token_query D rs tableName runId b) 5 w = (None, w)" for w
    using assms(3) by (simp add: serves_tokens_def Let_def eval_nat_numeral)
  ultimately show ?thesis using assms(1,3) unfolding selectBatchFromTableByToken_def serves_tokens_def
    by (simp add: Let_def del: close_attempts.simps)
qed

text \<open>Where a read goes on: after the rows \<open>P\<close> of the interval, at the token of the last one, with the rowids of those that share it.\<close>

definition resumes :: "rowset \<Rightarrow> int \<Rightarrow> ('f, 'd) gval list list \<Rightarrow> int \<Rightarrow> int list \<Rightarrow> bool" where
  "resumes rs startToken P cur ids \<longleftrightarrow>
     (if P = [] then cur = startToken \<and> ids = []
      else cur = tok rs (last P) \<and> set ids = rid rs ` {v\<in>set P. tok rs v = cur})"

text \<open>Few rows share a token, and no other row has the last one.\<close>

definition shared_tokens_fit :: "rowset \<Rightarrow> nat \<Rightarrow> ('f, 'd) gval list list \<Rightarrow> bool" where
  "shared_tokens_fit rs b R \<longleftrightarrow> (\<forall>t. length (filter (\<lambda>v. tok rs v = t) R) < b) \<and>
     (R \<noteq> [] \<longrightarrow> length (filter (\<lambda>v. tok rs v = tok rs (last R)) R) = 1)"

lemma sorted_split:
  assumes "sorted (map f (P @ Q))" "P \<noteq> []"
  shows "\<forall>v\<in>set P. f v \<le> f (last P)" "\<forall>v\<in>set Q. f (last P) \<le> f v"
proof -
  obtain P1 x where "P = P1 @ [x]" using assms(2) by (metis rev_exhaust)
  then show "\<forall>v\<in>set P. f v \<le> f (last P)" "\<forall>v\<in>set Q. f (last P) \<le> f v" using assms(1) by (auto simp: sorted_append)
qed

lemma resumed_page:
  assumes "by_tokens rs rows" "interval rs startToken endToken rows = P @ Q" "resumes rs startToken P cur ids"
    "shared_tokens_fit rs b (P @ Q)"
  defines "T \<equiv> if P = [] then [] else filter (\<lambda>v. tok rs v = cur) P"
  shows "take b (interval rs cur endToken rows) = T @ take (b - length T) Q" "length T < b"
    "filter (fresh rs cur ids) (T @ take (b - length T) Q) = take (b - length T) Q"
proof -
  have i: "v \<in> set (P @ Q) \<Longrightarrow> startToken \<le> tok rs v \<and> tok rs v \<le> endToken" for v
    unfolding assms(2) [symmetric] interval_def by simp
  have sorted: "sorted (map (tok rs) (P @ Q))" and dist: "distinct (map (rid rs) (P @ Q))"
    unfolding assms(2) [symmetric] interval_def using assms(1) by (auto simp: by_tokens_def sorted_filter distinct_map_filter)
  have b: "length (filter (\<lambda>v. tok rs v = t) (P @ Q)) < b" for t using assms(4) unfolding shared_tokens_fit_def by blast
  have "interval rs cur endToken rows = filter (\<lambda>v. cur \<le> tok rs v) (P @ Q)" if "startToken \<le> cur"
    unfolding assms(2) [symmetric] interval_def using that by (auto intro: filter_cong)
  moreover have "startToken \<le> cur" using assms(3) i [of "last P"] unfolding resumes_def by (auto split: if_splits)
  moreover have "filter (\<lambda>v. cur \<le> tok rs v) (P @ Q) = T @ Q"
  proof (cases "P = []")
    case True
    then show ?thesis using assms(3) i by (simp add: T_def resumes_def)
  next
    case False
    note s = sorted_split [OF sorted False]
    have c: "cur = tok rs (last P)" using assms(3) False by (simp add: resumes_def)
    have "filter (\<lambda>v. cur \<le> tok rs v) P = filter (\<lambda>v. tok rs v = cur) P" using s(1) unfolding c by (auto intro!: filter_cong)
    then show ?thesis using s(2) False by (simp add: T_def c)
  qed
  ultimately have page: "interval rs cur endToken rows = T @ Q" by simp
  show "length T < b" using b [of cur] b [of 0] unfolding T_def by auto
  then show "take b (interval rs cur endToken rows) = T @ take (b - length T) Q" unfolding page by simp
  have "fresh rs cur ids v" if "v \<in> set Q" for v
  proof (cases "P = []")
    case True
    then show ?thesis using assms(3) by (simp add: fresh_def resumes_def)
  next
    case False
    have "rid rs v \<notin> rid rs ` set P" using dist that by (auto simp: image_iff)
    then show ?thesis using assms(3) False by (auto simp: fresh_def resumes_def)
  qed
  moreover have "\<not> fresh rs cur ids v" if "v \<in> set T" for v
    using that assms(3) by (auto simp: T_def fresh_def resumes_def split: if_splits)
  ultimately show "filter (fresh rs cur ids) (T @ take (b - length T) Q) = take (b - length T) Q"
    by (simp add: filter_empty_conv) (meson filter_True in_set_takeD)
qed

text \<open>What is read next ends at a later token than what has been read: its rowids are all that the next read must skip.\<close>

lemma resumed_again:
  assumes "by_tokens rs rows" "interval rs startToken endToken rows = P @ Q" "resumes rs startToken P cur ids"
    "shared_tokens_fit rs b (P @ Q)" "Q \<noteq> []"
  defines "T \<equiv> if P = [] then [] else filter (\<lambda>v. tok rs v = cur) P"
  defines "N \<equiv> take (b - length T) Q"
  shows "N \<noteq> []" "resumes rs startToken (P @ N) (tok rs (last N)) (map (rid rs) (takeWhile (\<lambda>v. tok rs v = tok rs (last N)) (rev N)))"
proof -
  let ?t = "tok rs (last N)"
  have T: "length T < b" using resumed_page(2) [OF assms(1-4)] unfolding T_def .
  then show N: "N \<noteq> []" unfolding N_def using assms(5) by simp
  have PQ: "P @ Q = P @ N @ drop (b - length T) Q" unfolding N_def by simp
  have sorted: "sorted (map (tok rs) (P @ N @ drop (b - length T) Q))"
    unfolding PQ [symmetric] assms(2) [symmetric] interval_def using assms(1) by (auto simp: by_tokens_def sorted_filter)
  have b: "length (filter (\<lambda>v. tok rs v = t) (P @ Q)) < b" for t using assms(4) unfolding shared_tokens_fit_def by blast
  have "\<forall>v\<in>set (rev N). tok rs v \<le> ?t" "sorted (map (tok rs) (rev (rev N)))"
    using sorted_split(1) [of "tok rs" N "drop (b - length T) Q"] sorted N by (simp_all add: sorted_append)
  from takeWhile_top [OF this(2,1)]
  have tail: "set (takeWhile (\<lambda>v. tok rs v = ?t) (rev N)) = {v\<in>set N. tok rs v = ?t}" by simp
  have "tok rs v \<noteq> ?t" if v: "v \<in> set P" for v
  proof
    assume eq: "tok rs v = ?t"
    have P: "P \<noteq> []" using v by auto
    then have P: "P \<noteq> []" "cur = tok rs (last P)" using assms(3) by (simp_all add: resumes_def)
    have PN: "sorted (map (tok rs) (P @ N))" using sorted by (simp add: sorted_append)
    note s = sorted_split [OF PN P(1)]
    have cur: "?t = cur" using s(1) v s(2) last_in_set [OF N] eq P(2) by force
    moreover have "\<forall>x\<in>set N. tok rs x \<le> ?t" using \<open>\<forall>v\<in>set (rev N). tok rs v \<le> ?t\<close> by simp
    ultimately have same: "\<forall>x\<in>set N. tok rs x = cur" using s(2) P(2) by force
    have "filter (\<lambda>v. tok rs v = cur) (P @ N) = T @ N" using same P(1) by (simp add: T_def)
    then have few: "length (T @ N) < b"
      using b [of cur] PQ by (metis (no_types, lifting) append_assoc filter_append le_add1 length_append order_le_less_trans)
    then have "Q = N" unfolding N_def by auto
    then have one: "length (filter (\<lambda>v. tok rs v = cur) (P @ N)) = 1"
      using assms(4) N cur unfolding shared_tokens_fit_def by simp
    have "T \<noteq> []" using last_in_set [OF P(1)] P by (auto simp: T_def filter_empty_conv)
    then have "2 \<le> length (T @ N)" using N by (cases T; cases N) auto
    then show False using one unfolding \<open>filter (\<lambda>v. tok rs v = cur) (P @ N) = T @ N\<close> by linarith
  qed
  then show "resumes rs startToken (P @ N) ?t (map (rid rs) (takeWhile (\<lambda>v. tok rs v = ?t) (rev N)))"
    unfolding resumes_def using N tail by auto
qed

lemma token_loop_resumed:
  assumes "\<not> unsupported_rows rs" "by_tokens rs rows" "serves_tokens D rs tableName runId b endToken rows"
    "interval rs startToken endToken rows = P @ Q" "resumes rs startToken P cur ids" "shared_tokens_fit rs b (P @ Q)"
  shows "\<exists>pages. concat pages = Q \<and> (\<forall>p\<in>set pages. p \<noteq> [] \<and> length p \<le> b) \<and>
    (\<forall>fuel s w. length Q < fuel \<longrightarrow>
       token_loop fuel (\<lambda>t ids. selectBatchFromTableByToken D rs tableName runId b t endToken ids) page cur ids s w =
       Some (run_pages page pages s w))"
  using assms(4-6)
proof (induction "length Q" arbitrary: P Q cur ids rule: less_induct)
  case less
  define T where "T = (if P = [] then [] else filter (\<lambda>v. tok rs v = cur) P)"
  define N where "N = take (b - length T) Q"
  let ?sel = "\<lambda>t ids. selectBatchFromTableByToken D rs tableName runId b t endToken ids"
  note p = resumed_page [OF assms(2) less.prems, folded T_def, folded N_def]
  show ?case
  proof (cases "Q = []")
    case True
    have sel: "\<exists>t js. ?sel cur ids w = (Inr ([], t, js), w)" for w
      unfolding select_by_token [OF assms(1-3)] Let_def p(1,3) using True by (simp add: N_def)
    have "token_loop fuel ?sel page cur ids s w = Some ((None, s), w)" if "0 < fuel" for fuel s w
    proof -
      obtain t js where "?sel cur ids w = (Inr ([], t, js), w)" using sel by blast
      then show ?thesis using that by (cases fuel) simp_all
    qed
    then show ?thesis using True by (intro exI [of _ "[]"]) simp
  next
    case False
    note n = resumed_again [OF assms(2) less.prems False, folded T_def, folded N_def]
    define ids1 where "ids1 = map (rid rs) (takeWhile (\<lambda>v. tok rs v = tok rs (last N)) (rev N))"
    have sel: "?sel cur ids w = (Inr (N, tok rs (last N), ids1), w)" for w
      unfolding select_by_token [OF assms(1-3)] Let_def p(1,3) using n(1) by (simp add: ids1_def)
    have Q: "Q = N @ drop (b - length T) Q" unfolding N_def by simp
    then have shorter: "length (drop (b - length T) Q) < length Q" using n(1) by (metis less_add_same_cancel2 length_append length_greater_0_conv)
    have rest: "P @ Q = (P @ N) @ drop (b - length T) Q" using Q by simp
    obtain pages where pages: "concat pages = drop (b - length T) Q" "\<forall>p\<in>set pages. p \<noteq> [] \<and> length p \<le> b"
      "\<And>fuel s w. length (drop (b - length T) Q) < fuel \<Longrightarrow>
         token_loop fuel ?sel page (tok rs (last N)) ids1 s w = Some (run_pages page pages s w)"
      using less.hyps [OF shorter less.prems(1) [unfolded rest] n(2) less.prems(3) [unfolded rest]] unfolding ids1_def by blast
    have "token_loop fuel ?sel page cur ids s w = Some (run_pages page (N # pages) s w)" if len: "length Q < fuel" for fuel s w
    proof -
      obtain m where m: "fuel = Suc m" "length (drop (b - length T) Q) < m" using len shorter by (cases fuel) simp_all
      show ?thesis unfolding m(1) token_loop.simps sel using n(1) pages(3) [OF m(2)]
        by (auto split: prod.split option.split)
    qed
    moreover have "length N \<le> b" unfolding N_def by simp
    ultimately show ?thesis using pages(1,2) n(1) Q by (intro exI [of _ "N # pages"]) simp
  qed
qed

lemma token_interval_pages:
  assumes "\<not> unsupported_rows rs" "by_tokens rs rows" "serves_tokens D rs tableName runId b endToken rows"
    "shared_tokens_fit rs b (interval rs startToken endToken rows)"
  shows "\<exists>pages. concat pages = interval rs startToken endToken rows \<and> (\<forall>p\<in>set pages. p \<noteq> [] \<and> length p \<le> b) \<and>
    (\<forall>fuel s w. length (interval rs startToken endToken rows) < fuel \<longrightarrow>
       token_loop fuel (\<lambda>t ids. selectBatchFromTableByToken D rs tableName runId b t endToken ids) page startToken [] s w =
       Some (run_pages page pages s w))"
proof -
  have "resumes rs startToken [] startToken []" by (simp add: resumes_def)
  then show ?thesis using token_loop_resumed [OF assms(1-3), of startToken "[]" "interval rs startToken endToken rows"] assms(4) by simp
qed

text \<open>C39: Reading the rows of a token interval page by page, a batch processor handles every row of the interval exactly once, in the
  order of the tokens, and the loop ends, provided that fewer rows than the rowset holds share a token and the last
  token of the interval has one row. Rows with the same token may be split over two pages.\<close>

theorem token_interval_is_read_once:
  assumes "\<not> unsupported_rows rs" "by_tokens rs rows" "serves_tokens D rs tableName runId b endToken rows"
    "shared_tokens_fit rs b (interval rs startToken endToken rows)"
  shows "\<exists>pages. concat pages = interval rs startToken endToken rows \<and> (\<forall>p\<in>set pages. p \<noteq> [] \<and> length p \<le> b) \<and>
    (\<forall>fuel s w. length (interval rs startToken endToken rows) < fuel \<longrightarrow>
       token_loop fuel (\<lambda>t ids. selectBatchFromTableByToken D rs tableName runId b t endToken ids) page startToken [] s w =
       Some (run_pages page pages s w))"
  by (rule token_interval_pages [OF assms])

text \<open>Four rows, two of which share a token and are split over the pages.\<close>

definition token_rowset :: rowset where
  "token_rowset = NewRowsetFromFieldRefs [[RowidFieldRef ''orders''], [RowidTokenFieldRef]]"

definition four_rows :: "(int, int) gval list list" where
  "four_rows = [[VInt64 10, VInt64 1], [VInt64 20, VInt64 5], [VInt64 21, VInt64 5], [VInt64 30, VInt64 9]]"

definition tokens_db :: "rowset \<Rightarrow> nat \<Rightarrow> (int, int) gval list list \<Rightarrow> (unit, int, int) read_db" where
  "tokens_db rs b rows =
     \<lparr>rdb_Iter = (\<lambda>q ps n w. (case ps of [VInt64 s, VInt64 e] \<Rightarrow> Inr (take b (interval rs s e rows)) | _ \<Rightarrow> Inl ''parameters'', w)),
      rdb_Close = (\<lambda>q w. (None, w)), rdb_Scanner = (\<lambda>q ps n st w. (Inr ('''', [], None), w)), rdb_Keyspace = ''ks'', rdb_fv = (\<lambda>v. '''')\<rparr>"

lemma tokens_db_serves: "serves_tokens (tokens_db rs b rows) rs tableName runId b endToken rows"
  by (simp add: serves_tokens_def tokens_db_def Let_def)

lemma token_rowset_fields:
  "token_rowset = \<lparr>rs_Fields = [RowidFieldRef ''orders'', RowidTokenFieldRef],
     rs_FieldsByFullAliasName = [(GetAliasHash (RowidFieldRef ''orders''), 0), (GetAliasHash RowidTokenFieldRef, 1)],
     rs_FieldsByFieldName = [(''rowid'', 0), (''token(rowid)'', 1)]\<rparr>"
  by code_simp

lemma token_rowset_cells:
  "int64_cell token_rowset ''rowid'' [VInt64 i, VInt64 t] = Inr i" "int64_cell token_rowset ''token(rowid)'' [VInt64 i, VInt64 t] = Inr t"
  "\<not> unsupported_rows token_rowset"
  by (simp_all add: token_rowset_fields int64_cell_def unsupported_rows_def RowidFieldRef_def RowidTokenFieldRef_def)

lemma token_interval_is_read_once_witness:
  "\<exists>pages. concat pages = four_rows \<and>
     token_loop 5 (\<lambda>t ids. selectBatchFromTableByToken (tokens_db token_rowset 3 four_rows) token_rowset ''orders'' 1 3 t 10 ids)
       (\<lambda>rows (s::int) w. ((None, s + int (length rows)), w)) 0 [] 0 () =
     Some (run_pages (\<lambda>rows (s::int) w. ((None, s + int (length rows)), w)) pages 0 ())"
proof -
  have i: "interval token_rowset 0 10 four_rows = four_rows"
    by (simp add: interval_def four_rows_def tok_def token_rowset_cells)
  have sd: "by_tokens token_rowset four_rows"
    by (simp add: by_tokens_def four_rows_def token_row_def tok_def rid_def token_rowset_cells)
  have f: "shared_tokens_fit token_rowset 3 (interval token_rowset 0 10 four_rows)"
    unfolding i by (simp add: shared_tokens_fit_def four_rows_def tok_def token_rowset_cells)
  have l: "length four_rows < 5" by (simp add: four_rows_def)
  from token_interval_is_read_once [OF token_rowset_cells(3) sd tokens_db_serves f, where tableName = "''orders''" and runId = 1
      and page = "\<lambda>rows (s::int) w. ((None, s + int (length rows)), w)"]
  obtain pages where "concat pages = four_rows" "\<And>fuel s w. length four_rows < fuel \<Longrightarrow>
      token_loop fuel (\<lambda>t ids. selectBatchFromTableByToken (tokens_db token_rowset 3 four_rows) token_rowset ''orders'' 1 3 t 10 ids)
        (\<lambda>rows (s::int) w. ((None, s + int (length rows)), w)) 0 [] s w =
      Some (run_pages (\<lambda>rows (s::int) w. ((None, s + int (length rows)), w)) pages s w)" unfolding i by blast
  then show ?thesis using l by blast
qed

subsection \<open>Where the loop goes wrong\<close>

text \<open>A rowset of one row: the second read finds the first row again, takes it for the end, and the other rows are never read.\<close>

lemma rowset_of_one_reads_one_row:
  assumes "\<not> unsupported_rows rs" "by_tokens rs rows" "serves_tokens D rs tableName runId 1 endToken rows"
    "interval rs startToken endToken rows = r # rest"
  shows "token_loop (Suc (Suc n)) (\<lambda>t ids. selectBatchFromTableByToken D rs tableName runId 1 t endToken ids) page startToken [] s w =
    Some (run_pages page [[r]] s w)"
proof -
  let ?sel = "\<lambda>t ids. selectBatchFromTableByToken D rs tableName runId 1 t endToken ids"
  have i: "v \<in> set (r # rest) \<Longrightarrow> startToken \<le> tok rs v \<and> tok rs v \<le> endToken" for v
    unfolding assms(4) [symmetric] interval_def by simp
  have "sorted (map (tok rs) (r # rest))"
    unfolding assms(4) [symmetric] interval_def using assms(2) by (simp add: by_tokens_def sorted_filter)
  then have "filter (\<lambda>v. tok rs r \<le> tok rs v) (r # rest) = r # rest" by simp
  moreover have "interval rs (tok rs r) endToken rows = filter (\<lambda>v. tok rs r \<le> tok rs v) (r # rest)"
    unfolding assms(4) [symmetric] interval_def using i [of r] by (auto intro: filter_cong)
  ultimately have again: "interval rs (tok rs r) endToken rows = r # rest" by simp
  have first: "?sel startToken [] w = (Inr ([r], tok rs r, [rid rs r]), w)" for w
    unfolding select_by_token [OF assms(1-3)] assms(4) by (simp add: fresh_def)
  have "\<exists>t js. ?sel (tok rs r) [rid rs r] w = (Inr ([], t, js), w)" for w
    unfolding select_by_token [OF assms(1-3)] again by (simp add: fresh_def Let_def)
  then obtain t js where second: "\<And>w. ?sel (tok rs r) [rid rs r] w = (Inr ([], t w, js w), w)" by metis
  show ?thesis unfolding token_loop.simps first by (auto simp: second [unfolded One_nat_def] split: prod.split option.split)
qed

text \<open>Two rows that share the last token and are split over two pages: each read finds the one that the previous read has handled.\<close>

lemma shared_last_token_never_ends:
  assumes "\<not> unsupported_rows rs" "by_tokens rs rows" "serves_tokens D rs tableName runId 2 endToken rows"
    "interval rs startToken endToken rows = [x, y, z]" "tok rs x < tok rs y" "tok rs y = tok rs z"
    "\<And>p s w. \<exists>s1 w1. page p s w = ((None, s1), w1)"
  shows "token_loop n (\<lambda>t ids. selectBatchFromTableByToken D rs tableName runId 2 t endToken ids) page startToken [] s w = None"
proof -
  let ?sel = "\<lambda>t ids. selectBatchFromTableByToken D rs tableName runId 2 t endToken ids"
  have "distinct (map (rid rs) [x, y, z])"
    unfolding assms(4) [symmetric] interval_def using assms(2) by (simp add: by_tokens_def distinct_map_filter)
  then have ne: "rid rs y \<noteq> rid rs z" by simp
  have i: "v \<in> set [x, y, z] \<Longrightarrow> startToken \<le> tok rs v \<and> tok rs v \<le> endToken" for v
    unfolding assms(4) [symmetric] interval_def by simp
  have "interval rs (tok rs y) endToken rows = filter (\<lambda>v. tok rs y \<le> tok rs v) [x, y, z]"
    unfolding assms(4) [symmetric] interval_def using i [of y] by (auto intro: filter_cong)
  then have again: "interval rs (tok rs y) endToken rows = [y, z]" using assms(5,6) by simp
  have first: "?sel startToken [] w = (Inr ([x, y], tok rs y, [rid rs y]), w)" for w
    unfolding select_by_token [OF assms(1-3)] assms(4) using assms(5) by (simp add: fresh_def)
  have toggle: "?sel (tok rs y) [rid rs y] w = (Inr ([z], tok rs y, [rid rs z]), w)"
    "?sel (tok rs y) [rid rs z] w = (Inr ([y], tok rs y, [rid rs y]), w)" for w
    unfolding select_by_token [OF assms(1-3)] again using assms(6) ne by (simp_all add: fresh_def)
  have loop: "token_loop n ?sel page (tok rs y) [rid rs y] s w = None \<and> token_loop n ?sel page (tok rs y) [rid rs z] s w = None" for n s w
  proof (induction n arbitrary: s w)
    case (Suc n)
    obtain s1 w1 s2 w2 where "page [z] s w = ((None, s1), w1)" "page [y] s w = ((None, s2), w2)" using assms(7) by metis
    then show ?case using Suc.IH by (simp add: toggle)
  qed simp
  obtain s1 w1 where "page [x, y] s w = ((None, s1), w1)" using assms(7) by blast
  then show ?thesis using loop by (cases n) (simp_all add: first)
qed

end
