(* ===== verification/Go_Heap.thy ===== *)
theory Go_Heap
  imports Prelude
begin

text \<open>
  The priority queue of Go's container/heap on a slice: sifting up and down, Push and Pop, for any
  comparison function. The contract of the comparison is a locale; under it the slice is a heap
  after every operation, and Pop takes an element that no other one precedes.
\<close>

definition swap_at :: "nat \<Rightarrow> nat \<Rightarrow> 'a list \<Rightarrow> 'a list" where
  "swap_at i j h = h[i := h ! j, j := h ! i]"

function heap_up :: "('a \<Rightarrow> 'a \<Rightarrow> bool) \<Rightarrow> 'a list \<Rightarrow> nat \<Rightarrow> 'a list" where
  "heap_up lt h j =
     (let i = (j - 1) div 2 in
      if i = j \<or> \<not> lt (h ! j) (h ! i) then h else heap_up lt (swap_at i j h) i)"
  by pat_completeness auto
termination by (relation "measure (\<lambda>(_, _, j). j)") auto

declare heap_up.simps [simp del]

function heap_down :: "('a \<Rightarrow> 'a \<Rightarrow> bool) \<Rightarrow> 'a list \<Rightarrow> nat \<Rightarrow> nat \<Rightarrow> 'a list" where
  "heap_down lt h i n =
     (let j1 = 2 * i + 1 in
      if j1 \<ge> n then h
      else (let j = (if j1 + 1 < n \<and> lt (h ! (j1 + 1)) (h ! j1) then j1 + 1 else j1) in
            if \<not> lt (h ! j) (h ! i) then h else heap_down lt (swap_at i j h) j n))"
  by pat_completeness auto
termination by (relation "measure (\<lambda>(_, _, i, n). n - i)") (auto simp: Let_def split: if_splits)

declare heap_down.simps [simp del]

definition heap_Push :: "('a \<Rightarrow> 'a \<Rightarrow> bool) \<Rightarrow> 'a \<Rightarrow> 'a list \<Rightarrow> 'a list" where
  "heap_Push lt x h = heap_up lt (h @ [x]) (length h)"

text \<open>Pop on an empty slice panics; it is not called on one.\<close>

definition heap_Pop :: "('a \<Rightarrow> 'a \<Rightarrow> bool) \<Rightarrow> 'a list \<Rightarrow> 'a \<times> 'a list" where
  "heap_Pop lt h =
     (let n = length h - 1; h1 = heap_down lt (swap_at 0 n h) 0 n in (last h1, butlast h1))"

lemma length_swap_at [simp]: "length (swap_at i j h) = length h"
  by (simp add: swap_at_def)

lemma nth_swap_at:
  "i < length h \<Longrightarrow> j < length h \<Longrightarrow> swap_at i j h ! k = (if k = i then h ! j else if k = j then h ! i else h ! k)"
  by (auto simp: swap_at_def nth_list_update)

lemma mset_swap_at: "i < length h \<Longrightarrow> j < length h \<Longrightarrow> mset (swap_at i j h) = mset h"
  by (simp add: swap_at_def mset_swap)

lemma mset_heap_up: "j < length h \<Longrightarrow> mset (heap_up lt h j) = mset h"
proof (induction lt h j rule: heap_up.induct)
  case (1 lt h j)
  then show ?case by (subst heap_up.simps) (auto simp: Let_def mset_swap_at)
qed

lemma mset_heap_down: "n \<le> length h \<Longrightarrow> i < length h \<Longrightarrow> mset (heap_down lt h i n) = mset h"
proof (induction lt h i n rule: heap_down.induct)
  case (1 lt h i n)
  then show ?case by (subst heap_down.simps) (auto simp: Let_def mset_swap_at)
qed

lemma mset_heap_Push: "mset (heap_Push lt x h) = add_mset x (mset h)"
  by (simp add: heap_Push_def mset_heap_up)

text \<open>Sifting down the first n elements leaves the others alone.\<close>

lemma heap_down_frame: "n \<le> length h \<Longrightarrow> i < n \<Longrightarrow> length (heap_down lt h i n) = length h \<and> drop n (heap_down lt h i n) = drop n h"
proof (induction lt h i n rule: heap_down.induct)
  case (1 lt h i n)
  then show ?case by (subst (1 2) heap_down.simps) (auto simp: Let_def swap_at_def)
qed

locale heap_order =
  fixes lt :: "'a \<Rightarrow> 'a \<Rightarrow> bool"
  assumes lt_asym: "lt x y \<Longrightarrow> \<not> lt y x"
    and lt_trans: "\<not> lt x y \<Longrightarrow> \<not> lt y z \<Longrightarrow> \<not> lt x z"
begin

text \<open>No element precedes its parent.\<close>

definition is_heap :: "nat \<Rightarrow> 'a list \<Rightarrow> bool" where
  "is_heap n h \<longleftrightarrow> (\<forall>j<n. 0 < j \<longrightarrow> \<not> lt (h ! j) (h ! ((j - 1) div 2)))"

text \<open>While an element is sifted up, only it may precede its parent, and its children do not precede its parent.\<close>

definition heap_but_up :: "nat \<Rightarrow> 'a list \<Rightarrow> bool" where
  "heap_but_up k h \<longleftrightarrow> (\<forall>j<length h. 0 < j \<longrightarrow>
     (j \<noteq> k \<longrightarrow> \<not> lt (h ! j) (h ! ((j - 1) div 2))) \<and>
     ((j - 1) div 2 = k \<and> 0 < k \<longrightarrow> \<not> lt (h ! j) (h ! ((k - 1) div 2))))"

text \<open>While an element is sifted down, only its children may precede it, and they do not precede its parent.\<close>

definition heap_but_down :: "nat \<Rightarrow> nat \<Rightarrow> 'a list \<Rightarrow> bool" where
  "heap_but_down k n h \<longleftrightarrow> (\<forall>j<n. 0 < j \<longrightarrow>
     ((j - 1) div 2 \<noteq> k \<longrightarrow> \<not> lt (h ! j) (h ! ((j - 1) div 2))) \<and>
     ((j - 1) div 2 = k \<and> 0 < k \<longrightarrow> \<not> lt (h ! j) (h ! ((k - 1) div 2))))"

lemma parent_less: "0 < (m::nat) \<Longrightarrow> (m - 1) div 2 < m"
  by linarith

lemma heap_but_upD:
  assumes "heap_but_up k h" "j < length h" "0 < j"
  shows "j \<noteq> k \<Longrightarrow> \<not> lt (h ! j) (h ! ((j - 1) div 2))"
    "(j - 1) div 2 = k \<Longrightarrow> 0 < k \<Longrightarrow> \<not> lt (h ! j) (h ! ((k - 1) div 2))"
  using assms unfolding heap_but_up_def by blast+

lemma heap_but_downD:
  assumes "heap_but_down k n h" "j < n" "0 < j"
  shows "(j - 1) div 2 \<noteq> k \<Longrightarrow> \<not> lt (h ! j) (h ! ((j - 1) div 2))"
    "(j - 1) div 2 = k \<Longrightarrow> 0 < k \<Longrightarrow> \<not> lt (h ! j) (h ! ((k - 1) div 2))"
  using assms unfolding heap_but_down_def by blast+

lemma swap_up:
  assumes "k < length h" "0 < k" "heap_but_up k h" "lt (h ! k) (h ! ((k - 1) div 2))"
  shows "heap_but_up ((k - 1) div 2) (swap_at ((k - 1) div 2) k h)"
proof -
  let ?i = "(k - 1) div 2"
  have i: "?i < k" "?i < length h" using assms(1,2) by auto
  have rev_lt: "\<not> lt (h ! ?i) (h ! k)" using lt_asym assms(4) by blast
  show ?thesis unfolding heap_but_up_def length_swap_at
  proof (intro allI impI conjI)
    fix j
    assume j: "j < length h" "0 < j"
    assume "j \<noteq> ?i"
    then consider "j = k" | "j \<noteq> k" "(j - 1) div 2 = k" | "j \<noteq> k" "(j - 1) div 2 = ?i" |
      "j \<noteq> k" "(j - 1) div 2 \<noteq> k" "(j - 1) div 2 \<noteq> ?i" by blast
    then show "\<not> lt (swap_at ?i k h ! j) (swap_at ?i k h ! ((j - 1) div 2))"
    proof cases
      case 1
      then show ?thesis using rev_lt i assms(1) by (simp add: nth_swap_at)
    next
      case 2
      then show ?thesis using heap_but_upD(2) [OF assms(3) j 2(2) assms(2)] i assms(1) \<open>j \<noteq> ?i\<close> by (simp add: nth_swap_at)
    next
      case 3
      then show ?thesis using lt_trans [OF heap_but_upD(1) [OF assms(3) j 3(1), unfolded 3(2)] rev_lt] i assms(1) \<open>j \<noteq> ?i\<close>
        by (simp add: nth_swap_at)
    next
      case 4
      then show ?thesis using heap_but_upD(1) [OF assms(3) j 4(1)] i assms(1) \<open>j \<noteq> ?i\<close> by (simp add: nth_swap_at)
    qed
  next
    fix j
    assume j: "j < length h" "0 < j" and p: "(j - 1) div 2 = ?i \<and> 0 < ?i"
    have g: "(?i - 1) div 2 < ?i" by (rule parent_less) (use p in blast)
    have up: "\<not> lt (h ! ?i) (h ! ((?i - 1) div 2))" using heap_but_upD(1) [OF assms(3) i(2)] p i(1) by auto
    have "j \<noteq> ?i" using p j(2) by auto
    show "\<not> lt (swap_at ?i k h ! j) (swap_at ?i k h ! ((?i - 1) div 2))"
    proof (cases "j = k")
      case True
      then show ?thesis using up g i assms(1) by (simp add: nth_swap_at)
    next
      case False
      then show ?thesis using lt_trans [OF heap_but_upD(1) [OF assms(3) j False, unfolded conjunct1 [OF p]] up] g i assms(1) \<open>j \<noteq> ?i\<close>
        by (simp add: nth_swap_at)
    qed
  qed
qed

lemma heap_up_heap: "k < length h \<Longrightarrow> heap_but_up k h \<Longrightarrow> is_heap (length h) (heap_up lt h k)"
proof (induction k arbitrary: h rule: less_induct)
  case (less k)
  show ?case
  proof (cases "(k - 1) div 2 = k \<or> \<not> lt (h ! k) (h ! ((k - 1) div 2))")
    case True
    then have "is_heap (length h) h" unfolding is_heap_def using heap_but_upD(1) [OF less.prems(2)] by fastforce
    then show ?thesis using True by (subst heap_up.simps) (simp add: Let_def)
  next
    case False
    then have k: "0 < k" "(k - 1) div 2 < k" by auto
    then show ?thesis using less.IH [OF k(2), of "swap_at ((k - 1) div 2) k h"] swap_up [OF less.prems(1) k(1) less.prems(2)] False less.prems(1)
      by (subst heap_up.simps) (simp add: Let_def)
  qed
qed

text \<open>The child that goes up precedes its parent, and its sibling does not precede it.\<close>

lemma swap_down:
  assumes "i < n" "n \<le> length h" "heap_but_down i n h" "j < n" "0 < j" "(j - 1) div 2 = i" "lt (h ! j) (h ! i)"
    "\<And>c. c < n \<Longrightarrow> 0 < c \<Longrightarrow> (c - 1) div 2 = i \<Longrightarrow> \<not> lt (h ! c) (h ! j)"
  shows "heap_but_down j n (swap_at i j h)"
proof -
  have b: "i < length h" "j < length h" "i < j" using assms(1,2,4,6) parent_less [OF assms(5)] by auto
  have rev_lt: "\<not> lt (h ! i) (h ! j)" using lt_asym assms(7) by blast
  show ?thesis unfolding heap_but_down_def
  proof (intro allI impI conjI)
    fix c
    assume c: "c < n" "0 < c" "(c - 1) div 2 \<noteq> j"
    consider "c = j" | "c \<noteq> j" "(c - 1) div 2 = i" | "c = i" "(c - 1) div 2 \<noteq> i" | "c \<noteq> j" "c \<noteq> i" "(c - 1) div 2 \<noteq> i" by blast
    then show "\<not> lt (swap_at i j h ! c) (swap_at i j h ! ((c - 1) div 2))"
    proof cases
      case 1
      then show ?thesis using rev_lt b assms(6) by (simp add: nth_swap_at)
    next
      case 2
      moreover have "c \<noteq> i" using 2(2) parent_less [OF c(2)] by auto
      ultimately show ?thesis using assms(8) [OF c(1,2)] b by (simp add: nth_swap_at)
    next
      case 3
      then show ?thesis using heap_but_downD(2) [OF assms(3-6)] c b by (simp add: nth_swap_at)
    next
      case 4
      then show ?thesis using heap_but_downD(1) [OF assms(3) c(1,2)] c(3) b by (simp add: nth_swap_at)
    qed
  next
    fix c
    assume c: "c < n" "0 < c" and p: "(c - 1) div 2 = j \<and> 0 < j"
    have "c \<noteq> j" using p parent_less [OF c(2)] by auto
    moreover have "c \<noteq> i" using p b(3) parent_less [OF c(2)] by auto
    ultimately show "\<not> lt (swap_at i j h ! c) (swap_at i j h ! ((j - 1) div 2))"
      using heap_but_downD(1) [OF assms(3) c] p b assms(6) by (simp add: nth_swap_at)
  qed
qed

lemma heap_down_heap: "i < n \<Longrightarrow> n \<le> length h \<Longrightarrow> heap_but_down i n h \<Longrightarrow> is_heap n (heap_down lt h i n)"
proof (induction "n - i" arbitrary: i h rule: less_induct)
  case less
  define j where "j = (if 2 * i + 1 + 1 < n \<and> lt (h ! (2 * i + 1 + 1)) (h ! (2 * i + 1)) then 2 * i + 1 + 1 else 2 * i + 1)"
  have child: "c = 2 * i + 1 \<or> c = 2 * i + 1 + 1" if "0 < c" "(c - 1) div 2 = i" for c using that by presburger
  have least: "\<not> lt (h ! c) (h ! j)" if "c < n" "0 < c" "(c - 1) div 2 = i" for c
    using child [OF that(2,3)] that(1) lt_asym by (auto simp: j_def)
  show ?case
  proof (cases "n \<le> 2 * i + 1")
    case True
    then have "(c - 1) div 2 \<noteq> i" if "c < n" "0 < c" for c using child that by fastforce
    then have "is_heap n h" unfolding is_heap_def using heap_but_downD(1) [OF less.prems(3)] by blast
    then show ?thesis using True by (subst heap_down.simps) (simp add: Let_def)
  next
    case False
    then have j: "j < n" "0 < j" "(j - 1) div 2 = i" "i < j" unfolding j_def by auto
    have step: "heap_down lt h i n = (if \<not> lt (h ! j) (h ! i) then h else heap_down lt (swap_at i j h) j n)"
      using False by (subst heap_down.simps) (simp add: Let_def j_def)
    show ?thesis
    proof (cases "lt (h ! j) (h ! i)")
      case True
      then show ?thesis
        using less.hyps [of j "swap_at i j h"] swap_down [OF less.prems j(1-3) True least] j less.prems(2) step by simp
    next
      case no: False
      have "\<not> lt (h ! c) (h ! ((c - 1) div 2))" if c: "c < n" "0 < c" for c
        using heap_but_downD(1) [OF less.prems(3) c] lt_trans [OF least [OF c] no] by metis
      then have "is_heap n h" unfolding is_heap_def by blast
      then show ?thesis using no step by simp
    qed
  qed
qed

lemma heap_root: "is_heap n h \<Longrightarrow> j < n \<Longrightarrow> \<not> lt (h ! j) (h ! 0)"
proof (induction j rule: less_induct)
  case (less j)
  show ?case
  proof (cases "j = 0")
    case True
    then show ?thesis using lt_asym by blast
  next
    case False
    then have "\<not> lt (h ! j) (h ! ((j - 1) div 2))" using less.prems unfolding is_heap_def by blast
    moreover have "\<not> lt (h ! ((j - 1) div 2)) (h ! 0)" using less False parent_less [of j] by auto
    ultimately show ?thesis by (rule lt_trans)
  qed
qed

lemma is_heap_Nil [simp]: "is_heap 0 h"
  by (simp add: is_heap_def)

lemma is_heap_butlast:
  assumes "is_heap n h" "length h = Suc n"
  shows "is_heap n (butlast h)"
  unfolding is_heap_def
proof (intro allI impI)
  fix j
  assume j: "j < n" "0 < j"
  have "(j - 1) div 2 < n" using j(1) parent_less [OF j(2)] by simp
  then show "\<not> lt (butlast h ! j) (butlast h ! ((j - 1) div 2))"
    using assms j unfolding is_heap_def by (simp add: nth_butlast)
qed

lemma heap_Push_heap:
  assumes "is_heap (length h) h"
  shows "is_heap (length (heap_Push lt x h)) (heap_Push lt x h)"
proof -
  have "heap_but_up (length h) (h @ [x])"
    unfolding heap_but_up_def
  proof (intro allI impI conjI)
    fix j
    assume j: "j < length (h @ [x])" "0 < j" "j \<noteq> length h"
    then have "(j - 1) div 2 < length h" "j < length h" using parent_less [OF j(2)] by auto
    then show "\<not> lt ((h @ [x]) ! j) ((h @ [x]) ! ((j - 1) div 2))" using assms j(2) unfolding is_heap_def by (simp add: nth_append)
  next
    fix j
    assume j: "j < length (h @ [x])" "0 < j" "(j - 1) div 2 = length h \<and> 0 < length h"
    then show "\<not> lt ((h @ [x]) ! j) ((h @ [x]) ! ((length h - 1) div 2))" using parent_less [OF j(2)] by auto
  qed
  then have "is_heap (length (h @ [x])) (heap_up lt (h @ [x]) (length h))" by (intro heap_up_heap) simp_all
  moreover have "length (heap_up lt (h @ [x]) (length h)) = length (h @ [x])"
    using mset_heap_up [of "length h" "h @ [x]" lt] by (metis length_append_singleton lessI size_mset)
  ultimately show ?thesis unfolding heap_Push_def by simp
qed

lemma heap_Pop_heap:
  assumes "h \<noteq> []" "is_heap (length h) h" "heap_Pop lt h = (x, h1)"
  shows "mset h = add_mset x (mset h1)" "is_heap (length h1) h1" "\<forall>y\<in>set h. \<not> lt y x"
proof -
  let ?n = "length h - 1"
  let ?s = "swap_at 0 ?n h"
  let ?d = "heap_down lt ?s 0 ?n"
  have n: "?n < length h" "0 < length h" using assms(1) by simp_all
  have x: "x = last ?d" and h1: "h1 = butlast ?d" using assms(3) by (simp_all add: heap_Pop_def Let_def)
  have m: "mset ?d = mset h" using n mset_heap_down [of ?n ?s 0 lt] by (simp add: mset_swap_at)
  then have ne: "?d \<noteq> []" and len: "length ?d = length h" using assms(1) by (auto dest: mset_eq_length)
  show "mset h = add_mset x (mset h1)"
    unfolding m [symmetric] x h1 using ne by (metis add_mset_add_single append_butlast_last_id mset.simps(1) mset.simps(2) mset_append)
  have root: "x = h ! 0 \<and> is_heap (length h1) h1"
  proof (cases "?n = 0")
    case True
    then obtain y where h: "h = [y]" using assms(1) by (cases h) auto
    have "heap_down lt [y] 0 0 = [y]" by (subst heap_down.simps) simp
    then show ?thesis using x h1 unfolding h by (simp add: swap_at_def)
  next
    case False
    have "heap_but_down 0 ?n ?s"
      unfolding heap_but_down_def
    proof (intro allI impI conjI)
      fix j
      assume j: "j < ?n" "0 < j" "(j - 1) div 2 \<noteq> 0"
      have "(j - 1) div 2 < ?n" using j(1) parent_less [OF j(2)] by simp
      then show "\<not> lt (?s ! j) (?s ! ((j - 1) div 2))" using assms(2) n j unfolding is_heap_def by (simp add: nth_swap_at)
    qed simp
    then have "is_heap ?n ?d" using False by (intro heap_down_heap) simp_all
    then have "is_heap ?n h1" unfolding h1 using len n(2) by (intro is_heap_butlast) simp_all
    moreover have "drop ?n ?d = drop ?n ?s" using heap_down_frame [of ?n ?s 0 lt] False by simp
    then have "last ?d = last ?s" by (metis len last_drop length_swap_at n(1))
    moreover have "?s \<noteq> []" using n(2) by (metis length_greater_0_conv length_swap_at)
    then have "last ?s = h ! 0" using n by (simp add: last_conv_nth nth_swap_at)
    ultimately show ?thesis using x h1 len by simp
  qed
  show "is_heap (length h1) h1" using root by blast
  show "\<forall>y\<in>set h. \<not> lt y x" using heap_root [OF assms(2)] root by (auto simp: in_set_conv_nth)
qed

end

end
