(* ===== verification/File_Output.thy ===== *)
theory File_Output
  imports Token_Read File_Creator Go_Heap
begin

text \<open>
  Writing the rows of a table to a file (readAndInsert in pkg/proc/proc_file_creator.go and
  pkg/proc/file_inserter.go). Without an order the records are sent to the worker that writes the
  file as they are read. With an order a bounded priority queue keeps the records with the smallest
  keys, and they are sent at the end. The state has the records handed to the inserter; the
  statuses that the worker reports are a parameter.
\<close>

subsection \<open>The inserter\<close>

text \<open>The current batch, when there is one, and the batches already sent to the worker.\<close>

record ('f, 'd) file_inserter =
  fi_BatchCapacity :: nat
  fi_CurrentBatch :: "('f, 'd) gval list list"
  fi_BatchesIn :: "('f, 'd) gval list list list"
  fi_BatchesSent :: int
  fi_FinalFileUrl :: string

definition DefaultFileInserterBatchCapacity :: nat where "DefaultFileInserterBatchCapacity = 1000"

definition newFileInserter :: "file_creator \<Rightarrow> int \<Rightarrow> int \<Rightarrow> ('f, 'd) file_inserter" where
  "newFileInserter fc runId batchIdx =
     \<lparr>fi_BatchCapacity = DefaultFileInserterBatchCapacity, fi_CurrentBatch = [], fi_BatchesIn = [], fi_BatchesSent = 0,
      fi_FinalFileUrl = ReplaceAll (ReplaceAll (fcr_UrlTemplate fc) ''{run_id|string}'' (int_str0 5 runId))
                          ''{batch_idx|string}'' (int_str0 5 batchIdx)\<rparr>"

definition send_batch :: "('f, 'd) file_inserter \<Rightarrow> ('f, 'd) file_inserter" where
  "send_batch I = I\<lparr>fi_BatchesIn := fi_BatchesIn I @ [fi_CurrentBatch I], fi_BatchesSent := fi_BatchesSent I + 1, fi_CurrentBatch := []\<rparr>"

definition file_add :: "('f, 'd) gval list \<Rightarrow> ('f, 'd) file_inserter \<Rightarrow> ('f, 'd) file_inserter" where
  "file_add row I =
     (let I1 = I\<lparr>fi_CurrentBatch := fi_CurrentBatch I @ [row]\<rparr>
      in if length (fi_CurrentBatch I1) = fi_BatchCapacity I1 then send_batch I1 else I1)"

text \<open>The statuses that are there without waiting.\<close>

definition found_errors :: "goerr option list \<Rightarrow> goerr option" where
  "found_errors statuses =
     (let es = map the (filter (\<lambda>s. s \<noteq> None) statuses) in if length es > 0 then Some (Join es ''; '') else None)"

definition checkWorkerOutputForErrors ::
  "('w \<Rightarrow> goerr option list \<times> 'w) \<Rightarrow> ('f, 'd) file_inserter \<Rightarrow> 'w \<Rightarrow> (goerr option \<times> ('f, 'd) file_inserter) \<times> 'w" where
  "checkWorkerOutputForErrors poll I w =
     (case poll w of (statuses, w1) \<Rightarrow>
        ((found_errors statuses, I\<lparr>fi_BatchesSent := fi_BatchesSent I - int (length statuses)\<rparr>), w1))"

text \<open>The leftovers are sent, and one status is awaited for every batch that has none yet.\<close>

definition waitForWorker ::
  "(int \<Rightarrow> 'w \<Rightarrow> goerr option list \<times> 'w) \<Rightarrow> ('f, 'd) file_inserter \<Rightarrow> 'w \<Rightarrow> (goerr option \<times> ('f, 'd) file_inserter) \<times> 'w" where
  "waitForWorker await I w =
     (let I1 = (if length (fi_CurrentBatch I) > 0 then send_batch I else I) in
      case await (fi_BatchesSent I1) w of (statuses, w1) \<Rightarrow> ((found_errors statuses, I1\<lparr>fi_BatchesSent := 0\<rparr>), w1))"

definition file_rows :: "('f, 'd) file_inserter \<Rightarrow> ('f, 'd) gval list list" where
  "file_rows I = concat (fi_BatchesIn I) @ fi_CurrentBatch I"

subsection \<open>The records with the smallest keys\<close>

record ('f, 'd) heap_item =
  hi_FileRecord :: "('f, 'd) gval list"
  hi_Key :: string

definition FileRecordHeap_Less :: "('f, 'd) heap_item \<Rightarrow> ('f, 'd) heap_item \<Rightarrow> bool" where
  "FileRecordHeap_Less a b \<longleftrightarrow> hi_Key b < hi_Key a"

interpretation file_heap: heap_order FileRecordHeap_Less
  by unfold_locales (auto simp: FileRecordHeap_Less_def)

definition top_push :: "int \<Rightarrow> ('f, 'd) heap_item list \<Rightarrow> ('f, 'd) heap_item \<Rightarrow> ('f, 'd) heap_item list" where
  "top_push limit h item =
     (let h1 = heap_Push FileRecordHeap_Less item h
      in if int (length h1) > limit then snd (heap_Pop FileRecordHeap_Less h1) else h1)"

text \<open>The list is filled from its end.\<close>

fun top_list :: "nat \<Rightarrow> ('f, 'd) heap_item list \<Rightarrow> ('f, 'd) heap_item list" where
  "top_list 0 h = []"
| "top_list (Suc n) h = (case heap_Pop FileRecordHeap_Less h of (item, h1) \<Rightarrow> top_list n h1 @ [item])"

subsection \<open>Rows, pages, table\<close>

record ('f, 'd) file_env =
  fe_Lang :: "('f, 'd) lang"
  fe_fmt32 :: "'f \<Rightarrow> string"
  fe_unaccent :: "string \<Rightarrow> string"
  fe_upper :: "string \<Rightarrow> string"
  fe_inf :: "('f, 'd) gval \<Rightarrow> (goerr + 'd) option"
  fe_FileCreator :: file_creator

record ('f, 'd) file_run =
  fn_Heap :: "('f, 'd) heap_item list"
  fn_Inserter :: "('f, 'd) file_inserter"
  fn_RowsRead :: int
  fn_RowsWritten :: int

definition FileCreatorNull :: "('f, 'd) gval" where "FileCreatorNull = VOther ''FileCreatorNull''"

definition with_nulls :: "nat list \<Rightarrow> ('f, 'd) gval list \<Rightarrow> ('f, 'd) gval list" where
  "with_nulls nulls rcd = fold (\<lambda>i r. r[i := FileCreatorNull]) nulls rcd"

definition key_vars :: "file_creator \<Rightarrow> ('f, 'd) gval list \<Rightarrow> ('f, 'd) row" where
  "key_vars fc rcd = foldl (\<lambda>m (c, v). m(fc_Name c \<mapsto> v)) Map.empty (zip (fcr_Columns fc) rcd)"

text \<open>The record of a row, with its key when there is an order, or nothing when the having condition leaves it out.\<close>

definition file_item ::
  "('f, 'd) file_env \<Rightarrow> rowset \<Rightarrow> ('f, 'd) gval list \<Rightarrow> goerr + ('f, 'd) heap_item option" where
  "file_item E rs vals =
     (let fc = fe_FileCreator E in
      bindr (ExportToVars (fe_inf E) rs vals Map.empty) (\<lambda>vars.
        case CalculateFileRecordFromSrcVars (fe_Lang E) vars fc of
          Inl e \<Rightarrow> Inl (''cannot populate file record: ['' @ e @ '']'')
        | Inr (fileRecord, nullColumnIndexes) \<Rightarrow>
            (case CheckFileRecordHavingCondition (fe_Lang E) fileRecord fc of
               Inl e \<Rightarrow> Inl (''cannot check having condition: ['' @ e @ '']'')
             | Inr False \<Rightarrow> Inr None
             | Inr True \<Rightarrow>
                 (if HasTop fc
                  then (case BuildKey (l_ops (fe_Lang E)) (fe_fmt32 E) (fe_unaccent E) (fe_upper E)
                               (key_vars fc fileRecord) (top_OrderIdxDef (fcr_Top fc)) of
                          Inl e \<Rightarrow> Inl (''cannot build top key: ['' @ e @ '']'')
                        | Inr key \<Rightarrow> Inr (Some \<lparr>hi_FileRecord = with_nulls nullColumnIndexes fileRecord, hi_Key = key\<rparr>))
                  else Inr (Some \<lparr>hi_FileRecord = with_nulls nullColumnIndexes fileRecord, hi_Key = ''''\<rparr>)))))"

definition put_item :: "('f, 'd) heap_item \<Rightarrow> ('f, 'd) file_run \<Rightarrow> ('f, 'd) file_run" where
  "put_item item st =
     st\<lparr>fn_Inserter := file_add (hi_FileRecord item) (fn_Inserter st), fn_RowsWritten := fn_RowsWritten st + 1\<rparr>"

definition take_item :: "file_creator \<Rightarrow> ('f, 'd) heap_item \<Rightarrow> ('f, 'd) file_run \<Rightarrow> ('f, 'd) file_run" where
  "take_item fc item st =
     (if HasTop fc then st\<lparr>fn_Heap := top_push (top_Limit (fcr_Top fc)) (fn_Heap st) item\<rparr> else put_item item st)"

fun file_page_rows ::
  "('f, 'd) file_env \<Rightarrow> rowset \<Rightarrow> ('f, 'd) gval list list \<Rightarrow> ('f, 'd) file_run \<Rightarrow> goerr option \<times> ('f, 'd) file_run" where
  "file_page_rows E rs [] st = (None, st)"
| "file_page_rows E rs (vals # rows) st =
     (case file_item E rs vals of
        Inl e \<Rightarrow> (Some e, st)
      | Inr None \<Rightarrow> file_page_rows E rs rows st
      | Inr (Some item) \<Rightarrow> file_page_rows E rs rows (take_item (fe_FileCreator E) item st))"

definition file_page ::
  "('f, 'd) file_env \<Rightarrow> ('w \<Rightarrow> goerr option list \<times> 'w) \<Rightarrow> rowset \<Rightarrow> ('f, 'd) gval list list \<Rightarrow> ('f, 'd) file_run \<Rightarrow> 'w \<Rightarrow>
     (goerr option \<times> ('f, 'd) file_run) \<times> 'w" where
  "file_page E poll rs rows st w =
     (case file_page_rows E rs rows st of
        (Some e, st1) \<Rightarrow> ((Some e, st1), w)
      | (None, st1) \<Rightarrow>
          (case checkWorkerOutputForErrors poll (fn_Inserter st1) w of
             ((r, I1), w1) \<Rightarrow>
               ((map_option (\<lambda>e. ''cannot save record batch: ['' @ e @ '']'') r,
                 st1\<lparr>fn_RowsRead := fn_RowsRead st1 + int (length rows), fn_Inserter := I1\<rparr>), w1)))"

definition write_top :: "file_creator \<Rightarrow> ('f, 'd) file_run \<Rightarrow> ('f, 'd) file_run" where
  "write_top fc st =
     (if HasTop fc then fold put_item (top_list (length (fn_Heap st)) (fn_Heap st)) (st\<lparr>fn_Heap := []\<rparr>) else st)"

definition readAndInsert ::
  "nat \<Rightarrow> ('f, 'd) file_env \<Rightarrow> ('w, 'f, 'd) read_db \<Rightarrow> ('w \<Rightarrow> goerr option list \<times> 'w) \<Rightarrow> string \<Rightarrow> rowset \<Rightarrow> ('f, 'd) file_inserter \<Rightarrow>
     int \<Rightarrow> int \<Rightarrow> int \<Rightarrow> nat \<Rightarrow> 'w \<Rightarrow> ((goerr option \<times> ('f, 'd) file_run) \<times> 'w) option" where
  "readAndInsert fuel E D poll tableName rs I readerNodeRunId startToken endToken srcBatchSize w =
     map_option (\<lambda>((r, st), w1). ((r, if r = None then write_top (fe_FileCreator E) st else st), w1))
       (token_loop fuel
          (\<lambda>t ids. selectBatchFromTableByToken D rs tableName readerNodeRunId srcBatchSize t endToken ids)
          (file_page E poll rs) startToken [] \<lparr>fn_Heap = [], fn_Inserter = I, fn_RowsRead = 0, fn_RowsWritten = 0\<rparr> w)"

subsection \<open>The queue keeps the smallest keys\<close>

definition smallest :: "nat \<Rightarrow> ('f, 'd) heap_item list \<Rightarrow> ('f, 'd) heap_item list \<Rightarrow> bool" where
  "smallest limit items h \<longleftrightarrow> file_heap.is_heap (length h) h \<and> length h = min limit (length items) \<and>
     (\<exists>R. mset items = mset h + R \<and> (\<forall>y\<in>set h. \<forall>r\<in>#R. hi_Key y \<le> hi_Key r))"

lemma key_order: "\<not> FileRecordHeap_Less a b \<longleftrightarrow> hi_Key a \<le> hi_Key b"
  by (auto simp: FileRecordHeap_Less_def)

lemma top_push_smallest:
  assumes "smallest limit items h"
  shows "smallest limit (items @ [x]) (top_push (int limit) h x)"
proof -
  let ?h1 = "heap_Push FileRecordHeap_Less x h"
  obtain R where R: "mset items = mset h + R" "\<forall>y\<in>set h. \<forall>r\<in>#R. hi_Key y \<le> hi_Key r"
    and h: "file_heap.is_heap (length h) h" "length h = min limit (length items)"
    using assms unfolding smallest_def by blast
  have h1: "file_heap.is_heap (length ?h1) ?h1" using file_heap.heap_Push_heap [OF h(1)] .
  have m1: "mset ?h1 = add_mset x (mset h)" by (rule mset_heap_Push)
  then have l1: "length ?h1 = Suc (length h)" by (metis size_mset size_add_mset)
  show ?thesis
  proof (cases "int (length ?h1) > int limit")
    case False
    then have "length items = length h" using h(2) l1 by linarith
    then have "R = {#}" using R(1) by (metis add_diff_cancel_left' size_eq_0_iff_empty size_mset size_union diff_self_eq_0)
    then have "mset (items @ [x]) = mset ?h1 + {#}" using m1 R(1) by simp
    moreover have "top_push (int limit) h x = ?h1" using False by (simp add: top_push_def Let_def)
    moreover have "length ?h1 = min limit (length (items @ [x]))" using False l1 \<open>length items = length h\<close> by simp
    ultimately show ?thesis using h1 unfolding smallest_def by (metis empty_not_add_mset multi_member_split)
  next
    case True
    obtain z h2 where pop: "heap_Pop FileRecordHeap_Less ?h1 = (z, h2)" by (cases "heap_Pop FileRecordHeap_Less ?h1")
    have ne: "?h1 \<noteq> []" using l1 by auto
    note p = file_heap.heap_Pop_heap [OF ne h1 pop, unfolded key_order]
    have "length h2 = length h" using p(1) l1 by (metis Suc_inject size_add_mset size_mset)
    moreover have "length h = limit" using True l1 h(2) by linarith
    moreover have "mset (items @ [x]) = mset h2 + add_mset z R" using R(1) m1 p(1) by simp
    moreover have "hi_Key y \<le> hi_Key r" if "y \<in> set h2" "r \<in># add_mset z R" for y r
    proof (cases "r = z")
      case True
      then show ?thesis using p(1,3) that(1) by (metis set_mset_mset union_single_eq_member insert_iff set_mset_add_mset_insert)
    next
      case False
      then have r: "r \<in># R" using that(2) by simp
      have y: "y \<in> set h \<or> mset h2 = mset h - {#z#} + {#x#} \<and> z \<in> set h"
      proof (cases "z = x")
        case True
        then have "mset h2 = mset h" using p(1) m1 by simp
        then show ?thesis using that(1) mset_eq_setD by blast
      next
        case False
        then have "z \<in># mset h" using p(1) m1 by (metis insert_noteq_member union_single_eq_member)
        then show ?thesis using p(1) m1 False by (metis add_mset_add_single add_mset_remove_trivial diff_union_swap set_mset_mset)
      qed
      then show ?thesis
      proof (elim disjE conjE)
        assume "y \<in> set h"
        then show ?thesis using R(2) r by blast
      next
        assume "z \<in> set h"
        moreover have "y \<in> set ?h1" using that(1) p(1) by (metis insert_iff set_mset_add_mset_insert set_mset_mset)
        ultimately show ?thesis using R(2) r p(3) order_trans by blast
      qed
    qed
    ultimately show ?thesis using True p(2) h(2) unfolding smallest_def top_push_def
      by (auto simp: Let_def pop intro!: exI [of _ "add_mset z R"])
  qed
qed

lemma top_pushes_smallest: "smallest limit items (foldl (top_push (int limit)) [] items)"
proof (induction items rule: rev_induct)
  case Nil
  then show ?case by (simp add: smallest_def)
next
  case (snoc x items)
  then show ?case using top_push_smallest by simp
qed

lemma top_list_ascending:
  "file_heap.is_heap (length h) h \<Longrightarrow> n = length h \<Longrightarrow> sorted (map hi_Key (top_list n h)) \<and> mset (top_list n h) = mset h"
proof (induction n arbitrary: h)
  case (Suc n)
  obtain z h1 where pop: "heap_Pop FileRecordHeap_Less h = (z, h1)" by (cases "heap_Pop FileRecordHeap_Less h")
  have ne: "h \<noteq> []" using Suc.prems(2) by auto
  note p = file_heap.heap_Pop_heap [OF ne Suc.prems(1) pop, unfolded key_order]
  have "length h1 = n" using p(1) Suc.prems(2) by (metis Suc_inject size_add_mset size_mset)
  then have ih: "sorted (map hi_Key (top_list n h1))" "mset (top_list n h1) = mset h1" using Suc.IH [OF p(2)] by simp_all
  have "set (top_list n h1) \<subseteq> set h" using ih(2) p(1) by (metis mset_subset_eqD set_mset_mset subsetI mset_subset_eq_add_mset_cancel add_mset_add_single mset_subset_eq_add_left)
  then have "\<forall>y\<in>set (top_list n h1). hi_Key y \<le> hi_Key z" using p(3) by blast
  then show ?case using ih p(1) by (simp add: pop sorted_append)
qed simp

text \<open>What is written is the beginning of all records in the order of their keys.\<close>

lemma top_list_prefix:
  assumes "smallest limit items h"
  shows "map hi_Key (top_list (length h) h) = take limit (sort (map hi_Key items))" "mset (top_list (length h) h) \<subseteq># mset items"
proof -
  obtain R where R: "mset items = mset h + R" "\<forall>y\<in>set h. \<forall>r\<in>#R. hi_Key y \<le> hi_Key r"
    and h: "file_heap.is_heap (length h) h" "length h = min limit (length items)"
    using assms unfolding smallest_def by blast
  obtain rs where rs: "mset rs = R" using ex_mset by blast
  let ?t = "top_list (length h) h"
  have t: "sorted (map hi_Key ?t)" "mset ?t = mset h" using top_list_ascending [OF h(1) refl] by blast+
  show "mset ?t \<subseteq># mset items" using R(1) t(2) by simp
  have "\<forall>y\<in>set ?t. \<forall>r\<in>set rs. hi_Key y \<le> hi_Key r" using R(2) rs t(2) by (metis mset_eq_setD set_mset_mset)
  then have "sorted (map hi_Key ?t @ sort (map hi_Key rs))" using t(1) by (auto simp: sorted_append)
  moreover have "mset (map hi_Key ?t @ sort (map hi_Key rs)) = mset (map hi_Key items)"
    using R(1) rs t(2) by (simp add: image_mset_union)
  ultimately have s: "sort (map hi_Key items) = map hi_Key ?t @ sort (map hi_Key rs)" by (metis properties_for_sort)
  have l: "length ?t = min limit (length items)" using t(2) h(2) by (metis size_mset)
  show "map hi_Key ?t = take limit (sort (map hi_Key items))"
  proof (cases "limit \<le> length items")
    case True
    then show ?thesis unfolding s using l by simp
  next
    case False
    then have "rs = []" using l R(1) rs t(2) by (metis add_diff_cancel_left' diff_self_eq_0 length_0_conv min.absorb_iff2 nat_le_linear size_mset size_union)
    then show ?thesis unfolding s using l False by simp
  qed
qed

subsection \<open>A file with an order\<close>

lemma file_rows_add [simp]: "0 < fi_BatchCapacity I \<Longrightarrow> file_rows (file_add row I) = file_rows I @ [row]"
  by (simp add: file_rows_def file_add_def send_batch_def Let_def)

lemma capacity_add [simp]: "fi_BatchCapacity (file_add row I) = fi_BatchCapacity I"
  by (simp add: file_add_def send_batch_def Let_def)

lemma put_items:
  assumes "0 < fi_BatchCapacity (fn_Inserter st)"
  shows "file_rows (fn_Inserter (fold put_item items st)) = file_rows (fn_Inserter st) @ map hi_FileRecord items \<and>
    fn_RowsWritten (fold put_item items st) = fn_RowsWritten st + int (length items) \<and>
    fn_RowsRead (fold put_item items st) = fn_RowsRead st \<and> fn_Heap (fold put_item items st) = fn_Heap st \<and>
    fi_BatchCapacity (fn_Inserter (fold put_item items st)) = fi_BatchCapacity (fn_Inserter st)"
  using assms by (induction items arbitrary: st) (simp_all add: put_item_def)

text \<open>The items of rows none of which fails.\<close>

definition file_items ::
  "('f, 'd) file_env \<Rightarrow> rowset \<Rightarrow> ('f, 'd) gval list list \<Rightarrow> goerr + ('f, 'd) heap_item list" where
  "file_items E rs rows = bindr (mapr (file_item E rs) rows) (\<lambda>xs. Inr (List.map_filter id xs))"

lemma file_items_Cons:
  "file_items E rs (vals # rows) = Inr items \<longleftrightarrow>
    (\<exists>x xs. file_item E rs vals = Inr x \<and> file_items E rs rows = Inr xs \<and> items = (case x of None \<Rightarrow> xs | Some i \<Rightarrow> i # xs))"
  by (cases "file_item E rs vals"; cases "mapr (file_item E rs) rows") (auto simp: file_items_def List.map_filter_def split: option.splits)

lemma file_items_append:
  "file_items E rs (rows1 @ rows2) = Inr items \<Longrightarrow>
    \<exists>xs ys. file_items E rs rows1 = Inr xs \<and> file_items E rs rows2 = Inr ys \<and> items = xs @ ys"
proof (induction rows1 arbitrary: items)
  case Nil
  then show ?case by (simp add: file_items_def List.map_filter_def)
next
  case (Cons vals rows1)
  obtain x xs where x: "file_item E rs vals = Inr x" "file_items E rs (rows1 @ rows2) = Inr xs" "items = (case x of None \<Rightarrow> xs | Some i \<Rightarrow> i # xs)"
    using Cons.prems unfolding append_Cons file_items_Cons by blast
  obtain as bs where ab: "file_items E rs rows1 = Inr as" "file_items E rs rows2 = Inr bs" "xs = as @ bs"
    using Cons.IH [OF x(2)] by blast
  show ?case unfolding file_items_Cons using x(1,3) ab by (cases x) auto
qed

lemma file_page_rows_items:
  "file_items E rs rows = Inr items \<Longrightarrow> file_page_rows E rs rows st = (None, fold (take_item (fe_FileCreator E)) items st)"
proof (induction rows arbitrary: items st)
  case Nil
  then show ?case by (simp add: file_items_def List.map_filter_def)
next
  case (Cons vals rows)
  then show ?case unfolding file_items_Cons by (auto split: option.split)
qed

text \<open>What the pages add to the state, whatever the statuses of the worker are, as long as they are not errors.\<close>

definition quiet_worker :: "('w \<Rightarrow> goerr option list \<times> 'w) \<Rightarrow> bool" where
  "quiet_worker poll \<longleftrightarrow> (\<forall>w. found_errors (fst (poll w)) = None)"

lemma take_items_top:
  "HasTop fc \<Longrightarrow> fold (take_item fc) items st = st\<lparr>fn_Heap := foldl (top_push (top_Limit (fcr_Top fc))) (fn_Heap st) items\<rparr>"
  by (induction items arbitrary: st) (simp_all add: take_item_def)

lemma top_pages:
  assumes "quiet_worker poll" "HasTop (fe_FileCreator E)" "file_items E rs (concat pages) = Inr items"
  shows "\<exists>st1 w1. run_pages (file_page E poll rs) pages st w = ((None, st1), w1) \<and>
    fn_Heap st1 = foldl (top_push (top_Limit (fcr_Top (fe_FileCreator E)))) (fn_Heap st) items \<and>
    fn_RowsRead st1 = fn_RowsRead st + int (length (concat pages)) \<and> fn_RowsWritten st1 = fn_RowsWritten st \<and>
    file_rows (fn_Inserter st1) = file_rows (fn_Inserter st) \<and>
    fi_BatchCapacity (fn_Inserter st1) = fi_BatchCapacity (fn_Inserter st)"
  using assms(3)
proof (induction pages arbitrary: items st w)
  case Nil
  then show ?case by (simp add: file_items_def List.map_filter_def)
next
  case (Cons page pages)
  obtain xs ys where i: "file_items E rs page = Inr xs" "file_items E rs (concat pages) = Inr ys" "items = xs @ ys"
    using file_items_append [of E rs page "concat pages" items] Cons.prems by auto
  obtain ss w1 where poll: "poll w = (ss, w1)" by (cases "poll w")
  have none: "found_errors ss = None" using assms(1) poll unfolding quiet_worker_def by (metis fst_conv)
  let ?st = "st\<lparr>fn_Heap := foldl (top_push (top_Limit (fcr_Top (fe_FileCreator E)))) (fn_Heap st) xs,
    fn_RowsRead := fn_RowsRead st + int (length page),
    fn_Inserter := (fn_Inserter st)\<lparr>fi_BatchesSent := fi_BatchesSent (fn_Inserter st) - int (length ss)\<rparr>\<rparr>"
  have "file_page E poll rs page st w = ((None, ?st), w1)"
    unfolding file_page_def file_page_rows_items [OF i(1)] take_items_top [OF assms(2)]
    by (simp add: checkWorkerOutputForErrors_def poll none)
  moreover obtain st2 w2 where "run_pages (file_page E poll rs) pages ?st w1 = ((None, st2), w2)"
    "fn_Heap st2 = foldl (top_push (top_Limit (fcr_Top (fe_FileCreator E)))) (fn_Heap ?st) ys"
    "fn_RowsRead st2 = fn_RowsRead ?st + int (length (concat pages))" "fn_RowsWritten st2 = fn_RowsWritten ?st"
    "file_rows (fn_Inserter st2) = file_rows (fn_Inserter ?st)"
    "fi_BatchCapacity (fn_Inserter st2) = fi_BatchCapacity (fn_Inserter ?st)"
    using Cons.IH [OF i(2)] by blast
  ultimately show ?case using i(3) by (simp add: file_rows_def)
qed


text \<open>The two smallest prices of four rows.\<close>

definition price_rowset :: rowset where
  "price_rowset = NewRowsetFromFieldRefs
     [[RowidFieldRef ''orders''], [RowidTokenFieldRef], [\<lparr>fr_TableName = ''r'', fr_FieldName = ''a'', fr_FieldType = FieldTypeInt\<rparr>]]"

definition price_rows :: "(int, int) gval list list" where
  "price_rows = [[VInt64 10, VInt64 1, VInt64 7], [VInt64 20, VInt64 5, VInt64 3], [VInt64 21, VInt64 5, VInt64 9], [VInt64 30, VInt64 9, VInt64 4]]"

definition price_file :: file_creator where
  "price_file = sample_file\<lparr>fcr_Columns := [sample_column\<lparr>fc_WriteNullIfRawExpression := '''', fc_WriteNullIfParsedExpression := None\<rparr>],
     fcr_Top := \<lparr>top_Limit = 2, top_RawOrder = ''a'', top_OrderIdxDef = \<lparr>idx_Uniqueness = IdxNonUnique,
       idx_Components = [\<lparr>ic_FieldName = ''a'', ic_CaseSensitivity = IdxCaseSensitivityUnknown, ic_SortOrder = IdxSortAsc, ic_StringLen = 64, ic_FieldType = FieldTypeInt\<rparr>]\<rparr>\<rparr>\<rparr>"

definition price_env :: "(int, int) file_env" where
  "price_env = \<lparr>fe_Lang = sample_lang, fe_fmt32 = (\<lambda>_. ''''), fe_unaccent = id, fe_upper = id, fe_inf = (\<lambda>v. None), fe_FileCreator = price_file\<rparr>"

lemma price_rowset_fields:
  "price_rowset = \<lparr>rs_Fields = [RowidFieldRef ''orders'', RowidTokenFieldRef, \<lparr>fr_TableName = ''r'', fr_FieldName = ''a'', fr_FieldType = FieldTypeInt\<rparr>],
     rs_FieldsByFullAliasName = [(GetAliasHash (RowidFieldRef ''orders''), 0), (GetAliasHash RowidTokenFieldRef, 1), (''r.a'', 2)],
     rs_FieldsByFieldName = [(''rowid'', 0), (''token(rowid)'', 1), (''a'', 2)]\<rparr>"
  by code_simp

lemma price_cells:
  "int64_cell price_rowset ''rowid'' [VInt64 i, VInt64 t, v] = Inr i" "int64_cell price_rowset ''token(rowid)'' [VInt64 i, VInt64 t, v] = Inr t"
  "\<not> unsupported_rows price_rowset"
  by (simp_all add: price_rowset_fields int64_cell_def unsupported_rows_def RowidFieldRef_def RowidTokenFieldRef_def)

lemma price_items: "\<exists>items. file_items price_env price_rowset price_rows = Inr items"
proof -
  have "case file_items price_env price_rowset price_rows of Inr _ \<Rightarrow> True | Inl _ \<Rightarrow> False" by code_simp
  then show ?thesis by (cases "file_items price_env price_rowset price_rows") simp_all
qed


end
