(* ===== verification/Spec2Isabelle.thy ===== *)
theory Spec2Isabelle
  imports Broker Wfmodel Cql Eval_Group Script_Graph Runs Batch_Delete File_Output
begin

text \<open>
  A verification development for Capillaries, a distributed batch processor written in Go
  (pkg/ under src/). A script describes a graph of nodes; a node reads a file or a table, calculates
  a table or a file from it with Go expressions, possibly joined with another table, and is run in
  batches. Workers take batch messages from a queue, ask the workflow tables in Cassandra whether
  the nodes a batch depends on are done, process the batch, and record what happened in histories
  from which the status of batches, nodes and runs is folded.

  Which theory models what

  Prelude, Go_Sort, Go_Strings, Go_Time and Values hold the shared ground: fixed-width integers
  with wrap-around, errors as \<open>goerr + 'a\<close>, slices.SortFunc with the contract of its comparator
  (locale comparator, interpreted on the orders the code sorts by), strings, strconv, time stamps,
  and the dynamically typed values \<open>gval\<close>.

  Broker models the in-memory message broker (pkg/capimq/message_broker.go): the state is the
  record \<open>broker\<close> with the ordered queue \<open>Q\<close> and the messages in progress \<open>Wip\<close>. Every method is a
  sequence of critical sections, one per mutex, and an inductive relation interleaves the sections
  of concurrent calls; the lemmas show that no message is lost or duplicated, that Claim gives the
  earliest due message, and that a lease ends once (locale lease, interpreted on Ack and Return).

  Wfmodel models the events and the folds over histories (pkg/wfmodel): statuses of batches,
  nodes and runs, life spans of runs, dependencies between runs. The lemmas characterise each fold
  as a maximum or a count over the rows and say which folds depend on the order of the rows.

  Cql models the query builder (pkg/cql) as functions from record to record ending in a text;
  the lemmas show that quoted strings read back and that columns and parameters stay in lockstep.

  Ast, Eval_Ops, Eval_Agg, Eval_Expr and Eval_Facts model the evaluator of Go expressions (pkg/eval):
  casts, operators, aggregate functions, and the recursion that threads the evaluation context.
  Eval_Group models what a grouped lookup makes of a field (in pkg/proc/proc_table_creator_lookup.go).
  float64 and decimal arithmetic are the record \<open>numops\<close>; the custom functions and the constants
  of pkg/evalcapi are the arguments \<open>fns\<close> and \<open>consts\<close> of a context.

  Field_Refs, Keys, Lang, Table_Creator, Lookup_Def, File_Creator and File_Reader model the definitions of
  a script (pkg/sc): field references and the checks of their use, index definitions and key
  strings (locales fixed_code and sort_code, interpreted on the components of a key), the tables and
  files that a node reads and writes, and the records calculated for them. What json.Unmarshal
  or the Go parser makes of a text is an argument of the definition that uses it.

  Dep_Policy models dependency policies (pkg/sc/dependency_policy_def.go) and the decision
  whether a node may run (pkg/dpc/dependency_policy_checker.go), with the default policy of the
  code and the decision it takes on every history.

  Script_Node, Script_Def and Script_Graph model the nodes of a script and the script as a whole
  (pkg/sc/script_node_def.go, script_def.go): the checks of a node, the intervals of tokens its batches read, the
  passes that tie tables, indexes, lookups and policies together, and the set of nodes a run affects. The
  recursion over the graph has fuel that counts its depth: on a script without cycles any fuel above the number
  of nodes is enough, the affected nodes are those reachable without passing a manual start, and on a
  cycle no fuel is enough.

  Wfdb models the access to the workflow tables (pkg/wfdb) and the wrapping of errors in
  pkg/db/cassandra.go. The database session is the record \<open>session\<close>, three calls that act on an unknown world; what
  it promises for the counter of runs is the hypothesis \<open>counter_session\<close>, under which the attempts of concurrent
  callers, interleaved by an inductive relation, implement an atomic counter (GetNextRunCounter gives up
  after 100 attempts, as the code does).

  Handler models the handler of a batch message (pkg/api/message_handler.go): the checks of the run, the batch and its
  dependencies, the marks left in the histories, and the processing, over the session and a journal of what the
  handler read and did, in which the order of the steps is stated. Loading the script, processing
  the rows and deleting leftovers are calls on the world given as parameters (record \<open>handler_env\<close>).

  Inserter models the writing of records into the tables of a run (pkg/proc/table_inserter.go) over the calls of a
  database session (record \<open>data_db\<close>): a worker's attempts at a rowid, other rowids after a collision, the
  records of indexes and of distinct tables, and the drainer that collects the results. The loops have as many attempts as
  the code makes. What the database promises for a conditional insert, timeouts that may have been applied included, is the
  hypothesis \<open>lwt_store\<close>; under it a record for which a rowid is returned is in the table. Two lemmas at the end state
  cases that go wrong.

  Rowset models the rows scanned from the database (pkg/proc/rowset.go), and Batch_Delete the clean-up of an abandoned batch
  (pkg/proc/delete_data_for_batch.go, with its queries in data_util.go). The clean-up's loop over the pages of a table need not end; it has
  fuel that counts its rounds, and its property says on which tables it never ends.

  Runs models how a run is started and stopped (pkg/api/run.go), with a journal as in Handler: the order of the steps, and the messages
  sent for the intervals of the affected nodes. Its fuel is that of GetAffectedNodes.

  Token_Read models the queries for the rows of a batch (pkg/proc/data_util.go) and the loop over the rows of a token interval that
  the processors of table, distinct, lookup and file nodes share; what an iterator yields is the record \<open>read_db\<close>. The loop's
  fuel counts its reads: under the hypothesis that the driver serves the rows in the order of their tokens, one more than the rows of the
  interval is enough, and every row is handled once. Two lemmas at the end state settings in which rows are lost or the
  loop does not end. Go_Heap models container/heap with the contract of its order (locale heap_order), and
  File_Output the output of a file node (readAndInsert in pkg/proc/proc_file_creator.go, pkg/proc/file_inserter.go): the order
  of its records interprets the locale, and the lemmas show that the bounded queue keeps the smallest keys.

  Conventions

  A Go struct is a record, an enumeration with a default case is a datatype with a constructor for
  the other strings, int16 and int64 are int values with the wrap-around written out where the code
  can overflow. A map that the code iterates over is an association list in one iteration order, and
  the lemmas hold for all of them. A panic of the Go run time is an error whose text starts with panic.
  Error texts are kept only as far as the code tells errors apart. Recursion is structural or has a
  termination proof; a loop of the code that need not end has fuel or is partial, and the lemmas say when
  it ends.

  Not modelled

  Code whose behaviour is that of a service or a library: pkg/db (gocql sessions and the creation of tables; the
  wrapping of errors is modelled), pkg/mq (AMQP and HTTP
  clients), pkg/xfer (HTTP, S3, SFTP), pkg/storage (Parquet and CSV libraries), pkg/exe (the main
  functions, HTTP routing, flags), pkg/env, pkg/l and pkg/ctx (configuration, logging, the context that is
  passed around), pkg/msgsig (cryptographic signatures), and the two custom processors (one
  starts a Python interpreter). The records of floats and of the decimal package are parameters, so
  pkg/evalcapi's functions on them are too. In pkg/proc the
  lookups are intertwined with goroutines, and files with their formats; of it the choice of the processor, the reading of rows, the
  calculation of grouped fields, the writing of records, the order of a file, rowsets and the clean-up are modelled. Of pkg/api the drawing of scripts and the deletion of keyspaces are
  left out.
\<close>

end
